(* ===== verification/Prelude.thy ===== *)
theory Prelude
  imports Main "HOL-Library.Word" "HOL-Library.Finite_Map"
begin

unbundle bit_operations_syntax

text \<open>
  Shared vocabulary of the development: the machine integers and the byte buffers of the Rust
  sources, the three-way outcome of a Rust call (value, error value, panic), checked reads and
  writes of slices, big-endian conversion, and two interfaces: a transition system with its
  invariant, and its refinement of an abstract machine.
\<close>

section \<open>Types\<close>

type_synonym u8 = "8 word"
type_synonym u16 = "16 word"
type_synonym u32 = "32 word"
type_synonym u64 = "64 word"
type_synonym bytes = "8 word list"

text \<open>
  A Rust call returns \<open>Ok\<close>, returns \<open>Err\<close>, or panics (an index or a range outside a sliced, a
  length mismatch in \<^verbatim>\<open>copy_from_slice\<close>). Keeping \<open>Panic\<close> as a value makes ``no input makes
  the decoder panic'' a statement one can prove.
\<close>

datatype (dead 'e, dead 'a) res = Ok 'a | Err 'e | Panic

primrec bind_res :: "('e, 'a) res \<Rightarrow> ('a \<Rightarrow> ('e, 'b) res) \<Rightarrow> ('e, 'b) res" where
  "bind_res (Ok x) f = f x"
| "bind_res (Err e) f = Err e"
| "bind_res Panic f = Panic"

section \<open>Checked access to byte buffers\<close>

definition idx :: "'a list \<Rightarrow> nat \<Rightarrow> ('e, 'a) res" where
  "idx xs i = (if i < length xs then Ok (xs ! i) else Panic)"

definition sliced :: "'a list \<Rightarrow> nat \<Rightarrow> nat \<Rightarrow> 'a list" where
  "sliced xs a b = take (b - a) (drop a xs)"

definition slice_r :: "'a list \<Rightarrow> nat \<Rightarrow> nat \<Rightarrow> ('e, 'a list) res" where
  "slice_r xs a b = (if a \<le> b \<and> b \<le> length xs then Ok (sliced xs a b) else Panic)"

definition write_at :: "'a list \<Rightarrow> nat \<Rightarrow> 'a list \<Rightarrow> 'a list" where
  "write_at buf a src = take a buf @ src @ drop (a + length src) buf"

definition copy_into :: "'a list \<Rightarrow> nat \<Rightarrow> nat \<Rightarrow> 'a list \<Rightarrow> ('e, 'a list) res" where
  "copy_into buf a b src =
     (if a \<le> b \<and> b \<le> length buf \<and> length src = b - a then Ok (write_at buf a src) else Panic)"

fun find_map :: "('a \<Rightarrow> 'b option) \<Rightarrow> 'a list \<Rightarrow> 'b option" where
  "find_map f [] = None"
| "find_map f (x # xs) = (case f x of None \<Rightarrow> find_map f xs | Some y \<Rightarrow> Some y)"

text \<open>\<open>pad4 n\<close> is \<open>(n + 3) & !3\<close>: the next multiple of four.\<close>

definition pad4 :: "nat \<Rightarrow> nat" where
  "pad4 n = (n + 3) div 4 * 4"

section \<open>Big-endian conversion\<close>

fun be_bytes :: "nat \<Rightarrow> 'a::len word \<Rightarrow> bytes" where
  "be_bytes 0 w = []"
| "be_bytes (Suc n) w = ucast (drop_bit (8 * n) w) # be_bytes n w"

definition from_be_bytes :: "bytes \<Rightarrow> 'a::len word" where
  "from_be_bytes bs = foldl (\<lambda>acc b. push_bit 8 acc OR ucast b) 0 bs"

abbreviation be16 :: "u16 \<Rightarrow> bytes" where
  "be16 \<equiv> be_bytes 2"

abbreviation be32 :: "u32 \<Rightarrow> bytes" where
  "be32 \<equiv> be_bytes 4"

definition get_u16 :: "bytes \<Rightarrow> nat \<Rightarrow> ('e, u16) res" where
  "get_u16 buf i = (if i + 1 < length buf then Ok (from_be_bytes [buf ! i, buf ! (i + 1)]) else Panic)"

definition get_u32 :: "bytes \<Rightarrow> nat \<Rightarrow> ('e, u32) res" where
  "get_u32 buf i =
     (if i + 3 < length buf
      then Ok (from_be_bytes [buf ! i, buf ! (i + 1), buf ! (i + 2), buf ! (i + 3)]) else Panic)"

section \<open>Saturating arithmetic\<close>

definition saturating_sub :: "'a::len word \<Rightarrow> 'a word \<Rightarrow> 'a word" where
  "saturating_sub x y = (if y \<le> x then x - y else 0)"

definition saturating_add :: "'a::len word \<Rightarrow> 'a word \<Rightarrow> 'a word" where
  "saturating_add x y = (if unat x + unat y < 2 ^ LENGTH('a) then x + y else - 1)"

lemma unat_saturating_sub: "unat (saturating_sub a b) = unat a - unat b"
  by (simp add: saturating_sub_def unat_sub word_le_nat_alt)

lemma unat_saturating_add_le: "unat (saturating_add a b) \<le> unat a + unat b"
proof (cases "unat a + unat b < 2 ^ LENGTH('a)")
  case True
  then show ?thesis by (simp add: saturating_add_def unat_add_lem)
next
  case False
  have "unat (- 1 :: 'a word) < 2 ^ LENGTH('a)" by (rule unsigned_less)
  with False have "unat (- 1 :: 'a word) \<le> unat a + unat b" by linarith
  with False show ?thesis unfolding saturating_add_def by (simp only: if_False)
qed

section \<open>Text\<close>

text \<open>
  A Rust \<^verbatim>\<open>String\<close> is its UTF-8 bytes; a HOL \<open>string\<close> is a list of eight-bit characters, so the
  two correspond byte by byte.
\<close>

definition as_bytes :: "string \<Rightarrow> bytes" where
  "as_bytes s = map of_char s"

definition of_bytes :: "bytes \<Rightarrow> string" where
  "of_bytes bs = map (\<lambda>b. char_of (unat b)) bs"

text \<open>Decimal and two-digit hexadecimal formatting, as \<^verbatim>\<open>format!\<close> prints them.\<close>

fun fmt_nat :: "nat \<Rightarrow> string" where
  "fmt_nat n = (if n < 10 then [char_of (48 + n)] else fmt_nat (n div 10) @ [char_of (48 + n mod 10)])"

definition hex_digit :: "nat \<Rightarrow> char" where
  "hex_digit d = (if d < 10 then char_of (48 + d) else char_of (87 + d))"

definition fmt_hex2 :: "u8 \<Rightarrow> string" where
  "fmt_hex2 b = [hex_digit (unat b div 16), hex_digit (unat b mod 16)]"

fun fmt_hex_pad :: "nat \<Rightarrow> nat \<Rightarrow> string" where
  "fmt_hex_pad 0 n = []"
| "fmt_hex_pad (Suc k) n = fmt_hex_pad k (n div 16) @ [hex_digit (n mod 16)]"

declare fmt_nat.simps [simp del]

text \<open>Offsets stay sums: \<open>pos + 2\<close> is not rewritten to successors.\<close>

declare add_2_eq_Suc [simp del] add_2_eq_Suc' [simp del]

section \<open>Lemma collections\<close>

named_theorems wire \<open>unfolding of the checked buffer primitives\<close>
named_theorems be_simps \<open>big-endian reads and writes\<close>
named_theorems rust_const \<open>numeric constants of the sources\<close>

lemma bind_res_Ok_iff:
  "bind_res m f = Ok y \<longleftrightarrow> (\<exists>x. m = Ok x \<and> f x = Ok y)"
  by (cases m) auto

lemma bind_res_Err_iff:
  "bind_res m f = Err e \<longleftrightarrow> m = Err e \<or> (\<exists>x. m = Ok x \<and> f x = Err e)"
  by (cases m) auto

lemma bind_res_Panic_iff:
  "bind_res m f = Panic \<longleftrightarrow> m = Panic \<or> (\<exists>x. m = Ok x \<and> f x = Panic)"
  by (cases m) auto

text \<open>Structural rules for ``this expression does not panic''.\<close>

named_theorems no_panic \<open>introduction rules for panic freedom\<close>

lemma bind_np [no_panic]: "m \<noteq> Panic \<Longrightarrow> (\<And>x. f x \<noteq> Panic) \<Longrightarrow> bind_res m f \<noteq> Panic"
  by (cases m) auto

lemma if_eq_np [no_panic]: "a \<noteq> Panic \<Longrightarrow> b \<noteq> Panic \<Longrightarrow> (if (t :: u16) = c then a else b) \<noteq> Panic"
  by auto

lemma case_option_np [no_panic]:
  "a \<noteq> Panic \<Longrightarrow> (\<And>x. f x \<noteq> Panic) \<Longrightarrow> (case m of None \<Rightarrow> a | Some x \<Rightarrow> f x) \<noteq> Panic"
  by (cases m) auto

lemma case_res_np [no_panic]:
  "m \<noteq> Panic \<Longrightarrow> (\<And>x. f x \<noteq> Panic) \<Longrightarrow> (\<And>e. g e \<noteq> Panic) \<Longrightarrow>
   (case m of Ok x \<Rightarrow> f x | Err e \<Rightarrow> g e | Panic \<Rightarrow> h) \<noteq> Panic"
  by (cases m) auto

lemma if_np: "(c \<Longrightarrow> a \<noteq> Panic) \<Longrightarrow> (\<not> c \<Longrightarrow> b \<noteq> Panic) \<Longrightarrow> (if c then a else b) \<noteq> Panic"
  by auto

lemmas res_np [no_panic] = res.distinct

text \<open>Structural rules for ``if this expression returns a value, the value satisfies \<open>P\<close>''.\<close>

definition res_all :: "('a \<Rightarrow> bool) \<Rightarrow> ('e, 'a) res \<Rightarrow> bool" where
  "res_all P m \<longleftrightarrow> (\<forall>x. m = Ok x \<longrightarrow> P x)"

lemma res_all_simps [simp]: "res_all P (Ok x) = P x" "res_all P (Err e)" "res_all P Panic"
  by (simp_all add: res_all_def)

lemma res_all_bind:
  "(\<And>x. m = Ok x \<Longrightarrow> res_all P (f x)) \<Longrightarrow> res_all P (bind_res m f)"
  by (cases m) (auto simp: res_all_def)

lemma res_all_if:
  "(c \<Longrightarrow> res_all P a) \<Longrightarrow> (\<not> c \<Longrightarrow> res_all P b) \<Longrightarrow> res_all P (if c then a else b)"
  by auto

lemma res_all_case_option:
  "(m = None \<Longrightarrow> res_all P a) \<Longrightarrow> (\<And>x. m = Some x \<Longrightarrow> res_all P (f x)) \<Longrightarrow>
   res_all P (case m of None \<Rightarrow> a | Some x \<Rightarrow> f x)"
  by (cases m) auto

lemma res_all_case_res:
  "(\<And>x. m = Ok x \<Longrightarrow> res_all P (f x)) \<Longrightarrow> (\<And>e. m = Err e \<Longrightarrow> res_all P (g e)) \<Longrightarrow> res_all P h \<Longrightarrow>
   res_all P (case m of Ok x \<Rightarrow> f x | Err e \<Rightarrow> g e | Panic \<Rightarrow> h)"
  by (cases m) auto

lemmas res_all_intros = res_all_bind res_all_if res_all_case_option res_all_case_res

lemma bind_res_cong [fundef_cong]:
  "m = m' \<Longrightarrow> (\<And>x. m' = Ok x \<Longrightarrow> f x = g x) \<Longrightarrow> bind_res m f = bind_res m' g"
  by (cases m') auto

lemma bind_res_assoc: "bind_res (bind_res m f) g = bind_res m (\<lambda>x. bind_res (f x) g)"
  by (cases m) auto

lemma idx_Ok [wire]: "i < length xs \<Longrightarrow> idx xs i = Ok (xs ! i)"
  by (simp add: idx_def)

lemma slice_r_Ok [wire]: "a \<le> b \<Longrightarrow> b \<le> length xs \<Longrightarrow> slice_r xs a b = Ok (sliced xs a b)"
  by (simp add: slice_r_def)

lemma copy_into_Ok [wire]:
  "a \<le> b \<Longrightarrow> b \<le> length buf \<Longrightarrow> length src = b - a \<Longrightarrow> copy_into buf a b src = Ok (write_at buf a src)"
  by (simp add: copy_into_def)

lemma get_u16_Ok [wire]:
  "i + 1 < length buf \<Longrightarrow> get_u16 buf i = Ok (from_be_bytes [buf ! i, buf ! (i + 1)])"
  by (simp add: get_u16_def)

lemma get_u32_Ok [wire]:
  "i + 3 < length buf \<Longrightarrow>
   get_u32 buf i = Ok (from_be_bytes [buf ! i, buf ! (i + 1), buf ! (i + 2), buf ! (i + 3)])"
  by (simp add: get_u32_def)

lemma length_slice [simp]: "b \<le> length xs \<Longrightarrow> length (sliced xs a b) = b - a"
  by (auto simp: sliced_def)

lemma slice_append_left: "sliced (xs @ ys) (length xs) (length xs + n) = take n ys"
  by (simp add: sliced_def)

lemma slice_append_mid:
  "a = length pre \<Longrightarrow> b = length pre + length mid \<Longrightarrow> sliced (pre @ mid @ post) a b = mid"
  by (simp add: sliced_def)

lemma sliced_sliced:
  "b \<le> d - c \<Longrightarrow> sliced (sliced xs c d) a b = sliced xs (c + a) (c + b)"
  by (simp add: sliced_def drop_take add.commute min_def)

lemma length_write_at [simp]:
  "a + length src \<le> length buf \<Longrightarrow> length (write_at buf a src) = length buf"
  by (simp add: write_at_def)

lemma write_at_0: "write_at buf 0 src = src @ drop (length src) buf"
  by (simp add: write_at_def)

lemma write_at_append_left:
  "a = length pre \<Longrightarrow> length old = length src \<Longrightarrow> write_at (pre @ old @ post) a src = pre @ src @ post"
  by (simp add: write_at_def)

lemma write_at_prefix:
  "a = length pre \<Longrightarrow> write_at (pre @ rest) a src = pre @ src @ drop (length src) rest"
  by (simp add: write_at_def)

lemma find_map_Some: "find_map f xs = Some y \<Longrightarrow> \<exists>x \<in> set xs. f x = Some y"
  by (induction xs) (auto split: option.splits)

lemma find_map_append:
  "find_map f (xs @ ys) = (case find_map f xs of None \<Rightarrow> find_map f ys | Some y \<Rightarrow> Some y)"
  by (induction xs) (auto split: option.split)

lemma find_map_None: "find_map f xs = None \<longleftrightarrow> (\<forall>x \<in> set xs. f x = None)"
  by (induction xs) (auto split: option.split)

lemma write_at_run:
  "a = length pre \<Longrightarrow> length old = length src \<Longrightarrow> post = post' \<Longrightarrow>
   write_at (pre @ old @ post) a src = pre @ src @ post'"
  by (simp add: write_at_def)

lemma split_at: "n \<le> length xs \<Longrightarrow> \<exists>ys zs. xs = ys @ zs \<and> length ys = n"
  by (intro exI [of _ "take n xs"] exI [of _ "drop n xs"]) auto

lemma split_run:
  assumes "a + b + c + d \<le> length xs"
  shows "\<exists>A B C D E. xs = A @ B @ C @ D @ E \<and> length A = a \<and> length B = b \<and> length C = c
    \<and> length D = d"
proof -
  obtain A r1 where 1: "xs = A @ r1" "length A = a" using assms split_at [of a xs] by auto
  obtain B r2 where 2: "r1 = B @ r2" "length B = b" using assms 1 split_at [of b r1] by auto
  obtain C r3 where 3: "r2 = C @ r3" "length C = c" using assms 1 2 split_at [of c r2] by auto
  obtain D E where "r3 = D @ E" "length D = d" using assms 1 2 3 split_at [of d r3] by auto
  with 1 2 3 show ?thesis by blast
qed

lemma pad4_mult [simp]: "pad4 n mod 4 = 0" "4 dvd pad4 n"
  by (simp_all add: pad4_def)

lemma pad4_bounds: "n \<le> pad4 n" "pad4 n < n + 4"
  unfolding pad4_def by presburger+

lemma pad4_id: "4 dvd n \<Longrightarrow> pad4 n = n"
  unfolding pad4_def by presburger

lemma pad4_add_mult: "4 dvd m \<Longrightarrow> pad4 (m + n) = m + pad4 n"
  unfolding pad4_def by presburger

lemma pad4_least: "4 dvd m \<Longrightarrow> n \<le> m \<Longrightarrow> pad4 n \<le> m"
  unfolding pad4_def by presburger

subsection \<open>Big-endian round trips\<close>

lemma length_be_bytes [simp]: "length (be_bytes n w) = n"
  by (induction n) auto

lemma from_be_foldl:
  "foldl (\<lambda>acc b. push_bit 8 acc OR ucast b) (acc :: 'a::len word) bs =
   push_bit (8 * length bs) acc OR from_be_bytes bs"
proof (induction bs arbitrary: acc)
  case Nil
  then show ?case by (simp add: from_be_bytes_def)
next
  case (Cons b bs)
  have tail: "from_be_bytes (b # bs) = push_bit (8 * length bs) (ucast b) OR (from_be_bytes bs :: 'a word)"
    unfolding from_be_bytes_def foldl_Cons by (simp add: Cons.IH from_be_bytes_def [symmetric])
  show ?case
    by (simp add: Cons.IH tail or.assoc push_bit_or push_bit_push_bit algebra_simps)
qed

lemma from_be_bytes_Nil [simp]: "from_be_bytes [] = 0"
  by (simp add: from_be_bytes_def)

lemma from_be_bytes_Cons:
  "from_be_bytes (b # bs) = push_bit (8 * length bs) (ucast b) OR (from_be_bytes bs :: 'a::len word)"
  using from_be_foldl [of "ucast b" bs] by (simp add: from_be_bytes_def)

lemma from_be_be_bytes: "from_be_bytes (be_bytes n w) = take_bit (8 * n) (w :: 'a::len word)"
proof (induction n)
  case 0
  then show ?case by simp
next
  case (Suc n)
  show ?case
  proof (rule bit_word_eqI)
    fix i assume "i < LENGTH('a)"
    then show "bit (from_be_bytes (be_bytes (Suc n) w) :: 'a word) i = bit (take_bit (8 * Suc n) w) i"
      by (cases "i < 8 * n") (auto simp: from_be_bytes_Cons Suc.IH bit_simps)
  qed
qed

lemma from_be_be_bytes_full [be_simps]:
  "LENGTH('a) \<le> 8 * n \<Longrightarrow> from_be_bytes (be_bytes n w) = (w :: 'a::len word)"
  by (simp add: from_be_be_bytes take_bit_word_eq_self)

lemma bit_from_be_bytes_bound:
  "bit (from_be_bytes bs :: 'a::len word) i \<Longrightarrow> i < 8 * length bs"
proof (induction bs)
  case Nil
  then show ?case by simp
next
  case (Cons b bs)
  then show ?case
    by (auto simp: from_be_bytes_Cons bit_simps dest: bit_imp_le_length)
qed

lemma be_from_be_bytes [be_simps]:
  "8 * length bs \<le> LENGTH('a) \<Longrightarrow> be_bytes (length bs) (from_be_bytes bs :: 'a::len word) = bs"
proof (induction bs)
  case Nil
  then show ?case by simp
next
  case (Cons b bs)
  let ?w = "from_be_bytes bs :: 'a word"
  have hd: "ucast (drop_bit (8 * length bs) (push_bit (8 * length bs) (ucast b) OR ?w)) = b"
    using Cons.prems
    by (intro bit_word_eqI) (auto simp: bit_simps dest: bit_from_be_bytes_bound)
  have tl: "be_bytes n (push_bit (8 * length bs) (ucast b) OR ?w) = be_bytes n ?w"
    if "n \<le> length bs" for n
    using that
    by (induction n) (auto simp: bit_simps intro!: bit_word_eqI)
  show ?case
    using Cons.IH Cons.prems hd tl [of "length bs"] by (simp add: from_be_bytes_Cons)
qed

lemma be_bytes_inject:
  assumes "LENGTH('a) \<le> 8 * n"
  shows "be_bytes n (v :: 'a::len word) = be_bytes n w \<longleftrightarrow> v = w"
  using from_be_be_bytes_full [OF assms, of v] from_be_be_bytes_full [OF assms, of w] by metis

lemma be16_expand: "be16 w = [ucast (drop_bit 8 w), ucast w]"
  by (simp add: numeral_eq_Suc)

lemma be32_expand:
  "be32 w = [ucast (drop_bit 24 w), ucast (drop_bit 16 w), ucast (drop_bit 8 w), ucast w]"
  by (simp add: numeral_eq_Suc)

lemma from_be16_expand [be_simps]:
  "from_be_bytes [ucast (drop_bit 8 w), ucast w] = (w :: u16)"
  using from_be_be_bytes_full [of 2 w] by (simp add: be16_expand)

lemma from_be32_expand [be_simps]:
  "from_be_bytes [ucast (drop_bit 24 w), ucast (drop_bit 16 w), ucast (drop_bit 8 w), ucast w] = (w :: u32)"
  using from_be_be_bytes_full [of 4 w] by (simp add: be32_expand)

lemma slice2: "i + 1 < length xs \<Longrightarrow> sliced xs i (i + 2) = [xs ! i, xs ! (i + 1)]"
  by (simp add: sliced_def numeral_eq_Suc take_Suc_conv_app_nth)

lemma slice4:
  "i + 3 < length xs \<Longrightarrow> sliced xs i (i + 4) = [xs ! i, xs ! (i + 1), xs ! (i + 2), xs ! (i + 3)]"
  by (simp add: sliced_def numeral_eq_Suc take_Suc_conv_app_nth)

lemma get_u16_slice: "i + 1 < length buf \<Longrightarrow> get_u16 buf i = Ok (from_be_bytes (sliced buf i (i + 2)))"
  using slice2 [of i buf] by (simp add: get_u16_def)

lemma get_u32_slice: "i + 3 < length buf \<Longrightarrow> get_u32 buf i = Ok (from_be_bytes (sliced buf i (i + 4)))"
  using slice4 [of i buf] by (simp add: get_u32_def)

text \<open>Reading back a field that was written at a known offset.\<close>

lemma get_u16_app [be_simps]:
  "i = length pre \<Longrightarrow> get_u16 (pre @ be16 w @ post) i = Ok w"
  by (simp add: get_u16_slice slice_append_mid from_be_be_bytes_full)

lemma get_u32_app [be_simps]:
  "i = length pre \<Longrightarrow> get_u32 (pre @ be32 w @ post) i = Ok w"
  by (simp add: get_u32_slice slice_append_mid from_be_be_bytes_full)

lemma get_u16_app0 [be_simps]: "get_u16 (be16 w @ post) 0 = Ok w"
  using get_u16_app [of 0 "[]"] by simp

lemma get_u32_app0 [be_simps]: "get_u32 (be32 w @ post) 0 = Ok w"
  using get_u32_app [of 0 "[]"] by simp

section \<open>Invariants of step relations\<close>

text \<open>
  The interface between a component's operations, seen as steps, and its well-formedness
  predicate: what every step keeps holds in every reachable state.
\<close>

locale invariant_system =
  fixes init :: "'s \<Rightarrow> bool" and step :: "'s \<Rightarrow> 's \<Rightarrow> bool" and inv :: "'s \<Rightarrow> bool"
  assumes init_inv: "init s \<Longrightarrow> inv s"
    and step_inv: "inv s \<Longrightarrow> step s t \<Longrightarrow> inv t"
begin

lemma steps_inv: "step\<^sup>*\<^sup>* s t \<Longrightarrow> inv s \<Longrightarrow> inv t"
  by (induction rule: rtranclp_induct) (auto intro: step_inv)

lemma reachable_inv: "init s \<Longrightarrow> step\<^sup>*\<^sup>* s t \<Longrightarrow> inv t"
  by (blast intro: init_inv steps_inv)

end

text \<open>
  A specification a machine refines: the abstraction of every step is a step of the specification,
  so every run is a run of it.
\<close>

locale refinement = invariant_system init step inv
  for init :: "'s \<Rightarrow> bool" and step :: "'s \<Rightarrow> 's \<Rightarrow> bool" and inv :: "'s \<Rightarrow> bool" +
  fixes abs :: "'s \<Rightarrow> 'a" and ainit :: "'a \<Rightarrow> bool" and astep :: "'a \<Rightarrow> 'a \<Rightarrow> bool"
  assumes init_abs: "init s \<Longrightarrow> ainit (abs s)"
    and step_abs: "inv s \<Longrightarrow> inv t \<Longrightarrow> step s t \<Longrightarrow> astep (abs s) (abs t)"
begin

lemma steps_abs: "step\<^sup>*\<^sup>* s t \<Longrightarrow> inv s \<Longrightarrow> astep\<^sup>*\<^sup>* (abs s) (abs t)"
proof (induction rule: rtranclp_induct)
  case (step t u)
  have "inv t" "inv u" using steps_inv [OF step(1) step(4)] step_inv step(2) by blast+
  then show ?case using step step_abs by (blast intro: rtranclp.rtrancl_into_rtrancl)
qed simp

lemma reachable_abs: "init s \<Longrightarrow> step\<^sup>*\<^sup>* s t \<Longrightarrow> ainit (abs s) \<and> astep\<^sup>*\<^sup>* (abs s) (abs t)"
  by (blast intro: init_abs init_inv steps_abs)

end

end
