(* ===== verification/Net.thy ===== *)
theory Net
  imports Prelude
begin

text \<open>
  Transport addresses as \<^verbatim>\<open>std::net\<close> has them: an IPv4 or IPv6 address, and a socket address that
  adds a port (and, for IPv6, a flow label and a scope id, which \<^verbatim>\<open>SocketAddr::new\<close> sets to 0).
\<close>

type_synonym u128 = "128 word"

datatype ip_addr = IpV4 u32 | IpV6 u128

datatype socket_addr = SockV4 u32 u16 | SockV6 u128 u16 u32 u32

fun sock_ip :: "socket_addr \<Rightarrow> ip_addr" where
  "sock_ip (SockV4 a p) = IpV4 a"
| "sock_ip (SockV6 a p f s) = IpV6 a"

fun sock_port :: "socket_addr \<Rightarrow> u16" where
  "sock_port (SockV4 a p) = p"
| "sock_port (SockV6 a p f s) = p"

fun is_ipv6 :: "socket_addr \<Rightarrow> bool" where
  "is_ipv6 (SockV4 a p) = False"
| "is_ipv6 (SockV6 a p f s) = True"

fun SocketAddr_new :: "ip_addr \<Rightarrow> u16 \<Rightarrow> socket_addr" where
  "SocketAddr_new (IpV4 a) p = SockV4 a p"
| "SocketAddr_new (IpV6 a) p = SockV6 a p 0 0"

definition octets4 :: "u32 \<Rightarrow> bytes" where
  "octets4 a = be_bytes 4 a"

definition octets6 :: "u128 \<Rightarrow> bytes" where
  "octets6 a = be_bytes 16 a"

text \<open>The addresses a STUN attribute can carry: no flow label and no scope id.\<close>

fun plain_addr :: "socket_addr \<Rightarrow> bool" where
  "plain_addr (SockV4 a p) = True"
| "plain_addr (SockV6 a p f s) = (f = 0 \<and> s = 0)"

lemma plain_addr_new [simp]: "plain_addr (SocketAddr_new ip p)"
  by (cases ip) auto

lemma sock_new [simp]:
  "sock_ip (SocketAddr_new ip p) = ip" "sock_port (SocketAddr_new ip p) = p"
  by (cases ip; simp)+

lemma plain_addr_eta: "plain_addr a \<Longrightarrow> SocketAddr_new (sock_ip a) (sock_port a) = a"
  by (cases a) auto

lemma length_octets [simp]: "length (octets4 a) = 4" "length (octets6 b) = 16"
  by (simp_all add: octets4_def octets6_def)

lemma from_be_octets [simp]:
  "from_be_bytes (octets4 a) = a" "from_be_bytes (octets6 b) = b"
  by (simp_all add: octets4_def octets6_def from_be_be_bytes_full)

lemma octets_from_be:
  "length bs = 4 \<Longrightarrow> octets4 (from_be_bytes bs) = bs"
  "length bs = 16 \<Longrightarrow> octets6 (from_be_bytes bs) = bs"
  using be_from_be_bytes [where 'a = 32, of bs] be_from_be_bytes [where 'a = 128, of bs]
  by (simp_all add: octets4_def octets6_def)

end
