(* ===== verification/Session_Base.thy ===== *)
theory Session_Base
  imports Net "HOL-Library.Finite_Map"
begin

text \<open>
  Names shared by the session components (\<^verbatim>\<open>crates/session/src/lib.rs\<close>): the error type, the
  lifetimes and caps, and the clocks. A monotonic \<^verbatim>\<open>Instant\<close> is a number of nanoseconds and a
  wall-clock reading a \<open>u64\<close> number of milliseconds; every operation takes the readings it makes as
  arguments. \<^verbatim>\<open>HashMap\<close> and \<^verbatim>\<open>DashMap\<close> are finite maps; where the code iterates over one and the
  order shows, the order is an argument.
\<close>

type_synonym instant = nat
type_synonym usize = "64 word"

definition from_secs :: "nat \<Rightarrow> nat" where
  "from_secs s = s * 10 ^ 9"

definition PERMISSION_LIFETIME :: nat where [rust_const]: "PERMISSION_LIFETIME = from_secs 300"
definition CHANNEL_LIFETIME :: nat where [rust_const]: "CHANNEL_LIFETIME = from_secs 600"
definition RESERVATION_LIFETIME :: nat where [rust_const]: "RESERVATION_LIFETIME = from_secs 30"
definition MAX_PERMISSIONS_PER_ALLOCATION :: nat where
  [rust_const]: "MAX_PERMISSIONS_PER_ALLOCATION = 256"
definition MAX_CHANNELS_PER_ALLOCATION :: nat where
  [rust_const]: "MAX_CHANNELS_PER_ALLOCATION = 256"

datatype session_error =
    MaxAllocations
  | NotFound
  | NoPortsAvailable
  | PermissionDenied socket_addr
  | ChannelNotFound u16
  | BandwidthExceeded string
  | MaxAllocationsPerUser
  | MigrationTargetInUse
  | ChannelConflict
  | AllocationExists
  | LimitExceeded
  | CacheGenerationOverflow

type_synonym 'a session_res = "(session_error, 'a) res"

datatype relay_family = FamV4 | FamV6

definition RelayFamily_of :: "socket_addr \<Rightarrow> relay_family" where
  "RelayFamily_of addr = (if is_ipv6 addr then FamV6 else FamV4)"

definition is_v6 :: "relay_family \<Rightarrow> bool" where
  "is_v6 f = (case f of FamV6 \<Rightarrow> True | FamV4 \<Rightarrow> False)"

end
