(* ===== verification/Port_Allocator.thy ===== *)
theory Port_Allocator
  imports Session_Base
begin

text \<open>
  The relay port pool (\<^verbatim>\<open>PortAllocator\<close> of \<^verbatim>\<open>crates/session/src/lib.rs\<close>): a cursor that walks the
  range, the set of ports in use, and the ports held for a RESERVATION-TOKEN. Random draws (the
  starting cursor, a token) and the outcome of binding a socket are arguments. The search for a free
  port is a loop that ends only because the cursor stays inside the range, so it is a partial
  function and that it returns is a theorem.
\<close>

record reservation =
  rv_port :: u16
  rv_expires_at :: instant

record port_allocator =
  pa_min_port :: u16
  pa_max_port :: u16
  pa_next_port :: u16
  pa_used :: "u16 set"
  pa_reservations :: "(bytes, reservation) fmap"

definition random_start_port :: "u32 \<Rightarrow> u16 \<Rightarrow> u16 \<Rightarrow> u16" where
  "random_start_port rnd min_port max_port =
     (if max_port \<le> min_port then min_port
      else let span = (ucast (max_port - min_port) :: u32) + 1
           in min_port + ucast (rnd mod span))"

definition PortAllocator_new :: "u32 \<Rightarrow> u16 \<Rightarrow> u16 \<Rightarrow> port_allocator" where
  "PortAllocator_new rnd min_port max_port =
     \<lparr> pa_min_port = min_port, pa_max_port = max_port,
       pa_next_port = random_start_port rnd min_port max_port,
       pa_used = {}, pa_reservations = fmempty \<rparr>"

definition pa_contains :: "port_allocator \<Rightarrow> u16 \<Rightarrow> bool" where
  "pa_contains pa port \<longleftrightarrow> pa_min_port pa \<le> port \<and> port \<le> pa_max_port pa"

definition advance :: "u16 \<Rightarrow> u16 \<Rightarrow> u16 \<Rightarrow> u16" where
  "advance min_port max_port p = (if p \<ge> max_port then min_port else p + 1)"

partial_function (option) alloc_loop ::
  "u16 set \<Rightarrow> u16 \<Rightarrow> u16 \<Rightarrow> u16 \<Rightarrow> u16 \<Rightarrow> (u16 session_res \<times> u16) option" where
  "alloc_loop used min_port max_port start next =
     (if next \<notin> used then Some (Ok next, advance min_port max_port next)
      else if advance min_port max_port next = start then Some (Err NoPortsAvailable, start)
      else alloc_loop used min_port max_port start (advance min_port max_port next))"

text \<open>\<open>None\<close> stands for a search that never returns.\<close>

definition pa_allocate :: "port_allocator \<Rightarrow> (u16 session_res \<times> port_allocator) option" where
  "pa_allocate pa =
     map_option (\<lambda>(r, next).
         (r, pa\<lparr>pa_next_port := next,
               pa_used := (case r of Ok port \<Rightarrow> insert port (pa_used pa) | _ \<Rightarrow> pa_used pa)\<rparr>))
       (alloc_loop (pa_used pa) (pa_min_port pa) (pa_max_port pa) (pa_next_port pa) (pa_next_port pa))"

definition pa_release :: "port_allocator \<Rightarrow> u16 \<Rightarrow> port_allocator" where
  "pa_release pa port = pa\<lparr>pa_used := pa_used pa - {port}\<rparr>"

definition is_allocated :: "port_allocator \<Rightarrow> u16 \<Rightarrow> bool" where
  "is_allocated pa port \<longleftrightarrow> port \<in> pa_used pa"

definition in_use :: "port_allocator \<Rightarrow> nat" where
  "in_use pa = card (pa_used pa)"

definition capacity :: "port_allocator \<Rightarrow> nat" where
  "capacity pa = (unat (pa_max_port pa) - unat (pa_min_port pa)) + 1"

text \<open>
  \<open>bind i family port\<close> is the outcome of the \<open>i\<close>-th attempt to bind a relay socket. The loop makes
  at most 64 attempts; \<open>n\<close> counts those left.
\<close>

fun bind_loop ::
  "(nat \<Rightarrow> relay_family \<Rightarrow> u16 \<Rightarrow> bool) \<Rightarrow> relay_family \<Rightarrow> nat \<Rightarrow> port_allocator
   \<Rightarrow> (u16 option \<times> port_allocator) option" where
  "bind_loop bind family 0 pa = Some (None, pa)"
| "bind_loop bind family (Suc n) pa =
     (case pa_allocate pa of
        None \<Rightarrow> None
      | Some (Ok port, pa) \<Rightarrow>
          if bind n family port then Some (Some port, pa)
          else bind_loop bind family n (pa_release pa port)
      | Some (_, pa) \<Rightarrow> Some (None, pa))"

definition allocate_and_bind_family ::
  "(nat \<Rightarrow> relay_family \<Rightarrow> u16 \<Rightarrow> bool) \<Rightarrow> relay_family \<Rightarrow> port_allocator
   \<Rightarrow> (u16 option \<times> port_allocator) option" where
  "allocate_and_bind_family bind family pa = bind_loop bind family 64 pa"

definition allocate_and_bind ::
  "(nat \<Rightarrow> relay_family \<Rightarrow> u16 \<Rightarrow> bool) \<Rightarrow> port_allocator \<Rightarrow> (u16 option \<times> port_allocator) option" where
  "allocate_and_bind bind pa = allocate_and_bind_family bind FamV4 pa"

definition first_even :: "u16 \<Rightarrow> u16" where
  "first_even min_port =
     (if unat min_port mod 2 = 0 then min_port
      else if min_port = 0xFFFF then 0xFFFF else min_port + 1)"

function even_loop :: "u16 set \<Rightarrow> u16 \<Rightarrow> u16 \<Rightarrow> u16 option" where
  "even_loop used max_port p =
     (if \<not> p \<le> max_port then None
      else if p \<notin> used then Some p
      else if unat p + 2 < 65536 then even_loop used max_port (p + 2)
      else None)"
  by pat_completeness auto
termination
  by (relation "measure (\<lambda>(used, max_port, p). 65536 - unat p)")
     (auto simp: unat_word_ariths unat_of_nat)

definition allocate_even :: "port_allocator \<Rightarrow> u16 option \<times> port_allocator" where
  "allocate_even pa =
     (case even_loop (pa_used pa) (pa_max_port pa) (first_even (pa_min_port pa)) of
        None \<Rightarrow> (None, pa)
      | Some p \<Rightarrow> (Some p, pa\<lparr>pa_used := insert p (pa_used pa)\<rparr>))"

function pair_loop :: "u16 set \<Rightarrow> u16 \<Rightarrow> u16 \<Rightarrow> u16 option" where
  "pair_loop used max_port p =
     (if \<not> p < max_port then None
      else if p \<notin> used \<and> p + 1 \<notin> used then Some p
      else if unat p + 2 < 65536 then pair_loop used max_port (p + 2)
      else None)"
  by pat_completeness auto
termination
  by (relation "measure (\<lambda>(used, max_port, p). 65536 - unat p)")
     (auto simp: unat_word_ariths unat_of_nat)

declare even_loop.simps [simp del] pair_loop.simps [simp del]

definition allocate_even_with_reservation ::
  "bytes \<Rightarrow> instant \<Rightarrow> port_allocator \<Rightarrow> (u16 \<times> bytes) option \<times> port_allocator" where
  "allocate_even_with_reservation token now pa =
     (case pair_loop (pa_used pa) (pa_max_port pa) (first_even (pa_min_port pa)) of
        None \<Rightarrow> (None, pa)
      | Some p \<Rightarrow>
          (Some (p, token),
           pa\<lparr>pa_used := insert (p + 1) (insert p (pa_used pa)),
              pa_reservations := fmupd token
                \<lparr> rv_port = p + 1, rv_expires_at = now + RESERVATION_LIFETIME \<rparr>
                (pa_reservations pa)\<rparr>))"

definition live_reservation :: "instant \<Rightarrow> (bytes, reservation) fmap \<Rightarrow> bytes \<Rightarrow> bool" where
  "live_reservation now res t =
     (case fmlookup res t of None \<Rightarrow> False | Some r \<Rightarrow> \<not> rv_expires_at r \<le> now)"

definition sweep_expired_reservations :: "instant \<Rightarrow> port_allocator \<Rightarrow> nat \<times> port_allocator" where
  "sweep_expired_reservations now pa =
     (let res = pa_reservations pa;
          kept = fmfilter (live_reservation now res) res;
          dropped = fmfilter (\<lambda>t. \<not> live_reservation now res t) res
      in (fcard (fmdom res) - fcard (fmdom kept),
          pa\<lparr>pa_used := pa_used pa - rv_port ` fmran' dropped, pa_reservations := kept\<rparr>))"

definition claim_reservation :: "bytes \<Rightarrow> instant \<Rightarrow> port_allocator \<Rightarrow> u16 option \<times> port_allocator" where
  "claim_reservation token now pa =
     (let pa = snd (sweep_expired_reservations now pa)
      in (map_option rv_port (fmlookup (pa_reservations pa) token),
          pa\<lparr>pa_reservations := fmdrop token (pa_reservations pa)\<rparr>))"

definition cancel_reservation :: "bytes \<Rightarrow> port_allocator \<Rightarrow> port_allocator" where
  "cancel_reservation token pa =
     (case fmlookup (pa_reservations pa) token of
        None \<Rightarrow> pa
      | Some r \<Rightarrow> pa_release (pa\<lparr>pa_reservations := fmdrop token (pa_reservations pa)\<rparr>) (rv_port r))"

fun even_bind_loop ::
  "(nat \<Rightarrow> relay_family \<Rightarrow> u16 \<Rightarrow> bool) \<Rightarrow> (nat \<Rightarrow> bytes) \<Rightarrow> instant \<Rightarrow> bool \<Rightarrow> relay_family \<Rightarrow> nat
   \<Rightarrow> port_allocator \<Rightarrow> (u16 \<times> bytes option) option \<times> port_allocator" where
  "even_bind_loop bind rnd now reserve_next family 0 pa = (None, pa)"
| "even_bind_loop bind rnd now reserve_next family (Suc n) pa =
     (case (if reserve_next
            then (case allocate_even_with_reservation (rnd n) now pa of
                    (None, pa) \<Rightarrow> (None, pa) | (Some (e, t), pa) \<Rightarrow> (Some (e, Some t), pa))
            else (case allocate_even pa of
                    (None, pa) \<Rightarrow> (None, pa) | (Some e, pa) \<Rightarrow> (Some (e, None), pa))) of
        (None, pa) \<Rightarrow> (None, pa)
      | (Some (p, token), pa) \<Rightarrow>
          if bind n family p then (Some (p, token), pa)
          else even_bind_loop bind rnd now reserve_next family n
                 (let pa = pa_release pa p
                  in case token of None \<Rightarrow> pa | Some t \<Rightarrow> cancel_reservation t pa))"

definition allocate_even_and_bind_family ::
  "(nat \<Rightarrow> relay_family \<Rightarrow> u16 \<Rightarrow> bool) \<Rightarrow> (nat \<Rightarrow> bytes) \<Rightarrow> instant \<Rightarrow> bool \<Rightarrow> relay_family
   \<Rightarrow> port_allocator \<Rightarrow> (u16 \<times> bytes option) option \<times> port_allocator" where
  "allocate_even_and_bind_family bind rnd now reserve_next family pa =
     even_bind_loop bind rnd now reserve_next family 64 pa"

definition claim_and_bind_family ::
  "(relay_family \<Rightarrow> u16 \<Rightarrow> bool) \<Rightarrow> bytes \<Rightarrow> instant \<Rightarrow> relay_family \<Rightarrow> port_allocator
   \<Rightarrow> u16 option \<times> port_allocator" where
  "claim_and_bind_family bind token now family pa =
     (case claim_reservation token now pa of
        (None, pa) \<Rightarrow> (None, pa)
      | (Some port, pa) \<Rightarrow> if bind family port then (Some port, pa) else (None, pa_release pa port))"

definition allocate_even_and_bind ::
  "(nat \<Rightarrow> relay_family \<Rightarrow> u16 \<Rightarrow> bool) \<Rightarrow> (nat \<Rightarrow> bytes) \<Rightarrow> instant \<Rightarrow> bool
   \<Rightarrow> port_allocator \<Rightarrow> (u16 \<times> bytes option) option \<times> port_allocator" where
  "allocate_even_and_bind bind rnd now reserve_next pa =
     allocate_even_and_bind_family bind rnd now reserve_next FamV4 pa"

definition claim_and_bind ::
  "(relay_family \<Rightarrow> u16 \<Rightarrow> bool) \<Rightarrow> bytes \<Rightarrow> instant \<Rightarrow> port_allocator \<Rightarrow> u16 option \<times> port_allocator" where
  "claim_and_bind bind token now pa = claim_and_bind_family bind token now FamV4 pa"

definition pa_reserve :: "u16 \<Rightarrow> port_allocator \<Rightarrow> unit session_res \<times> port_allocator" where
  "pa_reserve port pa =
     (if port < pa_min_port pa \<or> port > pa_max_port pa then (Err NoPortsAvailable, pa)
      else if port \<in> pa_used pa then (Err NoPortsAvailable, pa)
      else (Ok (), pa\<lparr>pa_used := insert port (pa_used pa)\<rparr>))"

section \<open>Consistency\<close>

definition in_range :: "port_allocator \<Rightarrow> u16 set" where
  "in_range pa = {p. pa_contains pa p}"

definition reserved_ports :: "port_allocator \<Rightarrow> u16 set" where
  "reserved_ports pa = rv_port ` fmran' (pa_reservations pa)"

definition held_ports :: "port_allocator \<Rightarrow> u16 set" where
  "held_ports pa = pa_used pa - reserved_ports pa"

definition wf_ports :: "port_allocator \<Rightarrow> bool" where
  "wf_ports pa \<longleftrightarrow>
     pa_min_port pa \<le> pa_next_port pa \<and> pa_next_port pa \<le> pa_max_port pa
     \<and> pa_used pa \<subseteq> in_range pa
     \<and> reserved_ports pa \<subseteq> pa_used pa
     \<and> (\<forall>t r t' r'. fmlookup (pa_reservations pa) t = Some r \<longrightarrow>
          fmlookup (pa_reservations pa) t' = Some r' \<longrightarrow> rv_port r = rv_port r' \<longrightarrow> t = t')"

definition cyc :: "u16 \<Rightarrow> u16 \<Rightarrow> u16 \<Rightarrow> nat \<Rightarrow> u16" where
  "cyc mn mx s k = of_nat (unat mn + (unat s - unat mn + k) mod (unat mx - unat mn + 1))"

definition drop_token :: "bytes \<Rightarrow> port_allocator \<Rightarrow> port_allocator" where
  "drop_token token pa = pa\<lparr>pa_reservations := fmdrop token (pa_reservations pa)\<rparr>"

text \<open>
  The candidate of an EVEN-PORT request: the port the next attempt will try. A failed attempt
  restores the pool exactly, so every attempt tries this same port.
\<close>

definition even_candidate :: "bool \<Rightarrow> port_allocator \<Rightarrow> u16 option" where
  "even_candidate reserve_next pa =
     (if reserve_next then pair_loop (pa_used pa) (pa_max_port pa) (first_even (pa_min_port pa))
      else even_loop (pa_used pa) (pa_max_port pa) (first_even (pa_min_port pa)))"

definition port_init :: "port_allocator \<Rightarrow> bool" where
  "port_init pa \<longleftrightarrow> (\<exists>rnd mn mx. mn \<le> mx \<and> pa = PortAllocator_new rnd mn mx)"

inductive port_step :: "port_allocator \<Rightarrow> port_allocator \<Rightarrow> bool" where
  step_allocate: "pa_allocate pa = Some (r, pa') \<Longrightarrow> port_step pa pa'"
| step_bind: "allocate_and_bind_family bind family pa = Some (r, pa') \<Longrightarrow> port_step pa pa'"
| step_even: "\<forall>i < 64. rnd i |\<notin>| fmdom (pa_reservations pa) \<Longrightarrow>
    allocate_even_and_bind_family bind rnd now reserve_next family pa = (r, pa') \<Longrightarrow> port_step pa pa'"
| step_release: "p \<in> held_ports pa \<Longrightarrow> port_step pa (pa_release pa p)"
| step_sweep: "sweep_expired_reservations now pa = (n, pa') \<Longrightarrow> port_step pa pa'"
| step_claim: "claim_and_bind_family bind1 token now family pa = (r, pa') \<Longrightarrow> port_step pa pa'"
| step_cancel: "port_step pa (cancel_reservation token pa)"
| step_reserve: "pa_reserve p pa = (r, pa') \<Longrightarrow> port_step pa pa'"

section \<open>The search\<close>

lemma offset_bound: "(a :: nat) \<le> b \<Longrightarrow> a + i mod (b - a + 1) \<le> b"
  using mod_less_divisor [of "b - a + 1" i] by linarith

lemma unat_of_nat_small: "n < 65536 \<Longrightarrow> unat (of_nat n :: u16) = n"
  by (simp add: unat_of_nat take_bit_eq_mod)

lemma unat_cyc:
  assumes "mn \<le> mx"
  shows "unat (cyc mn mx s k) = unat mn + (unat s - unat mn + k) mod (unat mx - unat mn + 1)"
proof -
  have "unat mn + (unat s - unat mn + k) mod (unat mx - unat mn + 1) \<le> unat mx"
    using assms by (intro offset_bound) (simp add: word_le_nat_alt)
  also have "unat mx < 65536" using unsigned_less [of mx] by simp
  finally show ?thesis unfolding cyc_def by (rule unat_of_nat_small)
qed

lemma cyc_range: "mn \<le> mx \<Longrightarrow> mn \<le> cyc mn mx s k \<and> cyc mn mx s k \<le> mx"
  using offset_bound [of "unat mn" "unat mx" "unat s - unat mn + k"]
  by (simp add: word_le_nat_alt unat_cyc)

lemma cyc_0: "mn \<le> s \<Longrightarrow> s \<le> mx \<Longrightarrow> cyc mn mx s 0 = s"
  by (simp add: cyc_def word_le_nat_alt diff_le_mono less_Suc_eq_le)

lemma cyc_Suc:
  assumes "mn \<le> mx"
  shows "advance mn mx (cyc mn mx s k) = cyc mn mx s (Suc k)"
proof -
  let ?n = "unat mx - unat mn + 1" and ?i = "unat s - unat mn + k"
  have le: "unat mn \<le> unat mx" using assms by (simp add: word_le_nat_alt)
  have mx: "unat mx < 65536" using unsigned_less [of mx] by simp
  show ?thesis
  proof (cases "?i mod ?n = ?n - 1")
    case True
    then have "cyc mn mx s k = mx" using le by (simp add: word_unat_eq_iff unat_cyc assms)
    moreover have "Suc ?i mod ?n = 0" using True by (simp add: mod_Suc)
    ultimately have "cyc mn mx s (Suc k) = mn" using assms by (simp add: word_unat_eq_iff unat_cyc)
    with \<open>cyc mn mx s k = mx\<close> show ?thesis by (simp add: advance_def)
  next
    case False
    then have lt: "?i mod ?n < ?n - 1" using mod_less_divisor [of ?n ?i] by linarith
    then have u: "unat (cyc mn mx s k) < unat mx" using le by (simp add: unat_cyc assms)
    then have "unat (cyc mn mx s k + 1) = Suc (unat (cyc mn mx s k))"
      using mx by (simp add: unat_word_ariths)
    moreover have "Suc ?i mod ?n = Suc (?i mod ?n)" using lt by (simp add: mod_Suc)
    ultimately show ?thesis
      using u assms by (simp add: advance_def word_le_nat_alt word_unat_eq_iff unat_cyc)
  qed
qed

lemma cyc_hits:
  assumes "mn \<le> p" "p \<le> mx" "mn \<le> s" "s \<le> mx"
  shows "\<exists>k < unat mx - unat mn + 1. cyc mn mx s k = p"
proof -
  let ?n = "unat mx - unat mn + 1" and ?s = "unat s - unat mn" and ?p = "unat p - unat mn"
  have b: "?s < ?n" "?p < ?n" using assms by (auto simp: word_le_nat_alt)
  have "(?s + (?p + ?n - ?s) mod ?n) mod ?n = (?p + ?n) mod ?n"
    using b by (simp add: mod_simps)
  also have "\<dots> = ?p" using b(2) by (subst mod_add_self2) (rule mod_less)
  finally have "(?s + (?p + ?n - ?s) mod ?n) mod ?n = ?p" .
  then have "unat (cyc mn mx s ((?p + ?n - ?s) mod ?n)) = unat p"
    using assms by (subst unat_cyc) (auto simp: word_le_nat_alt)
  then show ?thesis
    by (intro exI [of _ "(?p + ?n - ?s) mod ?n"]) (simp add: word_unat_eq_iff)
qed

lemma cyc_ne:
  assumes "mn \<le> s" "s \<le> mx" and "0 < k" "k < unat mx - unat mn + 1"
  shows "cyc mn mx s k \<noteq> s"
proof -
  let ?n = "unat mx - unat mn + 1" and ?a = "unat s - unat mn"
  have a: "?a < ?n" using assms(1,2) by (auto simp: word_le_nat_alt)
  have "(?a + k) mod ?n \<noteq> ?a"
  proof (cases "?a + k < ?n")
    case False
    then have "(?a + k) mod ?n = ?a + k - ?n"
      using a assms(4) by (metis add_less_mono le_mod_geq linorder_not_less mod_less less_diff_conv2)
    with False assms(4) show ?thesis by linarith
  qed (use assms(3) in simp)
  then have "unat (cyc mn mx s k) \<noteq> unat s"
    using assms by (subst unat_cyc) (auto simp: word_le_nat_alt)
  then show ?thesis by auto
qed

lemma alloc_loop_run:
  assumes "mn \<le> s" "s \<le> mx" and "k < unat mx - unat mn + 1"
  shows "\<exists>r nx. alloc_loop used mn mx s (cyc mn mx s k) = Some (r, nx) \<and>
     (case r of
        Ok p \<Rightarrow> p \<notin> used \<and> mn \<le> p \<and> p \<le> mx \<and> nx = advance mn mx p
      | Err e \<Rightarrow> e = NoPortsAvailable \<and> nx = s
          \<and> (\<forall>j. k \<le> j \<and> j < unat mx - unat mn + 1 \<longrightarrow> cyc mn mx s j \<in> used)
      | Panic \<Rightarrow> False)"
  using assms(3)
proof (induction "unat mx - unat mn + 1 - k" arbitrary: k)
  case 0
  then show ?case by simp
next
  case (Suc d)
  let ?n = "unat mx - unat mn + 1" and ?p = "cyc mn mx s k"
  have mm: "mn \<le> mx" using assms by order
  show ?case
  proof (cases "?p \<in> used")
    case False
    then show ?thesis using cyc_range [OF mm] by (subst alloc_loop.simps) simp
  next
    case used: True
    have adv: "advance mn mx ?p = cyc mn mx s (Suc k)" by (rule cyc_Suc [OF mm])
    have wrap: "cyc mn mx s (Suc k) = s" if "Suc k = ?n"
    proof -
      have "cyc mn mx s ?n = cyc mn mx s 0" unfolding cyc_def by (simp only: mod_add_self2 add_0_right)
      then show ?thesis using that cyc_0 [OF assms(1,2)] by simp
    qed
    show ?thesis
    proof (cases "Suc k < ?n")
      case True
      then have ne: "cyc mn mx s (Suc k) \<noteq> s" by (intro cyc_ne assms) simp_all
      have "d = ?n - Suc k" using Suc.hyps(2) by linarith
      from Suc.hyps(1) [OF this True] obtain r nx where
        ih: "alloc_loop used mn mx s (cyc mn mx s (Suc k)) = Some (r, nx)"
        "case r of Ok p \<Rightarrow> p \<notin> used \<and> mn \<le> p \<and> p \<le> mx \<and> nx = advance mn mx p
          | Err e \<Rightarrow> e = NoPortsAvailable \<and> nx = s
              \<and> (\<forall>j. Suc k \<le> j \<and> j < ?n \<longrightarrow> cyc mn mx s j \<in> used)
          | Panic \<Rightarrow> False"
        by blast
      have "alloc_loop used mn mx s ?p = Some (r, nx)"
        using used adv ne ih(1) by (subst alloc_loop.simps) simp
      moreover have "j = k \<or> Suc k \<le> j" if "k \<le> j" for j using that by linarith
      ultimately show ?thesis using ih(2) used by (auto split: res.splits)
    next
      case False
      with Suc.prems have "Suc k = ?n" by linarith
      with used wrap adv show ?thesis
        by (subst alloc_loop.simps) (auto simp: less_Suc_eq_le dest: le_antisym)
    qed
  qed
qed

lemma reserved_ports_iff:
  "p \<in> reserved_ports pa \<longleftrightarrow> (\<exists>t r. fmlookup (pa_reservations pa) t = Some r \<and> rv_port r = p)"
  by (force simp: reserved_ports_def intro: fmran'I elim: fmran'E)

lemma reserved_ports_simps [simp]:
  "reserved_ports (pa\<lparr>pa_used := u\<rparr>) = reserved_ports pa"
  "reserved_ports (pa\<lparr>pa_next_port := n\<rparr>) = reserved_ports pa"
  by (simp_all add: reserved_ports_def)

lemma in_range_simps [simp]:
  "in_range (pa\<lparr>pa_used := u\<rparr>) = in_range pa" "in_range (pa\<lparr>pa_next_port := n\<rparr>) = in_range pa"
  "in_range (pa\<lparr>pa_reservations := r\<rparr>) = in_range pa"
  by (simp_all add: in_range_def pa_contains_def)

lemma wf_ports_use:
  "wf_ports pa \<Longrightarrow> u \<subseteq> in_range pa \<Longrightarrow> reserved_ports pa \<subseteq> u \<Longrightarrow> wf_ports (pa\<lparr>pa_used := u\<rparr>)"
  by (auto simp: wf_ports_def)

lemma advance_range:
  assumes "mn \<le> mx" "mn \<le> p"
  shows "mn \<le> advance mn mx p \<and> advance mn mx p \<le> mx"
proof (cases "mx \<le> p")
  case False
  then have "unat p < unat mx" by (simp add: word_le_nat_alt)
  moreover have "unat mx < 65536" using unsigned_less [of mx] by simp
  ultimately have "unat (p + 1) = Suc (unat p)" by (simp add: unat_word_ariths)
  with \<open>unat p < unat mx\<close> False assms show ?thesis by (simp add: advance_def word_le_nat_alt)
qed (use assms in \<open>simp add: advance_def\<close>)

lemma allocate_spec:
  assumes wf: "wf_ports pa"
  shows "\<exists>r pa'. pa_allocate pa = Some (r, pa') \<and> wf_ports pa' \<and>
    (case r of
       Ok p \<Rightarrow> p \<notin> pa_used pa \<and> p \<in> in_range pa
           \<and> (\<exists>nx. pa' = pa\<lparr>pa_next_port := nx, pa_used := insert p (pa_used pa)\<rparr>)
     | Err e \<Rightarrow> e = NoPortsAvailable \<and> pa_used pa = in_range pa \<and> pa' = pa
     | Panic \<Rightarrow> False)"
proof -
  let ?mn = "pa_min_port pa" and ?mx = "pa_max_port pa" and ?s = "pa_next_port pa"
  have b: "?mn \<le> ?s" "?s \<le> ?mx" using wf by (simp_all add: wf_ports_def)
  then have mm: "?mn \<le> ?mx" by order
  obtain r nx where run: "alloc_loop (pa_used pa) ?mn ?mx ?s ?s = Some (r, nx)"
    and r: "case r of Ok p \<Rightarrow> p \<notin> pa_used pa \<and> ?mn \<le> p \<and> p \<le> ?mx \<and> nx = advance ?mn ?mx p
      | Err e \<Rightarrow> e = NoPortsAvailable \<and> nx = ?s
          \<and> (\<forall>j. 0 \<le> j \<and> j < unat ?mx - unat ?mn + 1 \<longrightarrow> cyc ?mn ?mx ?s j \<in> pa_used pa)
      | Panic \<Rightarrow> False"
    using alloc_loop_run [OF b, of 0 "pa_used pa"] cyc_0 [OF b] by auto
  show ?thesis
  proof (cases r)
    case (Ok p)
    then have p: "p \<notin> pa_used pa" "p \<in> in_range pa" "nx = advance ?mn ?mx p"
      using r by (auto simp: in_range_def pa_contains_def)
    then have "?mn \<le> nx \<and> nx \<le> ?mx" using advance_range [OF mm, of p] by (simp add: in_range_def pa_contains_def)
    then have "wf_ports (pa\<lparr>pa_next_port := nx, pa_used := insert p (pa_used pa)\<rparr>)"
      using wf p by (auto simp: wf_ports_def)
    then show ?thesis using run Ok p by (auto simp: pa_allocate_def)
  next
    case (Err e)
    have "in_range pa \<subseteq> pa_used pa"
    proof
      fix p assume "p \<in> in_range pa"
      then obtain k where "k < unat ?mx - unat ?mn + 1" "cyc ?mn ?mx ?s k = p"
        using cyc_hits [OF _ _ b, of p] by (auto simp: in_range_def pa_contains_def)
      then show "p \<in> pa_used pa" using r Err by auto
    qed
    then show ?thesis using run r Err wf by (auto simp: pa_allocate_def wf_ports_def)
  next
    case Panic
    then show ?thesis using r by simp
  qed
qed

lemma same_next [simp]: "\<exists>nx. pa = pa\<lparr>pa_next_port := nx\<rparr>"
  by (rule exI [of _ "pa_next_port pa"]) simp

lemma bind_loop_spec:
  assumes "wf_ports pa"
  shows "\<exists>r pa'. bind_loop bind family n pa = Some (r, pa') \<and> wf_ports pa' \<and>
    (case r of
       Some p \<Rightarrow> p \<notin> pa_used pa \<and> p \<in> in_range pa \<and> (\<exists>i < n. bind i family p)
          \<and> (\<exists>nx. pa' = pa\<lparr>pa_next_port := nx, pa_used := insert p (pa_used pa)\<rparr>)
     | None \<Rightarrow> (\<exists>nx. pa' = pa\<lparr>pa_next_port := nx\<rparr>))"
  using assms
proof (induction n arbitrary: pa)
  case (Suc n)
  obtain r pa1 where a: "pa_allocate pa = Some (r, pa1)" "wf_ports pa1"
    and r: "case r of
       Ok p \<Rightarrow> p \<notin> pa_used pa \<and> p \<in> in_range pa
           \<and> (\<exists>nx. pa1 = pa\<lparr>pa_next_port := nx, pa_used := insert p (pa_used pa)\<rparr>)
     | Err e \<Rightarrow> e = NoPortsAvailable \<and> pa_used pa = in_range pa \<and> pa1 = pa
     | Panic \<Rightarrow> False"
    using allocate_spec [OF Suc.prems] by blast
  show ?case
  proof (cases r)
    case (Ok p)
    show ?thesis
    proof (cases "bind n family p")
      case True
      then show ?thesis using a r Ok by auto
    next
      case False
      let ?pa2 = "pa_release pa1 p"
      obtain nx where p: "p \<notin> pa_used pa"
        "pa1 = pa\<lparr>pa_next_port := nx, pa_used := insert p (pa_used pa)\<rparr>"
        using r Ok by auto
      then have pa2: "?pa2 = pa\<lparr>pa_next_port := nx\<rparr>" by (simp add: pa_release_def)
      have "wf_ports ?pa2"
        using a(2) Suc.prems p(2) unfolding pa2 by (auto simp: wf_ports_def)
      from Suc.IH [OF this] obtain r2 pa3 where "bind_loop bind family n ?pa2 = Some (r2, pa3)"
        "wf_ports pa3"
        "case r2 of
           Some p \<Rightarrow> p \<notin> pa_used ?pa2 \<and> p \<in> in_range ?pa2 \<and> (\<exists>i < n. bind i family p)
              \<and> (\<exists>nx. pa3 = ?pa2\<lparr>pa_next_port := nx, pa_used := insert p (pa_used ?pa2)\<rparr>)
         | None \<Rightarrow> (\<exists>nx. pa3 = ?pa2\<lparr>pa_next_port := nx\<rparr>)"
        by blast
      then show ?thesis
        using a(1) Ok False
        by (intro exI [of _ r2] exI [of _ pa3]) (auto simp: pa2 split: option.splits intro: less_SucI)
    qed
  qed (use a r in auto)
qed simp

section \<open>Even ports\<close>

lemma unat_plus_2: "unat (p :: u16) + 2 < 65536 \<Longrightarrow> unat (p + 2) = unat p + 2"
  by (simp add: unat_word_ariths)

lemma parity_step: "(a :: nat) \<le> b \<Longrightarrow> b mod 2 = a mod 2 \<Longrightarrow> b = a \<or> a + 2 \<le> b"
  by presburger

lemma next_same_parity:
  assumes "p \<le> q" and "unat q mod 2 = unat p mod 2"
  shows "q = p \<or> (unat p + 2 < 65536 \<and> p + 2 \<le> (q :: u16))"
proof -
  have q: "unat q < 65536" using unsigned_less [of q] by simp
  from parity_step [OF assms(1) [unfolded word_le_nat_alt] assms(2)] show ?thesis
  proof
    assume "unat p + 2 \<le> unat q"
    moreover from this q have "unat p + 2 < 65536" by linarith
    ultimately show ?thesis by (simp add: word_le_nat_alt unat_plus_2)
  qed (simp add: word_unat_eq_iff)
qed

lemma even_loop_spec:
  "case even_loop used mx p of
     Some q \<Rightarrow> q \<notin> used \<and> p \<le> q \<and> q \<le> mx \<and> unat q mod 2 = unat p mod 2
       \<and> (\<forall>q'. p \<le> q' \<and> q' < q \<and> unat q' mod 2 = unat p mod 2 \<longrightarrow> q' \<in> used)
   | None \<Rightarrow> \<forall>q'. p \<le> q' \<and> q' \<le> mx \<and> unat q' mod 2 = unat p mod 2 \<longrightarrow> q' \<in> used"
proof (induction used mx p rule: even_loop.induct)
  case (1 used mx p)
  show ?case
  proof (cases "p \<le> mx \<and> p \<in> used")
    case False
    then show ?thesis by (subst even_loop.simps) auto
  next
    case True
    show ?thesis
    proof (cases "unat p + 2 < 65536")
      case lt: True
      have u: "unat (p + 2) mod 2 = unat p mod 2" "p \<le> p + 2"
        using lt by (simp_all add: unat_plus_2 word_le_nat_alt)
      have eq: "even_loop used mx p = even_loop used mx (p + 2)"
        using True lt by (subst even_loop.simps) simp
      have ih: "case even_loop used mx (p + 2) of
         Some q \<Rightarrow> q \<notin> used \<and> p + 2 \<le> q \<and> q \<le> mx \<and> unat q mod 2 = unat p mod 2
           \<and> (\<forall>q'. p + 2 \<le> q' \<and> q' < q \<and> unat q' mod 2 = unat p mod 2 \<longrightarrow> q' \<in> used)
       | None \<Rightarrow> \<forall>q'. p + 2 \<le> q' \<and> q' \<le> mx \<and> unat q' mod 2 = unat p mod 2 \<longrightarrow> q' \<in> used"
        using 1 True lt unfolding u(1) by blast
      show ?thesis
      proof (cases "even_loop used mx (p + 2)")
        case None
        then show ?thesis using ih next_same_parity [of p] True unfolding eq by auto
      next
        case (Some q)
        then have "p \<le> q" using ih u(2) by auto
        with Some show ?thesis using ih next_same_parity [of p] True unfolding eq by auto
      qed
    next
      case False
      then have "even_loop used mx p = None" using True by (subst even_loop.simps) simp
      moreover have "q' = p" if "p \<le> q'" "unat q' mod 2 = unat p mod 2" for q'
        using next_same_parity [OF that] False by blast
      ultimately show ?thesis using True by auto
    qed
  qed
qed

lemma pair_loop_spec:
  "case pair_loop used mx p of
     Some q \<Rightarrow> q \<notin> used \<and> q + 1 \<notin> used \<and> p \<le> q \<and> q < mx \<and> unat q mod 2 = unat p mod 2
   | None \<Rightarrow> \<forall>q'. p \<le> q' \<and> q' < mx \<and> unat q' mod 2 = unat p mod 2 \<longrightarrow> q' \<in> used \<or> q' + 1 \<in> used"
proof (induction used mx p rule: pair_loop.induct)
  case (1 used mx p)
  show ?case
  proof (cases "p < mx \<and> (p \<in> used \<or> p + 1 \<in> used)")
    case False
    then show ?thesis by (subst pair_loop.simps) auto
  next
    case True
    show ?thesis
    proof (cases "unat p + 2 < 65536")
      case lt: True
      have u: "unat (p + 2) mod 2 = unat p mod 2" "p \<le> p + 2"
        using lt by (simp_all add: unat_plus_2 word_le_nat_alt)
      have eq: "pair_loop used mx p = pair_loop used mx (p + 2)"
        using True lt by (subst pair_loop.simps) auto
      have ih: "case pair_loop used mx (p + 2) of
         Some q \<Rightarrow> q \<notin> used \<and> q + 1 \<notin> used \<and> p + 2 \<le> q \<and> q < mx \<and> unat q mod 2 = unat p mod 2
       | None \<Rightarrow> \<forall>q'. p + 2 \<le> q' \<and> q' < mx \<and> unat q' mod 2 = unat p mod 2 \<longrightarrow> q' \<in> used \<or> q' + 1 \<in> used"
        using 1 True lt unfolding u(1) by blast
      show ?thesis
      proof (cases "pair_loop used mx (p + 2)")
        case None
        then show ?thesis using ih next_same_parity [of p] True unfolding eq by auto
      next
        case (Some q)
        then have "p \<le> q" using ih u(2) by auto
        with Some show ?thesis using ih unfolding eq by auto
      qed
    next
      case False
      then have "pair_loop used mx p = None" using True by (subst pair_loop.simps) auto
      moreover have "q' = p" if "p \<le> q'" "unat q' mod 2 = unat p mod 2" for q'
        using next_same_parity [OF that] False by blast
      ultimately show ?thesis using True by auto
    qed
  qed
qed

lemma first_even_spec:
  "mn \<le> first_even mn" "mn \<noteq> 0xFFFF \<Longrightarrow> unat (first_even mn) mod 2 = 0"
  "mn \<noteq> 0xFFFF \<Longrightarrow> mn \<le> q \<Longrightarrow> unat q mod 2 = 0 \<Longrightarrow> first_even mn \<le> q"
proof -
  have s: "unat (mn + 1) = Suc (unat mn)" if "mn \<noteq> 0xFFFF"
  proof -
    have "unat mn \<noteq> 65535" using that by (simp add: word_unat_eq_iff)
    moreover have "unat mn < 65536" using unsigned_less [of mn] by simp
    ultimately show ?thesis by (simp add: unat_word_ariths)
  qed
  show "mn \<le> first_even mn"
    using s by (auto simp: first_even_def word_le_nat_alt)
  show "unat (first_even mn) mod 2 = 0" if "mn \<noteq> 0xFFFF"
    using that s by (auto simp: first_even_def mod_Suc)
  show "first_even mn \<le> q" if "mn \<noteq> 0xFFFF" "mn \<le> q" "unat q mod 2 = 0"
  proof (cases "unat mn mod 2 = 0")
    case False
    with that have "unat mn \<noteq> unat q" by auto
    with that s False show ?thesis by (simp add: first_even_def word_le_nat_alt)
  qed (use that in \<open>simp add: first_even_def\<close>)
qed

lemma allocate_even_spec:
  assumes "wf_ports pa"
  shows "case allocate_even pa of
     (Some p, pa') \<Rightarrow> p \<notin> pa_used pa \<and> p \<in> in_range pa \<and> wf_ports pa'
        \<and> pa' = pa\<lparr>pa_used := insert p (pa_used pa)\<rparr>
        \<and> (pa_min_port pa \<noteq> 0xFFFF \<longrightarrow> unat p mod 2 = 0
             \<and> (\<forall>q \<in> in_range pa. unat q mod 2 = 0 \<and> q < p \<longrightarrow> q \<in> pa_used pa))
   | (None, pa') \<Rightarrow> pa' = pa
        \<and> (pa_min_port pa \<noteq> 0xFFFF \<longrightarrow> (\<forall>q \<in> in_range pa. unat q mod 2 = 0 \<longrightarrow> q \<in> pa_used pa))"
proof -
  let ?p = "first_even (pa_min_port pa)"
  note spec = even_loop_spec [where used = "pa_used pa" and mx = "pa_max_port pa" and p = ?p]
  show ?thesis
  proof (cases "even_loop (pa_used pa) (pa_max_port pa) ?p")
    case None
    then show ?thesis
      using spec first_even_spec [of "pa_min_port pa"]
      by (auto simp: allocate_even_def in_range_def pa_contains_def)
  next
    case (Some p)
    with spec first_even_spec(1) [of "pa_min_port pa"] have p: "p \<notin> pa_used pa" "p \<in> in_range pa"
      by (auto simp: in_range_def pa_contains_def)
    moreover have "wf_ports (pa\<lparr>pa_used := insert p (pa_used pa)\<rparr>)"
      using assms p by (intro wf_ports_use) (auto simp: wf_ports_def)
    ultimately show ?thesis
      using Some spec first_even_spec [of "pa_min_port pa"]
      by (auto simp: allocate_even_def in_range_def pa_contains_def)
  qed
qed

section \<open>Reservations\<close>

lemma release_wf: "wf_ports pa \<Longrightarrow> p \<notin> reserved_ports pa \<Longrightarrow> wf_ports (pa_release pa p)"
  unfolding pa_release_def by (intro wf_ports_use) (auto simp: wf_ports_def)

lemma even_reservation_spec:
  assumes wf: "wf_ports pa" and fresh: "token |\<notin>| fmdom (pa_reservations pa)"
  shows "case allocate_even_with_reservation token now pa of
     (Some (p, t), pa') \<Rightarrow> t = token \<and> p \<notin> pa_used pa \<and> p + 1 \<notin> pa_used pa \<and> p \<noteq> p + 1
        \<and> p \<in> in_range pa \<and> p + 1 \<in> in_range pa \<and> wf_ports pa'
        \<and> pa_used pa' = insert (p + 1) (insert p (pa_used pa))
        \<and> reserved_ports pa' = insert (p + 1) (reserved_ports pa)
        \<and> fmlookup (pa_reservations pa') token =
            Some \<lparr> rv_port = p + 1, rv_expires_at = now + RESERVATION_LIFETIME \<rparr>
        \<and> (pa_min_port pa \<noteq> 0xFFFF \<longrightarrow> unat p mod 2 = 0)
   | (None, pa') \<Rightarrow> pa' = pa"
proof (cases "pair_loop (pa_used pa) (pa_max_port pa) (first_even (pa_min_port pa))")
  case None
  then show ?thesis by (simp add: allocate_even_with_reservation_def)
next
  case (Some p)
  let ?pa' = "snd (allocate_even_with_reservation token now pa)"
  from Some pair_loop_spec [where used = "pa_used pa" and mx = "pa_max_port pa"
      and p = "first_even (pa_min_port pa)"]
  have p: "p \<notin> pa_used pa" "p + 1 \<notin> pa_used pa" "first_even (pa_min_port pa) \<le> p"
    "p < pa_max_port pa" "unat p mod 2 = unat (first_even (pa_min_port pa)) mod 2"
    by auto
  have "unat (pa_max_port pa) < 65536" using unsigned_less [of "pa_max_port pa"] by simp
  then have u: "unat (p + 1) = Suc (unat p)" using p(4) by (simp add: unat_word_ariths word_less_nat_alt)
  have le: "pa_min_port pa \<le> p" using p(3) first_even_spec(1) [of "pa_min_port pa"] by order
  then have r: "p \<in> in_range pa" "p + 1 \<in> in_range pa"
    using p(4) u by (auto simp: in_range_def pa_contains_def word_le_nat_alt word_less_nat_alt)
  have none: "fmlookup (pa_reservations pa) token = None" using fresh by (simp add: fmdom_notD)
  have res: "reserved_ports ?pa' = insert (p + 1) (reserved_ports pa)"
  proof (rule set_eqI)
    fix q
    have "q \<in> reserved_ports ?pa' \<longleftrightarrow>
        (\<exists>t r. (if t = token then Some \<lparr>rv_port = p + 1, rv_expires_at = now + RESERVATION_LIFETIME\<rparr>
                else fmlookup (pa_reservations pa) t) = Some r \<and> rv_port r = q)"
      using Some by (simp add: reserved_ports_iff allocate_even_with_reservation_def eq_commute [of token])
    also have "\<dots> \<longleftrightarrow> q = p + 1 \<or> (\<exists>t r. fmlookup (pa_reservations pa) t = Some r \<and> rv_port r = q)"
      using none by (metis (no_types, lifting) option.distinct(1) option.inject reservation.select_convs(1))
    finally show "q \<in> reserved_ports ?pa' \<longleftrightarrow> q \<in> insert (p + 1) (reserved_ports pa)"
      by (simp add: reserved_ports_iff)
  qed
  have ne: "rv_port r \<noteq> p + 1" if "fmlookup (pa_reservations pa) t = Some r" for t r
  proof -
    have "p + 1 \<notin> reserved_ports pa" using p(2) wf by (auto simp: wf_ports_def)
    with that show ?thesis unfolding reserved_ports_iff by blast
  qed
  have inj: "t = t'" if "fmlookup (pa_reservations ?pa') t = Some v"
    "fmlookup (pa_reservations ?pa') t' = Some v'" "rv_port v = rv_port v'" for t v t' v'
  proof (cases "t = token \<or> t' = token")
    case True
    then show ?thesis using that ne [of t v] ne [of t' v'] Some
      by (auto simp: allocate_even_with_reservation_def split: if_splits)
  next
    case False
    then show ?thesis using that wf Some unfolding wf_ports_def
      by (auto simp: allocate_even_with_reservation_def)
  qed
  have "wf_ports ?pa'"
    unfolding wf_ports_def res
  proof (intro conjI allI impI)
    show "t = t'" if "fmlookup (pa_reservations ?pa') t = Some v"
      "fmlookup (pa_reservations ?pa') t' = Some v'" "rv_port v = rv_port v'" for t v t' v'
      using that by (rule inj)
  qed (use wf r Some in \<open>auto simp: wf_ports_def allocate_even_with_reservation_def in_range_def
         pa_contains_def\<close>)
  then show ?thesis
    using Some p r res u first_even_spec(2) [of "pa_min_port pa"]
    by (simp add: allocate_even_with_reservation_def word_unat_eq_iff)
qed

lemma sweep_spec:
  assumes wf: "wf_ports pa" and s: "sweep_expired_reservations now pa = (n, pa')"
  shows "wf_ports pa'" "held_ports pa' = held_ports pa" "in_range pa' = in_range pa"
    "pa_used pa' = held_ports pa \<union> reserved_ports pa'"
    "fmlookup (pa_reservations pa') t = Some r \<longleftrightarrow>
       fmlookup (pa_reservations pa) t = Some r \<and> now < rv_expires_at r"
    "n + fcard (fmdom (pa_reservations pa')) = fcard (fmdom (pa_reservations pa))"
proof -
  let ?res = "pa_reservations pa"
  have pa': "pa' = pa\<lparr>pa_used := pa_used pa - rv_port ` fmran' (fmfilter (\<lambda>t. \<not> live_reservation now ?res t) ?res),
     pa_reservations := fmfilter (live_reservation now ?res) ?res\<rparr>"
    and n: "n = fcard (fmdom ?res) - fcard (fmdom (fmfilter (live_reservation now ?res) ?res))"
    using s by (auto simp: sweep_expired_reservations_def Let_def)
  show look: "fmlookup (pa_reservations pa') t = Some r \<longleftrightarrow> fmlookup ?res t = Some r \<and> now < rv_expires_at r" for t r
    by (auto simp: pa' live_reservation_def)
  have drop: "p \<in> rv_port ` fmran' (fmfilter (\<lambda>t. \<not> live_reservation now ?res t) ?res) \<longleftrightarrow>
     (\<exists>t r. fmlookup ?res t = Some r \<and> rv_port r = p \<and> \<not> now < rv_expires_at r)" for p
    by (force simp: live_reservation_def intro: fmran'I elim!: fmran'E split: if_splits)
  have res': "reserved_ports pa' \<subseteq> reserved_ports pa"
    unfolding subset_iff reserved_ports_iff look by blast
  have inj: "t = t'" if "fmlookup ?res t = Some r" "fmlookup ?res t' = Some r'" "rv_port r = rv_port r'" for t r t' r'
    using wf that unfolding wf_ports_def by blast
  have used: "pa_used pa' = held_ports pa \<union> reserved_ports pa'"
  proof (rule set_eqI)
    fix p
    show "p \<in> pa_used pa' \<longleftrightarrow> p \<in> held_ports pa \<union> reserved_ports pa'"
    proof (cases "p \<in> reserved_ports pa")
      case False
      then show ?thesis
        using res' drop [of p] by (auto simp: pa' held_ports_def reserved_ports_iff)
    next
      case True
      then obtain t r where tr: "fmlookup ?res t = Some r" "rv_port r = p" by (auto simp: reserved_ports_iff)
      have "p \<in> pa_used pa" using True wf by (auto simp: wf_ports_def)
      then have "p \<in> pa_used pa' \<longleftrightarrow> now < rv_expires_at r"
        using drop [of p] inj [OF tr(1)] tr by (auto simp: pa')
      moreover have "p \<in> reserved_ports pa' \<longleftrightarrow> now < rv_expires_at r"
        using inj [OF tr(1)] tr by (auto simp: reserved_ports_iff look)
      ultimately show ?thesis using True by (simp add: held_ports_def)
    qed
  qed
  then show "pa_used pa' = held_ports pa \<union> reserved_ports pa'" .
  show rng: "in_range pa' = in_range pa" by (simp add: pa')
  show "held_ports pa' = held_ports pa"
    using used res' by (auto simp: held_ports_def)
  have m: "pa_min_port pa' = pa_min_port pa" "pa_max_port pa' = pa_max_port pa" "pa_next_port pa' = pa_next_port pa"
    by (simp_all add: pa')
  show "wf_ports pa'"
    unfolding wf_ports_def m rng look
    using wf used res' by (auto simp: wf_ports_def held_ports_def)
  show "n + fcard (fmdom (pa_reservations pa')) = fcard (fmdom ?res)"
  proof -
    have "ffilter (live_reservation now ?res) (fmdom ?res) |\<subseteq>| fmdom ?res" by auto
    then have "fcard (ffilter (live_reservation now ?res) (fmdom ?res)) \<le> fcard (fmdom ?res)"
      by (rule fcard_mono)
    then show ?thesis unfolding n pa' by simp
  qed
qed

lemma reserved_drop_token:
  assumes "wf_ports pa" and "fmlookup (pa_reservations pa) token = Some v"
  shows "reserved_ports (drop_token token pa) = reserved_ports pa - {rv_port v}"
proof -
  have inj: "t = token" if "fmlookup (pa_reservations pa) t = Some v'" "rv_port v' = rv_port v" for t v'
    using assms that unfolding wf_ports_def by blast
  have look: "fmlookup (pa_reservations (drop_token token pa)) t = Some r \<longleftrightarrow>
      t \<noteq> token \<and> fmlookup (pa_reservations pa) t = Some r" for t r
    by (simp add: drop_token_def)
  show ?thesis
    unfolding set_eq_iff Diff_iff singleton_iff reserved_ports_iff look
    using inj assms(2) by (metis option.inject)
qed

lemma drop_token_fields [simp]:
  "pa_used (drop_token t pa) = pa_used pa" "in_range (drop_token t pa) = in_range pa"
  "pa_min_port (drop_token t pa) = pa_min_port pa" "pa_max_port (drop_token t pa) = pa_max_port pa"
  "pa_next_port (drop_token t pa) = pa_next_port pa"
  "fmlookup (pa_reservations (drop_token t pa)) t' = (if t' = t then None else fmlookup (pa_reservations pa) t')"
  by (simp_all add: drop_token_def)

lemma drop_token_none: "fmlookup (pa_reservations pa) token = None \<Longrightarrow> drop_token token pa = pa"
proof -
  assume "fmlookup (pa_reservations pa) token = None"
  then have "fmdrop token (pa_reservations pa) = pa_reservations pa" by (intro fmap_ext) simp
  then show ?thesis by (simp add: drop_token_def)
qed

lemma drop_token_wf: "wf_ports pa \<Longrightarrow> wf_ports (drop_token token pa)"
proof (cases "fmlookup (pa_reservations pa) token")
  case (Some v)
  assume wf: "wf_ports pa"
  have "reserved_ports (drop_token token pa) \<subseteq> pa_used pa"
    using reserved_drop_token [OF wf Some] wf by (auto simp: wf_ports_def)
  moreover have "t = t'" if "fmlookup (pa_reservations pa) t = Some r"
    "fmlookup (pa_reservations pa) t' = Some r'" "rv_port r = rv_port r'" for t t' r r'
    using wf that unfolding wf_ports_def by blast
  ultimately show ?thesis using wf unfolding wf_ports_def drop_token_fields
    by (metis (no_types, lifting) option.distinct(1))
qed (simp add: drop_token_none)

lemma held_drop_token:
  assumes "wf_ports pa" and "fmlookup (pa_reservations pa) token = Some v"
  shows "held_ports (drop_token token pa) = insert (rv_port v) (held_ports pa)"
    and "rv_port v \<notin> held_ports pa"
proof -
  have "rv_port v \<in> reserved_ports pa" unfolding reserved_ports_iff using assms(2) by blast
  moreover from this have "rv_port v \<in> pa_used pa" using assms(1) by (auto simp: wf_ports_def)
  ultimately show "held_ports (drop_token token pa) = insert (rv_port v) (held_ports pa)"
    and "rv_port v \<notin> held_ports pa"
    by (auto simp: held_ports_def reserved_drop_token [OF assms])
qed

lemma claim_spec:
  assumes wf: "wf_ports pa" and c: "claim_reservation token now pa = (r, pa')"
  shows "wf_ports pa'" "in_range pa' = in_range pa"
    "fmlookup (pa_reservations pa') token = None"
    "case r of
       Some p \<Rightarrow> (\<exists>v. fmlookup (pa_reservations pa) token = Some v \<and> now < rv_expires_at v \<and> rv_port v = p)
          \<and> held_ports pa' = insert p (held_ports pa) \<and> p \<notin> held_ports pa
     | None \<Rightarrow> held_ports pa' = held_ports pa
          \<and> (\<forall>v. fmlookup (pa_reservations pa) token = Some v \<longrightarrow> \<not> now < rv_expires_at v)"
proof -
  obtain n pa1 where s: "sweep_expired_reservations now pa = (n, pa1)" by fastforce
  note sw = sweep_spec [OF wf s]
  have pa': "pa' = drop_token token pa1"
    and r: "r = map_option rv_port (fmlookup (pa_reservations pa1) token)"
    using c s by (auto simp: claim_reservation_def drop_token_def Let_def)
  show "fmlookup (pa_reservations pa') token = None" by (simp add: pa')
  show "in_range pa' = in_range pa" using sw(3) by (simp add: pa')
  show "wf_ports pa'" unfolding pa' by (rule drop_token_wf [OF sw(1)])
  show "case r of
       Some p \<Rightarrow> (\<exists>v. fmlookup (pa_reservations pa) token = Some v \<and> now < rv_expires_at v \<and> rv_port v = p)
          \<and> held_ports pa' = insert p (held_ports pa) \<and> p \<notin> held_ports pa
     | None \<Rightarrow> held_ports pa' = held_ports pa
          \<and> (\<forall>v. fmlookup (pa_reservations pa) token = Some v \<longrightarrow> \<not> now < rv_expires_at v)"
  proof (cases "fmlookup (pa_reservations pa1) token")
    case None
    then show ?thesis using r sw(2) sw(5) [of token] by (simp add: pa' drop_token_none)
  next
    case (Some v)
    then show ?thesis
      using r sw(2) sw(5) [of token v] held_drop_token [OF sw(1) Some] by (simp add: pa')
  qed
qed

lemma cancel_spec:
  assumes wf: "wf_ports pa"
  shows "wf_ports (cancel_reservation token pa)"
    "held_ports (cancel_reservation token pa) = held_ports pa"
    "in_range (cancel_reservation token pa) = in_range pa"
proof -
  let ?c = "cancel_reservation token pa"
  have "wf_ports ?c \<and> held_ports ?c = held_ports pa \<and> in_range ?c = in_range pa"
  proof (cases "fmlookup (pa_reservations pa) token")
    case (Some v)
    have c: "?c = pa_release (drop_token token pa) (rv_port v)"
      using Some by (simp add: cancel_reservation_def drop_token_def)
    have "rv_port v \<notin> reserved_ports (drop_token token pa)"
      using reserved_drop_token [OF wf Some] by simp
    then have "wf_ports ?c" unfolding c by (intro release_wf drop_token_wf wf)
    moreover have "held_ports ?c = held_ports (drop_token token pa) - {rv_port v}"
      unfolding c by (auto simp: pa_release_def held_ports_def)
    ultimately show ?thesis
      using held_drop_token [OF wf Some] by (auto simp: c pa_release_def)
  qed (simp add: cancel_reservation_def wf)
  then show "wf_ports ?c" "held_ports ?c = held_ports pa" "in_range ?c = in_range pa" by auto
qed

lemma fmdrop_fmupd_fresh:
  assumes "t |\<notin>| fmdom m"
  shows "fmdrop t (fmupd t r m) = m"
proof (rule fmap_ext)
  fix x show "fmlookup (fmdrop t (fmupd t r m)) x = fmlookup m x"
    using fmdom_notD [OF assms] by (cases "x = t") simp_all
qed

lemma failed_attempt_undone:
  assumes "wf_ports pa" and "token |\<notin>| fmdom (pa_reservations pa)"
    and "allocate_even_with_reservation token now pa = (Some (p, t), pa1)"
  shows "cancel_reservation t (pa_release pa1 p) = pa"
proof -
  have "p + 1 \<noteq> p" "p \<notin> pa_used pa" "p + 1 \<notin> pa_used pa" "t = token"
    using even_reservation_spec [OF assms(1,2), of now] assms(3) by auto
  moreover have "pa1 = pa\<lparr>pa_used := insert (p + 1) (insert p (pa_used pa)),
      pa_reservations := fmupd token \<lparr> rv_port = p + 1, rv_expires_at = now + RESERVATION_LIFETIME \<rparr>
        (pa_reservations pa)\<rparr>"
    using assms(3) by (auto simp: allocate_even_with_reservation_def split: option.splits)
  ultimately show ?thesis
    using assms(2) by (simp add: cancel_reservation_def pa_release_def fmdrop_fmupd_fresh insert_Diff_if)
qed

lemma failed_even_undone:
  "allocate_even pa = (Some p, pa1) \<Longrightarrow> p \<notin> pa_used pa \<Longrightarrow> pa_release pa1 p = pa"
  by (auto simp: allocate_even_def pa_release_def split: option.splits)

lemma even_bind_loop_eq:
  assumes wf: "wf_ports pa" and fresh: "\<forall>i < n. rnd i |\<notin>| fmdom (pa_reservations pa)"
  shows "even_bind_loop bind rnd now reserve_next family n pa =
    (case even_candidate reserve_next pa of
       None \<Rightarrow> (None, pa)
     | Some p \<Rightarrow>
         if \<exists>i < n. bind i family p
         then let i = Max {i. i < n \<and> bind i family p}
              in if reserve_next
                 then (Some (p, Some (rnd i)), snd (allocate_even_with_reservation (rnd i) now pa))
                 else (Some (p, None), snd (allocate_even pa))
         else (None, pa))"
  using fresh
proof (induction n)
  case 0
  then show ?case by (simp split: option.split)
next
  case (Suc n)
  show ?case
  proof (cases "even_candidate reserve_next pa")
    case None
    then show ?thesis
      by (auto simp: even_candidate_def allocate_even_def allocate_even_with_reservation_def split: if_splits)
  next
    case (Some p)
    have e: "\<not> reserve_next \<Longrightarrow> fst (allocate_even pa) = Some p"
      "reserve_next \<Longrightarrow> fst (allocate_even_with_reservation (rnd n) now pa) = Some (p, rnd n)"
      using Some by (auto simp: even_candidate_def allocate_even_def allocate_even_with_reservation_def)
    show ?thesis
    proof (cases "bind n family p")
      case True
      have "Max {i. i < Suc n \<and> bind i family p} = n"
        using True by (intro Max_eqI) auto
      then show ?thesis
        using Some True e by (cases reserve_next) (auto simp: prod_eq_iff split: prod.splits)
    next
      case False
      have step: "even_bind_loop bind rnd now reserve_next family (Suc n) pa =
            even_bind_loop bind rnd now reserve_next family n pa"
      proof (cases reserve_next)
        case r: True
        then obtain pa1 where a: "allocate_even_with_reservation (rnd n) now pa = (Some (p, rnd n), pa1)"
          using e(2) by (metis prod.collapse)
        have "cancel_reservation (rnd n) (pa_release pa1 p) = pa"
          using Suc.prems by (intro failed_attempt_undone [OF wf _ a]) simp
        then show ?thesis using a False r by simp
      next
        case r: False
        then obtain pa1 where a: "allocate_even pa = (Some p, pa1)" using e(1) by (metis prod.collapse)
        have "p \<notin> pa_used pa" using allocate_even_spec [OF wf] a by auto
        then have "pa_release pa1 p = pa" by (rule failed_even_undone [OF a])
        then show ?thesis using a False r by simp
      qed
      have ex: "(\<exists>i < Suc n. bind i family p) = (\<exists>i < n. bind i family p)"
        and st: "{i. i < Suc n \<and> bind i family p} = {i. i < n \<and> bind i family p}"
        using False by (auto simp: less_Suc_eq)
      have "\<forall>i < n. rnd i |\<notin>| fmdom (pa_reservations pa)" using Suc.prems by simp
      from Suc.IH [OF this] show ?thesis unfolding step Some option.case ex st .
    qed
  qed
qed

lemma random_start_port_range:
  assumes "mn \<le> mx"
  shows "mn \<le> random_start_port rnd mn mx \<and> random_start_port rnd mn mx \<le> mx"
proof (cases "mx \<le> mn")
  case True
  with assms show ?thesis by (simp add: random_start_port_def)
next
  case False
  define d where "d = mx - mn"
  have d: "unat d = unat mx - unat mn" using assms by (simp add: d_def unat_sub word_le_nat_alt)
  have mx: "unat mx < 65536" using unsigned_less [of mx] by simp
  have ud: "unat (ucast d :: u32) = unat d"
    using mx d by (simp add: unsigned_ucast_eq take_bit_eq_mod)
  then have sp: "unat ((ucast d :: u32) + 1) = unat d + 1"
    using mx d by (simp add: unat_word_ariths)
  let ?r = "unat (rnd mod ((ucast d :: u32) + 1))"
  have r: "?r \<le> unat d" using sp by (simp add: unat_mod_distrib less_Suc_eq_le [symmetric])
  then have "unat (ucast (rnd mod ((ucast d :: u32) + 1)) :: u16) = ?r"
    using mx d by (simp add: unsigned_ucast_eq take_bit_eq_mod)
  then have "unat (mn + ucast (rnd mod ((ucast d :: u32) + 1))) = unat mn + ?r"
    using r d mx assms by (simp add: unat_word_ariths word_le_nat_alt)
  moreover have "random_start_port rnd mn mx = mn + ucast (rnd mod ((ucast d :: u32) + 1))"
    using False by (simp add: random_start_port_def d_def)
  ultimately show ?thesis using r d assms by (simp add: word_le_nat_alt)
qed

section \<open>Every sequence of operations keeps the pool consistent\<close>

lemma port_init_wf: "port_init pa \<Longrightarrow> wf_ports pa"
  by (auto simp: port_init_def PortAllocator_new_def wf_ports_def reserved_ports_def
        dest: random_start_port_range)

lemma even_bind_wf:
  assumes "wf_ports pa" and "\<forall>i < 64. rnd i |\<notin>| fmdom (pa_reservations pa)"
    and "allocate_even_and_bind_family bind rnd now reserve_next family pa = (r, pa')"
  shows "wf_ports pa'"
proof -
  have tok: "rnd (Max {i. i < 64 \<and> bind i family p}) |\<notin>| fmdom (pa_reservations pa)"
    if "\<exists>i < 64. bind i family p" for p
  proof -
    have "Max {i. i < 64 \<and> bind i family p} \<in> {i. i < 64 \<and> bind i family p}"
      using that by (intro Max_in) auto
    then show ?thesis using assms(2) by auto
  qed
  have 1: "wf_ports (snd (allocate_even pa))"
    using allocate_even_spec [OF assms(1)] assms(1) by (auto split: prod.splits option.splits)
  have 2: "wf_ports (snd (allocate_even_with_reservation t now pa))"
    if "t |\<notin>| fmdom (pa_reservations pa)" for t
    using even_reservation_spec [OF assms(1) that, of now] assms(1)
    by (auto split: prod.splits option.splits)
  show ?thesis
    using assms(3) even_bind_loop_eq [OF assms(1,2), of bind now reserve_next family] assms(1) tok 1 2
    by (auto simp: allocate_even_and_bind_family_def Let_def split: option.splits if_splits)
qed

lemma claim_and_bind_wf:
  assumes "wf_ports pa" and "claim_and_bind_family bind token now family pa = (r, pa')"
  shows "wf_ports pa'"
proof -
  obtain q pa1 where c: "claim_reservation token now pa = (q, pa1)" by fastforce
  note cs = claim_spec [OF assms(1) c]
  have "p \<notin> reserved_ports pa1" if "q = Some p" for p
    using cs(4) that by (auto simp: held_ports_def)
  then show ?thesis
    using assms(2) c cs(1)
    by (auto simp: claim_and_bind_family_def release_wf split: option.splits if_splits)
qed

lemma reserve_wf: "wf_ports pa \<Longrightarrow> pa_reserve p pa = (r, pa') \<Longrightarrow> wf_ports pa'"
  by (auto simp: pa_reserve_def in_range_def pa_contains_def not_less wf_ports_def split: if_splits)

lemma port_step_wf:
  assumes wf: "wf_ports pa" and step: "port_step pa pa'"
  shows "wf_ports pa'"
  using step
proof cases
  case (step_allocate r)
  then show ?thesis using allocate_spec [OF wf] by auto
next
  case (step_bind bind family r)
  then show ?thesis
    using bind_loop_spec [OF wf, of bind family 64] by (auto simp: allocate_and_bind_family_def)
next
  case (step_even rnd bind now reserve_next family r)
  then show ?thesis by (intro even_bind_wf [OF wf])
next
  case (step_release p)
  then show ?thesis using release_wf [OF wf] by (simp add: held_ports_def)
next
  case (step_sweep now n)
  then show ?thesis by (intro sweep_spec(1) [OF wf])
next
  case (step_claim bind1 token now family r)
  then show ?thesis by (intro claim_and_bind_wf [OF wf])
next
  case (step_cancel token)
  then show ?thesis using cancel_spec(1) [OF wf] by simp
next
  case (step_reserve p r)
  then show ?thesis by (intro reserve_wf [OF wf])
qed

interpretation ports: invariant_system port_init port_step wf_ports
  by unfold_locales (auto intro: port_init_wf port_step_wf)

section \<open>Properties\<close>

text \<open>
  C29. \<open>PortAllocator::allocate\<close> always returns. It hands out a port of the range that nobody holds
  and marks it used, touching no other port; it answers that no port is available only when every
  port of the range is in use, and then changes nothing.
\<close>

theorem pa_allocate_correct:
  assumes "wf_ports pa"
  shows "\<exists>r pa'. pa_allocate pa = Some (r, pa') \<and>
    (case r of
       Ok p \<Rightarrow> pa_contains pa p \<and> \<not> is_allocated pa p \<and> pa_used pa' = insert p (pa_used pa)
           \<and> pa_reservations pa' = pa_reservations pa
     | Err e \<Rightarrow> e = NoPortsAvailable \<and> (\<forall>p. pa_contains pa p \<longrightarrow> is_allocated pa p) \<and> pa' = pa
     | Panic \<Rightarrow> False)"
proof -
  obtain r pa' where a: "pa_allocate pa = Some (r, pa')"
    "case r of Ok p \<Rightarrow> p \<notin> pa_used pa \<and> p \<in> in_range pa
           \<and> (\<exists>nx. pa' = pa\<lparr>pa_next_port := nx, pa_used := insert p (pa_used pa)\<rparr>)
     | Err e \<Rightarrow> e = NoPortsAvailable \<and> pa_used pa = in_range pa \<and> pa' = pa | Panic \<Rightarrow> False"
    using allocate_spec [OF assms] by blast
  then show ?thesis
    by (intro exI [of _ r] exI [of _ pa']) (auto simp: in_range_def is_allocated_def split: res.splits)
qed

definition sample_pool :: port_allocator where
  "sample_pool = (PortAllocator_new 1 50000 50003)\<lparr>pa_used := {50001}\<rparr>"

lemma reserved_ports_empty: "pa_reservations pa = fmempty \<Longrightarrow> reserved_ports pa = {}"
  by (auto simp: reserved_ports_iff)

lemma sample_pool_wf: "wf_ports sample_pool"
  by (simp add: sample_pool_def wf_ports_def PortAllocator_new_def random_start_port_def
        reserved_ports_empty in_range_def pa_contains_def)

theorem pa_allocate_correct_witness: "\<exists>r pa'. pa_allocate sample_pool = Some (r, pa') \<and> r \<noteq> Panic"
proof -
  from pa_allocate_correct [OF sample_pool_wf] obtain r pa' where
    "pa_allocate sample_pool = Some (r, pa')" and r: "case r of
       Ok p \<Rightarrow> pa_contains sample_pool p \<and> \<not> is_allocated sample_pool p
           \<and> pa_used pa' = insert p (pa_used sample_pool)
           \<and> pa_reservations pa' = pa_reservations sample_pool
     | Err e \<Rightarrow> e = NoPortsAvailable \<and> (\<forall>p. pa_contains sample_pool p \<longrightarrow> is_allocated sample_pool p)
           \<and> pa' = sample_pool
     | Panic \<Rightarrow> False"
    by blast
  moreover from r have "r \<noteq> Panic" by auto
  ultimately show ?thesis by blast
qed



text \<open>
  The expiry sweep leaks nothing: afterwards no reservation whose 30 seconds have passed
  remains, the ports of the dropped ones are free, the ports still marked used are exactly those
  held by their owners and those of the live reservations, and no owner loses a port.
\<close>

theorem sweep_no_leak:
  assumes "wf_ports pa" and "sweep_expired_reservations now pa = (n, pa')"
  shows "(\<forall>t r. fmlookup (pa_reservations pa') t = Some r \<longleftrightarrow>
            fmlookup (pa_reservations pa) t = Some r \<and> now < rv_expires_at r)
    \<and> pa_used pa' = held_ports pa \<union> reserved_ports pa' \<and> held_ports pa' = held_ports pa
    \<and> n + fcard (fmdom (pa_reservations pa')) = fcard (fmdom (pa_reservations pa))"
  using sweep_spec [OF assms] by blast

theorem sweep_no_leak_witness:
  "held_ports (snd (sweep_expired_reservations 5 sample_pool)) = held_ports sample_pool"
  using sweep_no_leak [OF sample_pool_wf, of 5] by (metis prod.collapse)

text \<open>
  A RESERVATION-TOKEN is honoured exactly while it is alive and only once: claiming it returns
  its port precisely when the token is known and has not expired, the port passes to the caller,
  and the token is gone afterwards.
\<close>

theorem reservation_claimed_once:
  assumes "wf_ports pa" and "claim_reservation token now pa = (r, pa')"
  shows "(r \<noteq> None \<longleftrightarrow> (\<exists>v. fmlookup (pa_reservations pa) token = Some v \<and> now < rv_expires_at v))
    \<and> (\<forall>p. r = Some p \<longrightarrow> p \<notin> held_ports pa \<and> held_ports pa' = insert p (held_ports pa))
    \<and> fst (claim_reservation token now' pa') = None"
proof -
  note c = claim_spec [OF assms]
  obtain q pa2 where c2: "claim_reservation token now' pa' = (q, pa2)" by fastforce
  have "q = None"
    using claim_spec(4) [OF c(1) c2] c(3) by (auto split: option.splits)
  then show ?thesis using c(4) c2 by (auto split: option.splits)
qed

theorem reservation_claimed_once_witness:
  "fst (claim_reservation [1] 9 (snd (claim_reservation [1] 5 sample_pool))) = None"
  using reservation_claimed_once [OF sample_pool_wf, of "[1]" 5] by (metis prod.collapse)

text \<open>
  C30. An EVEN-PORT request that cannot bind its candidate does not move on to another pair: a failed
  attempt restores the pool exactly, so all 64 attempts try the same port, and when that port
  cannot be bound the request fails although other even ports may be free.
\<close>

theorem even_port_retries_same_port:
  assumes "wf_ports pa" and "\<forall>i < 64. rnd i |\<notin>| fmdom (pa_reservations pa)"
    and "even_candidate reserve_next pa = Some p" and "\<forall>i < 64. \<not> bind i family p"
  shows "allocate_even_and_bind_family bind rnd now reserve_next family pa = (None, pa)"
proof -
  have "(\<exists>i < 64. bind i family p) = False" using assms(4) by simp
  with even_bind_loop_eq [OF assms(1,2), of bind now reserve_next family] show ?thesis
    unfolding allocate_even_and_bind_family_def assms(3) option.case by (simp only: if_False)
qed

theorem even_port_retries_same_port_witness:
  "allocate_even_and_bind_family (\<lambda>i f p. p = 50002) (\<lambda>i. [1]) 0 False FamV4 sample_pool
     = (None, sample_pool)
   \<and> \<not> is_allocated sample_pool 50002"
proof -
  have "even_candidate False sample_pool = Some 50000"
    by (simp add: even_candidate_def sample_pool_def PortAllocator_new_def first_even_def
          even_loop.simps)
  then show ?thesis
    using even_port_retries_same_port [OF sample_pool_wf, of "\<lambda>i. [1]" False 50000
        "\<lambda>i f p. p = 50002" FamV4 0]
    by (simp add: sample_pool_def PortAllocator_new_def is_allocated_def)
qed

end
