(* ===== verification/User_Limits.thy ===== *)
theory User_Limits
  imports Session_Base
begin

text \<open>
  Per-user limits (\<^verbatim>\<open>crates/session/src/lib.rs\<close>): overrides at user, tenant and global scope,
  their resolution against the node's own ceilings, and the copy-on-write cache that publishes
  them. The lemmas show that a finite node ceiling is a hard bound and that the most specific
  explicit override decides.
\<close>

datatype limit_mode = Inherit | Value | Unlimited | Disabled

record limit_u32 =
  l32_mode :: limit_mode
  l32_value :: u32

record limit_u64 =
  l64_mode :: limit_mode
  l64_value :: u64

record user_limits_override =
  uo_max_allocations :: "limit_u32 option"
  uo_max_bytes_per_sec :: "limit_u64 option"
  uo_max_lifetime_secs :: "limit_u32 option"

definition override_default :: user_limits_override where
  "override_default = \<lparr> uo_max_allocations = None, uo_max_bytes_per_sec = None, uo_max_lifetime_secs = None \<rparr>"

definition is_inherit_only :: "user_limits_override \<Rightarrow> bool" where
  "is_inherit_only v \<longleftrightarrow>
     (case uo_max_allocations v of None \<Rightarrow> True | Some l \<Rightarrow> l32_mode l = Inherit)
     \<and> (case uo_max_bytes_per_sec v of None \<Rightarrow> True | Some l \<Rightarrow> l64_mode l = Inherit)
     \<and> (case uo_max_lifetime_secs v of None \<Rightarrow> True | Some l \<Rightarrow> l32_mode l = Inherit)"

record user_limits_snapshot =
  ls_generation :: u64
  ls_bootstrap_max_lifetime_secs :: u32
  ls_global :: user_limits_override
  ls_tenants :: "(string \<times> string, user_limits_override) fmap"
  ls_users :: "(string \<times> string \<times> string, user_limits_override) fmap"

definition UserLimitsSnapshot_empty :: user_limits_snapshot where
  "UserLimitsSnapshot_empty =
     \<lparr> ls_generation = 0, ls_bootstrap_max_lifetime_secs = 0, ls_global = override_default,
       ls_tenants = fmempty, ls_users = fmempty \<rparr>"

record bandwidth_quota =
  bq_max_bytes_per_sec :: u64
  bq_max_per_user :: usize

definition BandwidthQuota_default :: bandwidth_quota where
  "BandwidthQuota_default = \<lparr> bq_max_bytes_per_sec = 0, bq_max_per_user = 100 \<rparr>"

record runtime_limits =
  rl_version :: u64
  rl_max_bytes_per_sec :: u64
  rl_max_per_user :: usize
  rl_max_allocations :: usize

record effective_user_limits =
  ef_max_allocations :: usize
  ef_allocations_disabled :: bool
  ef_max_bytes_per_sec :: u64
  ef_bandwidth_disabled :: bool
  ef_max_lifetime_secs :: u32
  ef_lifetime_disabled :: bool
  ef_inherited_fields :: "string list"
  ef_capped_fields :: "string list"

text \<open>The four results are the effective value, and whether it was inherited, disabled, capped.\<close>

fun resolve_u32 :: "limit_u32 option list \<Rightarrow> usize \<Rightarrow> usize \<times> bool \<times> bool \<times> bool" where
  "resolve_u32 [] fallback = (fallback, True, False, False)"
| "resolve_u32 (None # cs) fallback = resolve_u32 cs fallback"
| "resolve_u32 (Some c # cs) fallback =
     (case l32_mode c of
        Inherit \<Rightarrow> resolve_u32 cs fallback
      | Disabled \<Rightarrow> (0, False, True, False)
      | Value \<Rightarrow>
          let requested = ucast (l32_value c) in
          if fallback > 0 \<and> requested > fallback then (fallback, False, False, True)
          else (requested, False, False, False)
      | Unlimited \<Rightarrow>
          if fallback > 0 then (fallback, False, False, True) else (0, False, False, False))"

fun resolve_u64 :: "limit_u64 option list \<Rightarrow> u64 \<Rightarrow> u64 \<times> bool \<times> bool \<times> bool" where
  "resolve_u64 [] fallback = (fallback, True, False, False)"
| "resolve_u64 (None # cs) fallback = resolve_u64 cs fallback"
| "resolve_u64 (Some c # cs) fallback =
     (case l64_mode c of
        Inherit \<Rightarrow> resolve_u64 cs fallback
      | Disabled \<Rightarrow> (0, False, True, False)
      | Value \<Rightarrow>
          if fallback > 0 \<and> l64_value c > fallback then (fallback, False, False, True)
          else (l64_value c, False, False, False)
      | Unlimited \<Rightarrow>
          if fallback > 0 then (fallback, False, False, True) else (0, False, False, False))"

definition field_names :: "bool \<Rightarrow> bool \<Rightarrow> bool \<Rightarrow> string list" where
  "field_names a b c =
     (if a then [''max_allocations''] else []) @ (if b then [''max_bytes_per_sec_per_allocation''] else [])
     @ (if c then [''max_lifetime_secs''] else [])"

definition effective_limits ::
  "runtime_limits \<Rightarrow> user_limits_snapshot \<Rightarrow> bandwidth_quota option
   \<Rightarrow> string \<Rightarrow> string option \<Rightarrow> string \<Rightarrow> effective_user_limits" where
  "effective_limits runtime limits bootstrap_tenant realm tenant_id username =
     (let tenant = (case tenant_id of None \<Rightarrow> '''' | Some t \<Rightarrow> t);
          user = fmlookup (ls_users limits) (realm, tenant, username);
          tenant_override = fmlookup (ls_tenants limits) (realm, tenant);
          (allocs, alloc_inherited, allocations_disabled, alloc_capped) =
            resolve_u32
              [Option.bind user uo_max_allocations, Option.bind tenant_override uo_max_allocations,
               uo_max_allocations (ls_global limits)]
              (case bootstrap_tenant of
                 Some q \<Rightarrow> if bq_max_per_user q > 0 then bq_max_per_user q else rl_max_per_user runtime
               | None \<Rightarrow> rl_max_per_user runtime);
          (bps, bandwidth_inherited, bandwidth_disabled, bandwidth_capped) =
            resolve_u64
              [Option.bind user uo_max_bytes_per_sec, Option.bind tenant_override uo_max_bytes_per_sec,
               uo_max_bytes_per_sec (ls_global limits)]
              (case bootstrap_tenant of
                 Some q \<Rightarrow> if bq_max_bytes_per_sec q > 0 then bq_max_bytes_per_sec q
                           else rl_max_bytes_per_sec runtime
               | None \<Rightarrow> rl_max_bytes_per_sec runtime);
          (lifetime, lifetime_inherited, lifetime_disabled, lifetime_capped) =
            resolve_u32
              [Option.bind user uo_max_lifetime_secs, Option.bind tenant_override uo_max_lifetime_secs,
               uo_max_lifetime_secs (ls_global limits)]
              (ucast (ls_bootstrap_max_lifetime_secs limits))
      in \<lparr> ef_max_allocations = allocs, ef_allocations_disabled = allocations_disabled,
           ef_max_bytes_per_sec = bps, ef_bandwidth_disabled = bandwidth_disabled,
           ef_max_lifetime_secs = ucast lifetime, ef_lifetime_disabled = lifetime_disabled,
           ef_inherited_fields = field_names alloc_inherited bandwidth_inherited lifetime_inherited,
           ef_capped_fields = field_names alloc_capped bandwidth_capped lifetime_capped \<rparr>)"

definition publish_user_limits ::
  "user_limits_snapshot \<Rightarrow> user_limits_snapshot \<Rightarrow> unit session_res \<times> user_limits_snapshot" where
  "publish_user_limits next current =
     (let next = next\<lparr>ls_generation := ls_generation current\<rparr> in
      if next = current then (Ok (), current)
      else if unat (ls_generation current) + 1 \<ge> 2 ^ 64 then (Err CacheGenerationOverflow, current)
      else (Ok (), next\<lparr>ls_generation := ls_generation current + 1\<rparr>))"

definition limits_snapshot_with_override ::
  "user_limits_snapshot \<Rightarrow> string \<Rightarrow> string \<Rightarrow> string \<Rightarrow> string \<Rightarrow> user_limits_override
   \<Rightarrow> user_limits_snapshot session_res" where
  "limits_snapshot_with_override current scope realm tenant username v =
     (if scope = ''global'' then Ok (current\<lparr>ls_global := v\<rparr>)
      else if scope = ''tenant'' then
        (let key = (realm, tenant) in
         Ok (current\<lparr>ls_tenants := (if is_inherit_only v then fmdrop key (ls_tenants current)
                                    else fmupd key v (ls_tenants current))\<rparr>))
      else if scope = ''user'' then
        (let key = (realm, tenant, username) in
         Ok (current\<lparr>ls_users := (if is_inherit_only v then fmdrop key (ls_users current)
                                  else fmupd key v (ls_users current))\<rparr>))
      else Err LimitExceeded)"

section \<open>Resolution\<close>

text \<open>
  What resolution means: the first candidate with a mode other than \<open>Inherit\<close> decides, and without
  one the node's value applies.
\<close>

definition explicit32 :: "limit_u32 option list \<Rightarrow> limit_u32 option" where
  "explicit32 cs = find_map (\<lambda>c. case c of Some l \<Rightarrow> if l32_mode l = Inherit then None else Some l
                                          | None \<Rightarrow> None) cs"

definition explicit64 :: "limit_u64 option list \<Rightarrow> limit_u64 option" where
  "explicit64 cs = find_map (\<lambda>c. case c of Some l \<Rightarrow> if l64_mode l = Inherit then None else Some l
                                          | None \<Rightarrow> None) cs"

definition decide :: "limit_mode \<Rightarrow> u64 \<Rightarrow> u64 \<Rightarrow> u64 \<times> bool \<times> bool \<times> bool" where
  "decide mode v fallback =
     (if mode = Disabled then (0, False, True, False)
      else let v = (if mode = Value then v else 0);
               over = fallback > 0 \<and> (mode = Unlimited \<or> v > fallback)
           in (if over then fallback else v, False, False, over))"

lemma resolve_u32_decide:
  "resolve_u32 cs fallback =
     (case explicit32 cs of None \<Rightarrow> (fallback, True, False, False)
      | Some l \<Rightarrow> decide (l32_mode l) (ucast (l32_value l)) fallback)"
  by (induction cs fallback rule: resolve_u32.induct)
     (auto simp: explicit32_def decide_def Let_def split: limit_mode.split)

lemma resolve_u64_decide:
  "resolve_u64 cs fallback =
     (case explicit64 cs of None \<Rightarrow> (fallback, True, False, False)
      | Some l \<Rightarrow> decide (l64_mode l) (l64_value l) fallback)"
  by (induction cs fallback rule: resolve_u64.induct)
     (auto simp: explicit64_def decide_def Let_def split: limit_mode.split)

lemma decide_ceiling:
  assumes "decide mode v fallback = (eff, inh, dis, cap)" and "0 < fallback" and "\<not> dis"
    and "mode = Value \<Longrightarrow> 0 < v" and "mode \<noteq> Inherit"
  shows "0 < eff \<and> eff \<le> fallback"
  using assms by (cases mode) (auto simp: decide_def Let_def split: if_splits)

text \<open>No stored override has mode \<open>Value\<close> with value zero: the management layer refuses those.\<close>

definition nonzero_override :: "user_limits_override \<Rightarrow> bool" where
  "nonzero_override v \<longleftrightarrow>
     (\<forall>l. uo_max_allocations v = Some l \<longrightarrow> l32_mode l = Value \<longrightarrow> 0 < l32_value l)
     \<and> (\<forall>l. uo_max_bytes_per_sec v = Some l \<longrightarrow> l64_mode l = Value \<longrightarrow> 0 < l64_value l)
     \<and> (\<forall>l. uo_max_lifetime_secs v = Some l \<longrightarrow> l32_mode l = Value \<longrightarrow> 0 < l32_value l)"

definition nonzero_limits :: "user_limits_snapshot \<Rightarrow> bool" where
  "nonzero_limits limits \<longleftrightarrow>
     nonzero_override (ls_global limits)
     \<and> (\<forall>k v. fmlookup (ls_tenants limits) k = Some v \<longrightarrow> nonzero_override v)
     \<and> (\<forall>k v. fmlookup (ls_users limits) k = Some v \<longrightarrow> nonzero_override v)"

definition alloc_ceiling :: "runtime_limits \<Rightarrow> bandwidth_quota option \<Rightarrow> usize" where
  "alloc_ceiling runtime bootstrap_tenant =
     (case bootstrap_tenant of
        Some q \<Rightarrow> if bq_max_per_user q > 0 then bq_max_per_user q else rl_max_per_user runtime
      | None \<Rightarrow> rl_max_per_user runtime)"

definition bps_ceiling :: "runtime_limits \<Rightarrow> bandwidth_quota option \<Rightarrow> u64" where
  "bps_ceiling runtime bootstrap_tenant =
     (case bootstrap_tenant of
        Some q \<Rightarrow> if bq_max_bytes_per_sec q > 0 then bq_max_bytes_per_sec q else rl_max_bytes_per_sec runtime
      | None \<Rightarrow> rl_max_bytes_per_sec runtime)"

lemma explicit32_Some: "explicit32 cs = Some l \<Longrightarrow> Some l \<in> set cs \<and> l32_mode l \<noteq> Inherit"
  unfolding explicit32_def by (drule find_map_Some) (auto split: option.splits if_splits)

lemma explicit64_Some: "explicit64 cs = Some l \<Longrightarrow> Some l \<in> set cs \<and> l64_mode l \<noteq> Inherit"
  unfolding explicit64_def by (drule find_map_Some) (auto split: option.splits if_splits)

lemma unat_ucast_u32_u64: "unat (ucast (v :: u32) :: u64) = unat v"
proof -
  have "unat v < 2 ^ 32" using unsigned_less [of v] by simp
  then show ?thesis by (simp add: unsigned_ucast_eq take_bit_eq_mod)
qed

lemma ucast_u32_pos: "0 < (v :: u32) \<Longrightarrow> 0 < (ucast v :: u64)"
  by (simp add: word_less_nat_alt unat_ucast_u32_u64)

lemma resolve_u32_ceiling:
  assumes "resolve_u32 cs fallback = (eff, inh, dis, cap)" and "0 < fallback" and "\<not> dis"
    and "\<And>l. Some l \<in> set cs \<Longrightarrow> l32_mode l = Value \<Longrightarrow> 0 < l32_value l"
  shows "0 < eff \<and> eff \<le> fallback"
proof (cases "explicit32 cs")
  case None
  then show ?thesis using assms by (simp add: resolve_u32_decide)
next
  case (Some l)
  with explicit32_Some [OF Some] assms show ?thesis
    by (intro decide_ceiling [of "l32_mode l" "ucast (l32_value l)"])
       (auto simp: resolve_u32_decide ucast_u32_pos)
qed

lemma resolve_u64_ceiling:
  assumes "resolve_u64 cs fallback = (eff, inh, dis, cap)" and "0 < fallback" and "\<not> dis"
    and "\<And>l. Some l \<in> set cs \<Longrightarrow> l64_mode l = Value \<Longrightarrow> 0 < l64_value l"
  shows "0 < eff \<and> eff \<le> fallback"
proof (cases "explicit64 cs")
  case None
  then show ?thesis using assms by (simp add: resolve_u64_decide)
next
  case (Some l)
  with explicit64_Some [OF Some] assms show ?thesis
    by (intro decide_ceiling [of "l64_mode l" "l64_value l"]) (auto simp: resolve_u64_decide)
qed

lemma nonzero_candidates:
  assumes "nonzero_limits limits"
    and "Some l \<in> set [Option.bind (fmlookup (ls_users limits) k) f,
           Option.bind (fmlookup (ls_tenants limits) k') f, f (ls_global limits)]"
  shows "\<exists>v. nonzero_override v \<and> f v = Some l"
proof -
  consider "Option.bind (fmlookup (ls_users limits) k) f = Some l"
    | "Option.bind (fmlookup (ls_tenants limits) k') f = Some l" | "f (ls_global limits) = Some l"
    using assms(2) by force
  then show ?thesis
  proof cases
    case 1
    then obtain v where "fmlookup (ls_users limits) k = Some v" "f v = Some l"
      by (auto simp: bind_eq_Some_conv)
    with assms(1) show ?thesis unfolding nonzero_limits_def by blast
  next
    case 2
    then obtain v where "fmlookup (ls_tenants limits) k' = Some v" "f v = Some l"
      by (auto simp: bind_eq_Some_conv)
    with assms(1) show ?thesis unfolding nonzero_limits_def by blast
  next
    case 3
    with assms(1) show ?thesis unfolding nonzero_limits_def by blast
  qed
qed

lemma ucast_le_mono:
  assumes "(x :: u64) \<le> ucast (b :: u32)" and "0 < x"
  shows "0 < (ucast x :: u32) \<and> ucast x \<le> b"
proof -
  have x: "unat x \<le> unat b" using assms(1) by (simp add: word_le_nat_alt unat_ucast_u32_u64)
  moreover have "unat b < 2 ^ 32" using unsigned_less [of b] by simp
  ultimately have "unat (ucast x :: u32) = unat x" by (simp add: unsigned_ucast_eq take_bit_eq_mod)
  with x assms(2) show ?thesis by (simp add: word_le_nat_alt word_less_nat_alt)
qed

section \<open>Properties\<close>

text \<open>
  A finite node ceiling is a hard bound on every user: whatever overrides are stored at user,
  tenant or global scope, the effective allocation count, bandwidth and lifetime are positive and
  at most the ceiling, unless the field is disabled. An override that asks for unlimited, or for
  more than the ceiling, cannot lift it.
\<close>

theorem effective_within_ceiling:
  assumes "nonzero_limits limits"
    and "e = effective_limits runtime limits bootstrap_tenant realm tenant_id username"
  shows "(0 < alloc_ceiling runtime bootstrap_tenant \<and> \<not> ef_allocations_disabled e \<longrightarrow>
            0 < ef_max_allocations e \<and> ef_max_allocations e \<le> alloc_ceiling runtime bootstrap_tenant)
    \<and> (0 < bps_ceiling runtime bootstrap_tenant \<and> \<not> ef_bandwidth_disabled e \<longrightarrow>
            0 < ef_max_bytes_per_sec e \<and> ef_max_bytes_per_sec e \<le> bps_ceiling runtime bootstrap_tenant)
    \<and> (0 < ls_bootstrap_max_lifetime_secs limits \<and> \<not> ef_lifetime_disabled e \<longrightarrow>
            0 < ef_max_lifetime_secs e \<and> ef_max_lifetime_secs e \<le> ls_bootstrap_max_lifetime_secs limits)"
proof -
  define tenant where "tenant = (case tenant_id of None \<Rightarrow> '''' | Some t \<Rightarrow> t)"
  define cands32 where "cands32 f = [Option.bind (fmlookup (ls_users limits) (realm, tenant, username)) f,
      Option.bind (fmlookup (ls_tenants limits) (realm, tenant)) f, f (ls_global limits)]"
    for f :: "user_limits_override \<Rightarrow> limit_u32 option"
  define cands64 where "cands64 f = [Option.bind (fmlookup (ls_users limits) (realm, tenant, username)) f,
      Option.bind (fmlookup (ls_tenants limits) (realm, tenant)) f, f (ls_global limits)]"
    for f :: "user_limits_override \<Rightarrow> limit_u64 option"
  obtain a ai ad ac where A: "resolve_u32 (cands32 uo_max_allocations)
      (alloc_ceiling runtime bootstrap_tenant) = (a, ai, ad, ac)"
    using prod_cases4 by blast
  obtain b bi bd bc where B: "resolve_u64 (cands64 uo_max_bytes_per_sec)
      (bps_ceiling runtime bootstrap_tenant) = (b, bi, bd, bc)"
    using prod_cases4 by blast
  obtain l li ld lc where L: "resolve_u32 (cands32 uo_max_lifetime_secs)
      (ucast (ls_bootstrap_max_lifetime_secs limits)) = (l, li, ld, lc)"
    using prod_cases4 by blast
  have e: "ef_max_allocations e = a" "ef_allocations_disabled e = ad" "ef_max_bytes_per_sec e = b"
    "ef_bandwidth_disabled e = bd" "ef_max_lifetime_secs e = ucast l" "ef_lifetime_disabled e = ld"
    using A B L unfolding assms(2) effective_limits_def Let_def cands32_def cands64_def
      alloc_ceiling_def bps_ceiling_def tenant_def by simp_all
  have n32: "0 < l32_value v" if "Some v \<in> set (cands32 f)" "l32_mode v = Value"
    "f = uo_max_allocations \<or> f = uo_max_lifetime_secs" for f v
    using nonzero_candidates [OF assms(1) that(1) [unfolded cands32_def]] that(2,3)
    by (auto simp: nonzero_override_def)
  have n64: "0 < l64_value v" if "Some v \<in> set (cands64 uo_max_bytes_per_sec)" "l64_mode v = Value" for v
    using nonzero_candidates [OF assms(1) that(1) [unfolded cands64_def]] that(2)
    by (auto simp: nonzero_override_def)
  have 1: "0 < a \<and> a \<le> alloc_ceiling runtime bootstrap_tenant"
    if "0 < alloc_ceiling runtime bootstrap_tenant" "\<not> ad"
    using that n32 by (intro resolve_u32_ceiling [OF A]) auto
  have 2: "0 < b \<and> b \<le> bps_ceiling runtime bootstrap_tenant"
    if "0 < bps_ceiling runtime bootstrap_tenant" "\<not> bd"
    using that n64 by (intro resolve_u64_ceiling [OF B]) auto
  have 3: "0 < l \<and> l \<le> ucast (ls_bootstrap_max_lifetime_secs limits)"
    if "0 < ls_bootstrap_max_lifetime_secs limits" "\<not> ld"
    using that n32 by (intro resolve_u32_ceiling [OF L]) (auto simp: ucast_u32_pos)
  show ?thesis unfolding e using 1 2 3 ucast_le_mono by blast
qed

definition sample_limits :: user_limits_snapshot where
  "sample_limits = UserLimitsSnapshot_empty\<lparr>ls_users := fmupd (''r'', '''', ''bob'')
     (override_default\<lparr>uo_max_allocations := Some \<lparr> l32_mode = Unlimited, l32_value = 0 \<rparr>\<rparr>) fmempty\<rparr>"

definition sample_runtime :: runtime_limits where
  "sample_runtime =
     \<lparr> rl_version = 0, rl_max_bytes_per_sec = 0, rl_max_per_user = 100, rl_max_allocations = 1000 \<rparr>"

theorem effective_within_ceiling_witness:
  "ef_max_allocations (effective_limits sample_runtime sample_limits None ''r'' None ''bob'') \<le> 100"
proof -
  let ?e = "effective_limits sample_runtime sample_limits None ''r'' None ''bob''"
  have "nonzero_override override_default"
    "nonzero_override (override_default\<lparr>uo_max_allocations := Some \<lparr> l32_mode = Unlimited, l32_value = 0 \<rparr>\<rparr>)"
    by (simp_all add: nonzero_override_def override_default_def)
  then have "nonzero_limits sample_limits"
    unfolding nonzero_limits_def sample_limits_def UserLimitsSnapshot_empty_def by auto
  moreover have "fmlookup (ls_users sample_limits) (''r'', [], ''bob'') =
      Some (override_default\<lparr>uo_max_allocations := Some \<lparr> l32_mode = Unlimited, l32_value = 0 \<rparr>\<rparr>)"
    by (simp add: sample_limits_def)
  then have "\<not> ef_allocations_disabled ?e"
    by (simp add: effective_limits_def sample_runtime_def Let_def split: prod.split)
  ultimately show ?thesis
    using effective_within_ceiling [of sample_limits ?e sample_runtime None "''r''" None "''bob''"]
    by (simp add: alloc_ceiling_def sample_runtime_def)
qed

text \<open>
  Publishing limits is all or nothing: a snapshot with the same content changes nothing, a
  different one becomes current with the generation advanced by exactly one, and when the
  generation counter is exhausted the call reports it and the current snapshot stays.
\<close>

theorem publish_user_limits_correct:
  "case publish_user_limits next current of
     (Ok _, current') \<Rightarrow>
        current' = current \<and> next\<lparr>ls_generation := 0\<rparr> = current\<lparr>ls_generation := 0\<rparr>
        \<or> (next\<lparr>ls_generation := 0\<rparr> \<noteq> current\<lparr>ls_generation := 0\<rparr>
           \<and> current'\<lparr>ls_generation := 0\<rparr> = next\<lparr>ls_generation := 0\<rparr>
           \<and> unat (ls_generation current') = unat (ls_generation current) + 1)
   | (Err e, current') \<Rightarrow> e = CacheGenerationOverflow \<and> current' = current
        \<and> unat (ls_generation current) = 2 ^ 64 - 1
   | (Panic, _) \<Rightarrow> False"
proof -
  have content: "next\<lparr>ls_generation := ls_generation current\<rparr> = current \<longleftrightarrow>
      next\<lparr>ls_generation := 0\<rparr> = current\<lparr>ls_generation := 0\<rparr>"
    by (cases "next"; cases current) auto
  have g: "unat (ls_generation current) < 2 ^ 64" using unsigned_less [of "ls_generation current"] by simp
  consider (same) "next\<lparr>ls_generation := ls_generation current\<rparr> = current"
    | (full) "next\<lparr>ls_generation := ls_generation current\<rparr> \<noteq> current" "unat (ls_generation current) + 1 \<ge> 2 ^ 64"
    | (new) "next\<lparr>ls_generation := ls_generation current\<rparr> \<noteq> current" "\<not> unat (ls_generation current) + 1 \<ge> 2 ^ 64"
    by blast
  then show ?thesis
  proof cases
    case same
    then have "publish_user_limits next current = (Ok (), current)"
      by (simp add: publish_user_limits_def)
    moreover have "next\<lparr>ls_generation := 0\<rparr> = current\<lparr>ls_generation := 0\<rparr>" using same content by blast
    ultimately show ?thesis by simp
  next
    case full
    then have "publish_user_limits next current = (Err CacheGenerationOverflow, current)"
      by (simp add: publish_user_limits_def)
    then show ?thesis using full(2) g by simp
  next
    case new
    have "unat (ls_generation current + 1) = unat (ls_generation current) + 1"
      using new(2) by (simp add: unat_word_ariths)
    moreover have "publish_user_limits next current = (Ok (), next\<lparr>ls_generation := ls_generation current + 1\<rparr>)"
      using new by (simp add: publish_user_limits_def)
    moreover have "next\<lparr>ls_generation := 0\<rparr> \<noteq> current\<lparr>ls_generation := 0\<rparr>" using new(1) content by blast
    ultimately show ?thesis by simp
  qed
qed

text \<open>
  An override touches its own subject and nobody else: setting the limits of one user leaves
  the effective limits of every other user as they were, and the stored entry for that user is the
  new override, or absent when it only inherits.
\<close>

theorem user_override_is_local:
  assumes "limits_snapshot_with_override current ''user'' realm tenant username v = Ok nxt"
  shows "fmlookup (ls_users nxt) (realm, tenant, username) = (if is_inherit_only v then None else Some v)
    \<and> (\<forall>runtime bt r t u. (r, case t of None \<Rightarrow> '''' | Some x \<Rightarrow> x, u) \<noteq> (realm, tenant, username) \<longrightarrow>
         effective_limits runtime nxt bt r t u = effective_limits runtime current bt r t u)"
proof -
  have nxt: "nxt = current\<lparr>ls_users := (if is_inherit_only v then fmdrop (realm, tenant, username) (ls_users current)
      else fmupd (realm, tenant, username) v (ls_users current))\<rparr>"
    using assms by (simp add: limits_snapshot_with_override_def Let_def)
  have "fmlookup (ls_users nxt) k = fmlookup (ls_users current) k" if "k \<noteq> (realm, tenant, username)" for k
    using that by (auto simp: nxt)
  moreover have "ls_tenants nxt = ls_tenants current" "ls_global nxt = ls_global current"
    "ls_bootstrap_max_lifetime_secs nxt = ls_bootstrap_max_lifetime_secs current"
    by (simp_all add: nxt)
  ultimately show ?thesis by (auto simp: nxt effective_limits_def Let_def)
qed

definition sample_override :: user_limits_override where
  "sample_override = override_default\<lparr>uo_max_lifetime_secs := Some \<lparr> l32_mode = Value, l32_value = 60 \<rparr>\<rparr>"

theorem user_override_is_local_witness:
  "\<exists>nxt. limits_snapshot_with_override sample_limits ''user'' ''r'' [] ''eve'' sample_override = Ok nxt
     \<and> fmlookup (ls_users nxt) (''r'', [], ''eve'') = Some sample_override"
proof -
  have "\<not> is_inherit_only sample_override"
    by (simp add: is_inherit_only_def sample_override_def override_default_def)
  then show ?thesis
    using user_override_is_local [of sample_limits "''r''" "[]" "''eve''" sample_override]
    by (simp add: limits_snapshot_with_override_def)
qed

end
