(* ===== verification/Allocation.thy ===== *)
theory Allocation
  imports Session_Base "HOL-Library.Log_Nat" Complex_Main
begin

text \<open>
  One TURN allocation (\<^verbatim>\<open>Allocation\<close> of \<^verbatim>\<open>crates/session/src/lib.rs\<close>) with its permissions, its
  channel bindings and their reverse index, its byte counters and bandwidth window, and the usage
  record taken from it (\<^verbatim>\<open>usage.rs\<close>). The relaxed atomic counters are words that wrap; the one
  floating-point computation, the rate of a completed window, is written with IEEE rounding on
  rationals. The lemmas show that channels and peers stay in one-to-one correspondence, that the
  expiry sweep is invisible to lookups and that the usage split is exact.
\<close>

record permission =
  pm_peer_ip :: ip_addr
  pm_expires_at :: instant

definition Permission_new :: "instant \<Rightarrow> ip_addr \<Rightarrow> permission" where
  "Permission_new now peer_ip = \<lparr> pm_peer_ip = peer_ip, pm_expires_at = now + PERMISSION_LIFETIME \<rparr>"

definition Permission_refresh :: "instant \<Rightarrow> permission \<Rightarrow> permission" where
  "Permission_refresh now p = p\<lparr>pm_expires_at := now + PERMISSION_LIFETIME\<rparr>"

definition Permission_is_expired :: "instant \<Rightarrow> permission \<Rightarrow> bool" where
  "Permission_is_expired now p \<longleftrightarrow> now > pm_expires_at p"

record channel_binding =
  cb_channel :: u16
  cb_peer_addr :: socket_addr
  cb_expires_at :: instant

definition ChannelBinding_new :: "instant \<Rightarrow> u16 \<Rightarrow> socket_addr \<Rightarrow> channel_binding" where
  "ChannelBinding_new now channel peer_addr =
     \<lparr> cb_channel = channel, cb_peer_addr = peer_addr, cb_expires_at = now + CHANNEL_LIFETIME \<rparr>"

definition ChannelBinding_refresh :: "instant \<Rightarrow> channel_binding \<Rightarrow> channel_binding" where
  "ChannelBinding_refresh now b = b\<lparr>cb_expires_at := now + CHANNEL_LIFETIME\<rparr>"

definition ChannelBinding_is_expired :: "instant \<Rightarrow> channel_binding \<Rightarrow> bool" where
  "ChannelBinding_is_expired now b \<longleftrightarrow> now > cb_expires_at b"

datatype transport_proto = Udp | Tcp

record allocation =
  al_allocation_id :: string
  al_migration_epoch :: u64
  al_client_addr :: socket_addr
  al_relay_addr :: socket_addr
  al_username :: string
  al_key :: bytes
  al_realm :: string
  al_tenant_id :: "string option"
  al_transport :: transport_proto
  al_permissions :: "(ip_addr, permission) fmap"
  al_channel_bindings :: "(u16, channel_binding) fmap"
  al_channels_reverse :: "(socket_addr, u16) fmap"
  al_expires_at :: instant
  al_created_at :: instant
  al_created_at_ms :: u64
  al_bytes_relayed :: u64
  al_packets_relayed :: u64
  al_bytes_to_client :: u64
  al_packets_to_client :: u64
  al_bandwidth_window_bytes :: u64
  al_bandwidth_window_start :: instant

definition Allocation_is_expired :: "instant \<Rightarrow> allocation \<Rightarrow> bool" where
  "Allocation_is_expired now a \<longleftrightarrow> now > al_expires_at a"

definition has_permission :: "instant \<Rightarrow> allocation \<Rightarrow> socket_addr \<Rightarrow> bool" where
  "has_permission now a peer =
     (case fmlookup (al_permissions a) (sock_ip peer) of
        None \<Rightarrow> False | Some p \<Rightarrow> \<not> Permission_is_expired now p)"

definition get_channel_peer :: "instant \<Rightarrow> allocation \<Rightarrow> u16 \<Rightarrow> socket_addr option" where
  "get_channel_peer now a channel =
     (case fmlookup (al_channel_bindings a) channel of
        None \<Rightarrow> None
      | Some b \<Rightarrow> if ChannelBinding_is_expired now b then None else Some (cb_peer_addr b))"

definition get_peer_channel :: "instant \<Rightarrow> allocation \<Rightarrow> socket_addr \<Rightarrow> u16 option" where
  "get_peer_channel now a peer =
     (case fmlookup (al_channels_reverse a) peer of
        None \<Rightarrow> None
      | Some ch \<Rightarrow>
          (case fmlookup (al_channel_bindings a) ch of
             None \<Rightarrow> None
           | Some b \<Rightarrow> if ChannelBinding_is_expired now b then None else Some ch))"

definition add_bytes :: "u64 \<Rightarrow> allocation \<Rightarrow> allocation" where
  "add_bytes n a =
     a\<lparr>al_bytes_relayed := al_bytes_relayed a + n,
       al_packets_relayed := al_packets_relayed a + 1,
       al_bandwidth_window_bytes := al_bandwidth_window_bytes a + n\<rparr>"

definition add_bytes_to_client :: "u64 \<Rightarrow> allocation \<Rightarrow> allocation" where
  "add_bytes_to_client n a =
     (let a = add_bytes n a
      in a\<lparr>al_bytes_to_client := al_bytes_to_client a + n,
           al_packets_to_client := al_packets_to_client a + 1\<rparr>)"

record allocation_usage =
  us_bytes_from_client :: u64
  us_packets_from_client :: u64
  us_bytes_to_client :: u64
  us_packets_to_client :: u64

definition al_usage :: "allocation \<Rightarrow> allocation_usage" where
  "al_usage a =
     \<lparr> us_bytes_from_client = saturating_sub (al_bytes_relayed a) (al_bytes_to_client a),
       us_packets_from_client = saturating_sub (al_packets_relayed a) (al_packets_to_client a),
       us_bytes_to_client = al_bytes_to_client a,
       us_packets_to_client = al_packets_to_client a \<rparr>"

text \<open>
  \<^verbatim>\<open>f64\<close>: non-negative finite values are rationals, and every operation rounds to 53 significant
  bits, ties to even.
\<close>

definition round_half_even :: "rat \<Rightarrow> int" where
  "round_half_even x =
     (let f = \<lfloor>x\<rfloor>; d = x - of_int f
      in if d < 1 / 2 then f else if d > 1 / 2 then f + 1 else if f mod 2 = 0 then f else f + 1)"

definition two_to :: "int \<Rightarrow> rat" where
  "two_to k = (if 0 \<le> k then 2 ^ nat k else 1 / 2 ^ nat (- k))"

definition f64_round :: "rat \<Rightarrow> rat" where
  "f64_round x =
     (if x \<le> 0 then x
      else let (p, q) = quotient_of x;
               k = bitlen p - bitlen q;
               e = (if two_to k \<le> x then k else k - 1) - 52
           in of_int (round_half_even (x / two_to e)) * two_to e)"

definition as_secs_f64 :: "nat \<Rightarrow> rat" where
  "as_secs_f64 ns =
     f64_round (f64_round (of_nat (ns div 10 ^ 9)) + f64_round (of_nat (ns mod 10 ^ 9) / 10 ^ 9))"

definition f64_as_u64 :: "rat \<Rightarrow> u64" where
  "f64_as_u64 x = (if x \<ge> 2 ^ 64 then - 1 else of_nat (nat \<lfloor>x\<rfloor>))"

definition window_bps :: "u64 \<Rightarrow> nat \<Rightarrow> u64" where
  "window_bps b elapsed = f64_as_u64 (f64_round (f64_round (of_nat (unat b)) / as_secs_f64 elapsed))"

definition alloc_check_bandwidth :: "instant \<Rightarrow> u64 \<Rightarrow> allocation \<Rightarrow> (unit, u64) res \<times> allocation" where
  "alloc_check_bandwidth now limit a =
     (let elapsed = now - al_bandwidth_window_start a in
      if elapsed \<ge> from_secs 1 then
        (let b = al_bandwidth_window_bytes a;
             a = a\<lparr>al_bandwidth_window_bytes := 0, al_bandwidth_window_start := now\<rparr>;
             bps = window_bps b elapsed
         in (if bps > limit then Err () else Ok bps, a))
      else (if al_bandwidth_window_bytes a > limit then Err () else Ok (al_bandwidth_window_bytes a), a))"

definition cleanup_expired_entries :: "instant \<Rightarrow> allocation \<Rightarrow> (nat \<times> nat) \<times> allocation" where
  "cleanup_expired_entries now a =
     (let perms = fmfilter (\<lambda>ip. case fmlookup (al_permissions a) ip of
                               None \<Rightarrow> False | Some p \<Rightarrow> \<not> Permission_is_expired now p) (al_permissions a);
          perms_removed = fcard (fmdom (al_permissions a)) - fcard (fmdom perms);
          expired_channels = filter (\<lambda>ch. case fmlookup (al_channel_bindings a) ch of
                               None \<Rightarrow> False | Some b \<Rightarrow> ChannelBinding_is_expired now b)
                             (sorted_list_of_fset (fmdom (al_channel_bindings a)));
          (chans, rev) = fold (\<lambda>ch (chans, rev).
                            case fmlookup chans ch of
                              None \<Rightarrow> (chans, rev)
                            | Some b \<Rightarrow> (fmdrop ch chans, fmdrop (cb_peer_addr b) rev))
                          expired_channels (al_channel_bindings a, al_channels_reverse a);
          chans_removed = fcard (fmdom (al_channel_bindings a)) - fcard (fmdom chans)
      in ((perms_removed, chans_removed),
          a\<lparr>al_permissions := perms, al_channel_bindings := chans, al_channels_reverse := rev\<rparr>))"

definition has_stale_entries :: "instant \<Rightarrow> allocation \<Rightarrow> bool" where
  "has_stale_entries now a \<longleftrightarrow>
     (\<exists>p \<in> fmran' (al_permissions a). Permission_is_expired now p)
     \<or> (\<exists>b \<in> fmran' (al_channel_bindings a). ChannelBinding_is_expired now b)"

definition time_remaining :: "instant \<Rightarrow> allocation \<Rightarrow> nat" where
  "time_remaining now a = al_expires_at a - now"

definition permission_count :: "allocation \<Rightarrow> nat" where
  "permission_count a = fcard (fmdom (al_permissions a))"

definition channel_count :: "allocation \<Rightarrow> nat" where
  "channel_count a = fcard (fmdom (al_channel_bindings a))"

definition channel_numbers :: "allocation \<Rightarrow> u16 list" where
  "channel_numbers a = sorted_list_of_fset (fmdom (al_channel_bindings a))"

text \<open>The changes \<^verbatim>\<open>add_permission\<close> and \<^verbatim>\<open>add_channel\<close> make to the allocation they found.\<close>

definition alloc_add_permission :: "instant \<Rightarrow> ip_addr \<Rightarrow> allocation \<Rightarrow> allocation session_res" where
  "alloc_add_permission now peer_ip a =
     (case fmlookup (al_permissions a) peer_ip of
        Some p \<Rightarrow> Ok (a\<lparr>al_permissions := fmupd peer_ip (Permission_refresh now p) (al_permissions a)\<rparr>)
      | None \<Rightarrow>
          if permission_count a \<ge> MAX_PERMISSIONS_PER_ALLOCATION then Err LimitExceeded
          else Ok (a\<lparr>al_permissions := fmupd peer_ip (Permission_new now peer_ip) (al_permissions a)\<rparr>))"

definition channel_conflict :: "u16 \<Rightarrow> socket_addr \<Rightarrow> allocation \<Rightarrow> bool" where
  "channel_conflict channel peer_addr a \<longleftrightarrow>
     (case fmlookup (al_channel_bindings a) channel of
        None \<Rightarrow> False | Some b \<Rightarrow> cb_peer_addr b \<noteq> peer_addr)
     \<or> (case fmlookup (al_channels_reverse a) peer_addr of
          None \<Rightarrow> False | Some ch \<Rightarrow> ch \<noteq> channel)"

definition grant_permission :: "instant \<Rightarrow> ip_addr \<Rightarrow> (ip_addr, permission) fmap \<Rightarrow> (ip_addr, permission) fmap" where
  "grant_permission now ip perms =
     (case fmlookup perms ip of
        Some p \<Rightarrow> fmupd ip (Permission_refresh now p) perms
      | None \<Rightarrow> fmupd ip (Permission_new now ip) perms)"

definition alloc_add_channel :: "instant \<Rightarrow> u16 \<Rightarrow> socket_addr \<Rightarrow> allocation \<Rightarrow> allocation session_res" where
  "alloc_add_channel now channel peer_addr a =
     (if channel_conflict channel peer_addr a then Err ChannelConflict
      else if fmlookup (al_channel_bindings a) channel = None
              \<and> channel_count a \<ge> MAX_CHANNELS_PER_ALLOCATION then Err LimitExceeded
      else
        let a = a\<lparr>al_permissions := grant_permission now (sock_ip peer_addr) (al_permissions a)\<rparr>
        in Ok (case fmlookup (al_channel_bindings a) channel of
             Some b \<Rightarrow> a\<lparr>al_channel_bindings :=
                          fmupd channel (ChannelBinding_refresh now b) (al_channel_bindings a)\<rparr>
           | None \<Rightarrow> a\<lparr>al_channel_bindings :=
                          fmupd channel (ChannelBinding_new now channel peer_addr) (al_channel_bindings a),
                       al_channels_reverse := fmupd peer_addr channel (al_channels_reverse a)\<rparr>))"

text \<open>The allocation \<^verbatim>\<open>create_for_identity\<close> builds.\<close>

definition Allocation_new ::
  "string \<Rightarrow> socket_addr \<Rightarrow> socket_addr \<Rightarrow> string \<Rightarrow> bytes \<Rightarrow> u32 \<Rightarrow> string \<Rightarrow> string option
   \<Rightarrow> instant \<Rightarrow> u64 \<Rightarrow> allocation" where
  "Allocation_new alloc_id client_addr relay_addr username key lifetime realm tenant_id now now_ms =
     \<lparr> al_allocation_id = alloc_id, al_migration_epoch = 0, al_client_addr = client_addr,
       al_relay_addr = relay_addr, al_username = username, al_key = key, al_realm = realm,
       al_tenant_id = tenant_id, al_transport = Udp, al_permissions = fmempty,
       al_channel_bindings = fmempty, al_channels_reverse = fmempty,
       al_expires_at = now + from_secs (unat lifetime), al_created_at = now, al_created_at_ms = now_ms,
       al_bytes_relayed = 0, al_packets_relayed = 0, al_bytes_to_client = 0, al_packets_to_client = 0,
       al_bandwidth_window_bytes = 0, al_bandwidth_window_start = now \<rparr>"

section \<open>Usage records\<close>

datatype usage_record_kind = Interim | Stop

fun UsageRecordKind_as_str :: "usage_record_kind \<Rightarrow> string" where
  "UsageRecordKind_as_str Interim = ''interim''"
| "UsageRecordKind_as_str Stop = ''stop''"

datatype usage_end_reason = Expired | Released | AdminDeleted | MigrationLost

fun UsageEndReason_as_str :: "usage_end_reason \<Rightarrow> string" where
  "UsageEndReason_as_str Expired = ''expired''"
| "UsageEndReason_as_str Released = ''released''"
| "UsageEndReason_as_str AdminDeleted = ''admin_deleted''"
| "UsageEndReason_as_str MigrationLost = ''migration_lost''"

record usage_record =
  ur_kind :: usage_record_kind
  ur_end_reason :: "usage_end_reason option"
  ur_allocation_id :: string
  ur_username :: string
  ur_realm :: string
  ur_tenant :: "string option"
  ur_transport :: string
  ur_client_addr :: socket_addr
  ur_relay_addr :: socket_addr
  ur_start_ms :: u64
  ur_event_ms :: u64
  ur_usage :: allocation_usage
  ur_bytes_counted :: bool

definition UsageRecord_from_allocation ::
  "allocation \<Rightarrow> usage_record_kind \<Rightarrow> usage_end_reason option \<Rightarrow> u64 \<Rightarrow> usage_record" where
  "UsageRecord_from_allocation a kind end_reason event_ms =
     (let (transport, bytes_counted) =
            (case al_transport a of Udp \<Rightarrow> (''udp'', True) | Tcp \<Rightarrow> (''tcp'', False))
      in \<lparr> ur_kind = kind, ur_end_reason = end_reason, ur_allocation_id = al_allocation_id a,
           ur_username = al_username a, ur_realm = al_realm a, ur_tenant = al_tenant_id a,
           ur_transport = transport, ur_client_addr = al_client_addr a,
           ur_relay_addr = al_relay_addr a, ur_start_ms = al_created_at_ms a,
           ur_event_ms = event_ms, ur_usage = al_usage a, ur_bytes_counted = bytes_counted \<rparr>)"

definition duration_secs :: "usage_record \<Rightarrow> u64" where
  "duration_secs r = saturating_sub (ur_event_ms r) (ur_start_ms r) div 1000"

section \<open>Consistency\<close>

text \<open>
  The two channel maps are each other's inverse: this is RFC 8656 section 12.2, one peer per
  channel and one channel per peer.
\<close>

definition inverse_maps :: "(u16, channel_binding) fmap \<Rightarrow> (socket_addr, u16) fmap \<Rightarrow> bool" where
  "inverse_maps bs rv \<longleftrightarrow>
     (\<forall>ch b. fmlookup bs ch = Some b \<longrightarrow> cb_channel b = ch \<and> fmlookup rv (cb_peer_addr b) = Some ch)
     \<and> (\<forall>p ch. fmlookup rv p = Some ch \<longrightarrow> (\<exists>b. fmlookup bs ch = Some b \<and> cb_peer_addr b = p))"

definition perms_keyed :: "(ip_addr, permission) fmap \<Rightarrow> bool" where
  "perms_keyed perms \<longleftrightarrow> (\<forall>ip p. fmlookup perms ip = Some p \<longrightarrow> pm_peer_ip p = ip)"

definition wf_alloc :: "allocation \<Rightarrow> bool" where
  "wf_alloc a \<longleftrightarrow>
     inverse_maps (al_channel_bindings a) (al_channels_reverse a)
     \<and> perms_keyed (al_permissions a)
     \<and> channel_count a \<le> MAX_CHANNELS_PER_ALLOCATION"

section \<open>Channel maps\<close>

lemma inverse_maps_empty: "inverse_maps fmempty fmempty"
  by (simp add: inverse_maps_def)

lemma inverse_maps_fwd:
  "inverse_maps bs rv \<Longrightarrow> fmlookup bs ch = Some b \<Longrightarrow> fmlookup rv (cb_peer_addr b) = Some ch"
  unfolding inverse_maps_def by blast

lemma inverse_maps_bwd:
  "inverse_maps bs rv \<Longrightarrow> fmlookup rv p = Some ch \<Longrightarrow> \<exists>b. fmlookup bs ch = Some b \<and> cb_peer_addr b = p"
  unfolding inverse_maps_def by blast

lemma inverse_maps_num: "inverse_maps bs rv \<Longrightarrow> fmlookup bs ch = Some b \<Longrightarrow> cb_channel b = ch"
  unfolding inverse_maps_def by blast

lemma inverse_maps_refresh:
  assumes "inverse_maps bs rv" and "fmlookup bs ch = Some b"
    and "cb_peer_addr b' = cb_peer_addr b" "cb_channel b' = cb_channel b"
  shows "inverse_maps (fmupd ch b' bs) rv"
  unfolding inverse_maps_def
proof (intro conjI allI impI)
  fix c x assume l: "fmlookup (fmupd ch b' bs) c = Some x"
  have "cb_channel x = c \<and> fmlookup rv (cb_peer_addr x) = Some c"
  proof (cases "c = ch")
    case True
    with l have "x = b'" by simp
    then show ?thesis
      using True assms(3,4) inverse_maps_fwd [OF assms(1,2)] inverse_maps_num [OF assms(1,2)] by simp
  next
    case False
    with l have "fmlookup bs c = Some x" by simp
    from inverse_maps_fwd [OF assms(1) this] inverse_maps_num [OF assms(1) this] show ?thesis by simp
  qed
  then show "cb_channel x = c" "fmlookup rv (cb_peer_addr x) = Some c" by simp_all
next
  fix p c assume "fmlookup rv p = Some c"
  from inverse_maps_bwd [OF assms(1) this] show "\<exists>x. fmlookup (fmupd ch b' bs) c = Some x \<and> cb_peer_addr x = p"
    using assms(2,3) by auto
qed

lemma inverse_maps_fresh:
  assumes inv: "inverse_maps bs rv" and none: "fmlookup bs ch = None"
    and new: "cb_peer_addr b = peer" "cb_channel b = ch"
    and peer: "fmlookup rv peer = None \<or> fmlookup rv peer = Some ch"
  shows "inverse_maps (fmupd ch b bs) (fmupd peer ch rv)"
proof -
  have "fmlookup rv peer = None" using inverse_maps_bwd [OF inv, of peer ch] peer none by auto
  then have ne: "cb_peer_addr b' \<noteq> peer" if "fmlookup bs ch' = Some b'" for ch' b'
    using inverse_maps_fwd [OF inv that] by auto
  show ?thesis
    unfolding inverse_maps_def
  proof (intro conjI allI impI)
    fix c x assume l: "fmlookup (fmupd ch b bs) c = Some x"
    have "cb_channel x = c \<and> fmlookup (fmupd peer ch rv) (cb_peer_addr x) = Some c"
    proof (cases "c = ch")
      case True
      with l have "x = b" by simp
      then show ?thesis using True new by simp
    next
      case False
      with l have "fmlookup bs c = Some x" by simp
      from inverse_maps_fwd [OF inv this] inverse_maps_num [OF inv this] ne [OF this]
      show ?thesis by simp
    qed
    then show "cb_channel x = c" "fmlookup (fmupd peer ch rv) (cb_peer_addr x) = Some c" by simp_all
  next
    fix p c assume l: "fmlookup (fmupd peer ch rv) p = Some c"
    show "\<exists>x. fmlookup (fmupd ch b bs) c = Some x \<and> cb_peer_addr x = p"
    proof (cases "p = peer")
      case True
      with l have "c = ch" by simp
      then show ?thesis using True new by simp
    next
      case False
      with l have "fmlookup rv p = Some c" by simp
      from inverse_maps_bwd [OF inv this] obtain x where x: "fmlookup bs c = Some x" "cb_peer_addr x = p" by blast
      with none have "c \<noteq> ch" by auto
      with x show ?thesis by simp
    qed
  qed
qed

lemma fcard_fmupd_le: "fcard (fmdom (fmupd k v m)) \<le> fcard (fmdom m) + 1"
  by (simp add: fcard_finsert_if)

lemma fcard_fmupd_old: "fmlookup m k = Some x \<Longrightarrow> fcard (fmdom (fmupd k v m)) = fcard (fmdom m)"
  using fmdomI [of m k x] by (simp add: finsert_absorb)

lemma fcard_fmupd_new: "fmlookup m k = None \<Longrightarrow> fcard (fmdom (fmupd k v m)) = fcard (fmdom m) + 1"
  by (simp add: fcard_finsert_if fmlookup_dom_iff)

lemma add_channel_cases:
  assumes "alloc_add_channel now ch peer a = Ok a'"
  obtains (refresh) b where "fmlookup (al_channel_bindings a) ch = Some b" "cb_peer_addr b = peer"
      "a' = a\<lparr>al_permissions := grant_permission now (sock_ip peer) (al_permissions a),
             al_channel_bindings := fmupd ch (ChannelBinding_refresh now b) (al_channel_bindings a)\<rparr>"
  | (fresh) "fmlookup (al_channel_bindings a) ch = None"
      "fmlookup (al_channels_reverse a) peer = None \<or> fmlookup (al_channels_reverse a) peer = Some ch"
      "channel_count a < MAX_CHANNELS_PER_ALLOCATION"
      "a' = a\<lparr>al_permissions := grant_permission now (sock_ip peer) (al_permissions a),
             al_channel_bindings := fmupd ch (ChannelBinding_new now ch peer) (al_channel_bindings a),
             al_channels_reverse := fmupd peer ch (al_channels_reverse a)\<rparr>"
  using assms
  by (auto simp: alloc_add_channel_def channel_conflict_def Let_def not_le split: option.splits if_splits)

lemma grant_permission_lookup:
  "fmlookup (grant_permission now ip perms) ip' =
     (if ip' = ip then Some (case fmlookup perms ip of Some p \<Rightarrow> Permission_refresh now p
                             | None \<Rightarrow> Permission_new now ip)
      else fmlookup perms ip')"
  by (simp add: grant_permission_def split: option.split)

lemma perms_keyed_upd: "perms_keyed perms \<Longrightarrow> pm_peer_ip p = ip \<Longrightarrow> perms_keyed (fmupd ip p perms)"
  unfolding perms_keyed_def by simp

lemma perms_keyed_lookup: "perms_keyed perms \<Longrightarrow> fmlookup perms ip = Some p \<Longrightarrow> pm_peer_ip p = ip"
  unfolding perms_keyed_def by blast

lemma perms_keyed_filter: "perms_keyed perms \<Longrightarrow> perms_keyed (fmfilter P perms)"
  unfolding perms_keyed_def by simp

lemma grant_permission_keyed: "perms_keyed perms \<Longrightarrow> perms_keyed (grant_permission now ip perms)"
  using perms_keyed_lookup [of perms ip]
  by (cases "fmlookup perms ip")
     (auto simp: grant_permission_def Permission_refresh_def Permission_new_def intro!: perms_keyed_upd)

lemma add_permission_cases:
  assumes "alloc_add_permission now ip a = Ok a'"
  shows "a' = a\<lparr>al_permissions := grant_permission now ip (al_permissions a)\<rparr>"
  using assms
  by (cases "fmlookup (al_permissions a) ip")
     (simp_all add: alloc_add_permission_def grant_permission_def split: if_splits)

lemma add_permission_wf: "wf_alloc a \<Longrightarrow> alloc_add_permission now ip a = Ok a' \<Longrightarrow> wf_alloc a'"
  by (drule add_permission_cases) (simp add: wf_alloc_def channel_count_def grant_permission_keyed)

lemma add_channel_wf:
  assumes wf: "wf_alloc a" and add: "alloc_add_channel now ch peer a = Ok a'"
  shows "wf_alloc a'"
  using add
proof (cases rule: add_channel_cases)
  case (refresh b)
  then show ?thesis
    using wf inverse_maps_refresh [of "al_channel_bindings a" "al_channels_reverse a" ch b]
      grant_permission_keyed [of "al_permissions a" now "sock_ip peer"]
    by (simp add: wf_alloc_def channel_count_def ChannelBinding_refresh_def fcard_fmupd_old del: fmdom_fmupd)
next
  case fresh
  then show ?thesis
    using wf inverse_maps_fresh [of "al_channel_bindings a" "al_channels_reverse a" ch "ChannelBinding_new now ch peer" peer]
      grant_permission_keyed [of "al_permissions a" now "sock_ip peer"]
    by (simp add: wf_alloc_def channel_count_def ChannelBinding_new_def fcard_fmupd_new del: fmdom_fmupd)
qed

section \<open>The sweep\<close>

definition live_perms :: "instant \<Rightarrow> (ip_addr, permission) fmap \<Rightarrow> (ip_addr, permission) fmap" where
  "live_perms now perms = fmfilter (\<lambda>ip. case fmlookup perms ip of None \<Rightarrow> False
     | Some p \<Rightarrow> \<not> Permission_is_expired now p) perms"

definition live_binding :: "instant \<Rightarrow> channel_binding option \<Rightarrow> channel_binding option" where
  "live_binding now ob = (case ob of None \<Rightarrow> None
     | Some b \<Rightarrow> if ChannelBinding_is_expired now b then None else Some b)"

definition drop_channel ::
  "u16 \<Rightarrow> (u16, channel_binding) fmap \<times> (socket_addr, u16) fmap
   \<Rightarrow> (u16, channel_binding) fmap \<times> (socket_addr, u16) fmap" where
  "drop_channel ch = (\<lambda>(chans, rv).
     case fmlookup chans ch of None \<Rightarrow> (chans, rv)
     | Some b \<Rightarrow> (fmdrop ch chans, fmdrop (cb_peer_addr b) rv))"

lemma drop_channel_inverse:
  assumes "inverse_maps bs rv"
  shows "case drop_channel ch (bs, rv) of (bs', rv') \<Rightarrow>
     inverse_maps bs' rv' \<and> bs' = fmdrop ch bs"
proof (cases "fmlookup bs ch")
  case None
  then have "fmdrop ch bs = bs" by (intro fmap_ext) simp
  with None assms show ?thesis by (simp add: drop_channel_def)
next
  case (Some b)
  have ne: "cb_peer_addr b' \<noteq> cb_peer_addr b" if "fmlookup bs ch' = Some b'" "ch' \<noteq> ch" for ch' b'
    using inverse_maps_fwd [OF assms that(1)] inverse_maps_fwd [OF assms Some] that(2) by auto
  have "inverse_maps (fmdrop ch bs) (fmdrop (cb_peer_addr b) rv)"
    unfolding inverse_maps_def
  proof (intro conjI allI impI)
    fix c x assume "fmlookup (fmdrop ch bs) c = Some x"
    then have l: "fmlookup bs c = Some x" "c \<noteq> ch" by (simp_all split: if_splits)
    show "cb_channel x = c" by (rule inverse_maps_num [OF assms l(1)])
    show "fmlookup (fmdrop (cb_peer_addr b) rv) (cb_peer_addr x) = Some c"
      using ne [OF l] inverse_maps_fwd [OF assms l(1)] by simp
  next
    fix p c assume "fmlookup (fmdrop (cb_peer_addr b) rv) p = Some c"
    then have l: "fmlookup rv p = Some c" "p \<noteq> cb_peer_addr b" by (simp_all split: if_splits)
    from inverse_maps_bwd [OF assms l(1)] obtain x where x: "fmlookup bs c = Some x" "cb_peer_addr x = p" by blast
    with Some l(2) have "c \<noteq> ch" by auto
    with x show "\<exists>x. fmlookup (fmdrop ch bs) c = Some x \<and> cb_peer_addr x = p" by simp
  qed
  with Some show ?thesis by (simp add: drop_channel_def)
qed

lemma fold_drop_channel:
  assumes "inverse_maps bs rv"
  shows "case fold drop_channel chs (bs, rv) of (bs', rv') \<Rightarrow>
     inverse_maps bs' rv' \<and> (\<forall>ch. fmlookup bs' ch = (if ch \<in> set chs then None else fmlookup bs ch))"
  using assms
proof (induction chs arbitrary: bs rv)
  case (Cons c chs)
  obtain bs1 rv1 where d: "drop_channel c (bs, rv) = (bs1, rv1)" by fastforce
  with drop_channel_inverse [OF Cons.prems, of c] have 1: "inverse_maps bs1 rv1" "bs1 = fmdrop c bs" by auto
  show ?case using Cons.IH [OF 1(1)] 1(2) d by (auto split: prod.splits)
qed simp

lemma cleanup_fold: "(\<lambda>ch (chans, rev). case fmlookup chans ch of None \<Rightarrow> (chans, rev)
     | Some b \<Rightarrow> (fmdrop ch chans, fmdrop (cb_peer_addr b) rev)) = drop_channel"
  by (intro ext) (simp add: drop_channel_def)

lemma cleanup_spec:
  assumes wf: "wf_alloc a"
  shows "\<exists>n chans rv. cleanup_expired_entries now a = (n, a\<lparr>al_permissions := live_perms now (al_permissions a),
        al_channel_bindings := chans, al_channels_reverse := rv\<rparr>)
     \<and> inverse_maps chans rv
     \<and> (\<forall>ch. fmlookup chans ch = live_binding now (fmlookup (al_channel_bindings a) ch))"
proof -
  define ex where "ex = filter (\<lambda>ch. case fmlookup (al_channel_bindings a) ch of
        None \<Rightarrow> False | Some b \<Rightarrow> ChannelBinding_is_expired now b)
      (sorted_list_of_fset (fmdom (al_channel_bindings a)))"
  have ex_iff: "ch \<in> set ex \<longleftrightarrow> (\<exists>b. fmlookup (al_channel_bindings a) ch = Some b \<and> ChannelBinding_is_expired now b)" for ch
    by (auto simp: ex_def fmlookup_dom_iff split: option.splits)
  obtain chans rv where f: "fold drop_channel ex (al_channel_bindings a, al_channels_reverse a) = (chans, rv)"
    by fastforce
  have inv: "inverse_maps (al_channel_bindings a) (al_channels_reverse a)" using wf by (simp add: wf_alloc_def)
  from fold_drop_channel [OF inv, of ex] f
  have kept: "inverse_maps chans rv" and look: "fmlookup chans ch = (if ch \<in> set ex then None else fmlookup (al_channel_bindings a) ch)" for ch
    by simp_all
  have "fmlookup chans ch = live_binding now (fmlookup (al_channel_bindings a) ch)" for ch
    using look [of ch] ex_iff [of ch]
    by (cases "fmlookup (al_channel_bindings a) ch") (simp_all add: live_binding_def)
  moreover have "\<exists>n. cleanup_expired_entries now a = (n, a\<lparr>al_permissions := live_perms now (al_permissions a),
        al_channel_bindings := chans, al_channels_reverse := rv\<rparr>)"
    using f by (simp add: cleanup_expired_entries_def cleanup_fold ex_def [symmetric] live_perms_def Let_def)
  ultimately show ?thesis using kept by blast
qed

lemma cleanup_wf:
  assumes wf: "wf_alloc a"
  shows "wf_alloc (snd (cleanup_expired_entries now a))"
proof -
  from cleanup_spec [OF wf, of now] obtain n chans rv where
    c: "cleanup_expired_entries now a = (n, a\<lparr>al_permissions := live_perms now (al_permissions a),
        al_channel_bindings := chans, al_channels_reverse := rv\<rparr>)"
    and inv: "inverse_maps chans rv"
    and look: "\<forall>ch. fmlookup chans ch = live_binding now (fmlookup (al_channel_bindings a) ch)"
    by (elim exE conjE)
  have "fmdom chans |\<subseteq>| fmdom (al_channel_bindings a)"
    by (auto simp: fmlookup_dom_iff look live_binding_def split: option.splits)
  then have "fcard (fmdom chans) \<le> channel_count a"
    unfolding channel_count_def by (rule fcard_mono)
  with wf inv show ?thesis
    by (simp add: c wf_alloc_def live_perms_def perms_keyed_filter channel_count_def)
qed

lemma live_later: "now \<le> now' \<Longrightarrow> live_binding now' (live_binding now ob) = live_binding now' ob"
  by (auto simp: live_binding_def ChannelBinding_is_expired_def split: option.splits)

lemma get_channel_peer_live:
  "get_channel_peer now a ch = map_option cb_peer_addr (live_binding now (fmlookup (al_channel_bindings a) ch))"
  by (simp add: get_channel_peer_def live_binding_def split: option.split)

lemma channel_peer_iff:
  assumes "wf_alloc a"
  shows "get_channel_peer now a ch = Some p \<longleftrightarrow> get_peer_channel now a p = Some ch"
proof -
  have inv: "inverse_maps (al_channel_bindings a) (al_channels_reverse a)"
    using assms by (simp add: wf_alloc_def)
  have *: "get_peer_channel now a p = Some ch \<longleftrightarrow> fmlookup (al_channels_reverse a) p = Some ch
        \<and> (\<exists>b. fmlookup (al_channel_bindings a) ch = Some b \<and> \<not> ChannelBinding_is_expired now b)"
    by (auto simp: get_peer_channel_def split: option.splits if_splits)
  have **: "get_channel_peer now a ch = Some p \<longleftrightarrow>
      (\<exists>b. fmlookup (al_channel_bindings a) ch = Some b \<and> cb_peer_addr b = p \<and> \<not> ChannelBinding_is_expired now b)"
    by (auto simp: get_channel_peer_def split: option.splits if_splits)
  show ?thesis unfolding * **
    using inverse_maps_fwd [OF inv, of ch] inverse_maps_bwd [OF inv, of p ch] by force
qed

lemma option_eqI: "(\<And>x. a = Some x \<longleftrightarrow> b = Some x) \<Longrightarrow> a = b"
  by (metis not_Some_eq)


section \<open>Fresh allocations and steps\<close>

lemma wf_alloc_fields:
  assumes "wf_alloc a" "al_permissions a' = al_permissions a"
    "al_channel_bindings a' = al_channel_bindings a" "al_channels_reverse a' = al_channels_reverse a"
  shows "wf_alloc a'"
  using assms by (simp add: wf_alloc_def channel_count_def)

lemma Allocation_new_wf: "wf_alloc (Allocation_new alloc_id client relay username key lifetime realm tenant now now_ms)"
  by (simp add: wf_alloc_def Allocation_new_def inverse_maps_empty perms_keyed_def channel_count_def
        fcard.rep_eq)

lemma add_bytes_wf: "wf_alloc a \<Longrightarrow> wf_alloc (add_bytes n a)"
  by (erule wf_alloc_fields) (simp_all add: add_bytes_def)

lemma add_bytes_to_client_wf: "wf_alloc a \<Longrightarrow> wf_alloc (add_bytes_to_client n a)"
  by (erule wf_alloc_fields) (simp_all add: add_bytes_to_client_def add_bytes_def Let_def)

lemma check_bandwidth_wf: "wf_alloc a \<Longrightarrow> wf_alloc (snd (alloc_check_bandwidth now limit a))"
  by (erule wf_alloc_fields) (simp_all add: alloc_check_bandwidth_def Let_def)

text \<open>
  Everything the program does to an allocation it holds, at a clock that does not go back.
\<close>

inductive alloc_step :: "instant \<times> allocation \<Rightarrow> instant \<times> allocation \<Rightarrow> bool" where
  al_tick: "now \<le> now' \<Longrightarrow> alloc_step (now, a) (now', a)"
| al_permission: "alloc_add_permission now ip a = Ok a' \<Longrightarrow> alloc_step (now, a) (now, a')"
| al_channel: "alloc_add_channel now ch peer a = Ok a' \<Longrightarrow> alloc_step (now, a) (now, a')"
| al_cleanup: "alloc_step (now, a) (now, snd (cleanup_expired_entries now a))"
| al_from_client: "alloc_step (now, a) (now, add_bytes n a)"
| al_to_client: "alloc_step (now, a) (now, add_bytes_to_client n a)"
| al_bandwidth: "alloc_step (now, a) (now, snd (alloc_check_bandwidth now limit a))"
| al_refresh: "alloc_step (now, a) (now, a\<lparr>al_expires_at := t\<rparr>)"
| al_transport: "alloc_step (now, a) (now, a\<lparr>al_transport := tr\<rparr>)"
| al_re_key: "alloc_step (now, a) (now, a\<lparr>al_client_addr := c, al_migration_epoch := e\<rparr>)"

definition alloc_init :: "instant \<times> allocation \<Rightarrow> bool" where
  "alloc_init s \<longleftrightarrow> (\<exists>alloc_id client relay username key lifetime realm tenant now now_ms.
     s = (now, Allocation_new alloc_id client relay username key lifetime realm tenant now now_ms))"

lemma alloc_step_wf: "alloc_step s s' \<Longrightarrow> wf_alloc (snd s) \<Longrightarrow> wf_alloc (snd s')"
  by (induction rule: alloc_step.induct)
     (auto intro: add_permission_wf add_channel_wf cleanup_wf add_bytes_wf add_bytes_to_client_wf
        check_bandwidth_wf elim: wf_alloc_fields)

interpretation allocs: invariant_system alloc_init alloc_step "\<lambda>s. wf_alloc (snd s)"
  by unfold_locales (auto simp: alloc_init_def Allocation_new_wf intro: alloc_step_wf)

lemma add_channel_conflict_iff:
  "alloc_add_channel now ch peer a = Err ChannelConflict \<longleftrightarrow>
     (\<exists>b. fmlookup (al_channel_bindings a) ch = Some b \<and> cb_peer_addr b \<noteq> peer)
     \<or> (\<exists>ch'. fmlookup (al_channels_reverse a) peer = Some ch' \<and> ch' \<noteq> ch)"
  by (auto simp: alloc_add_channel_def channel_conflict_def Let_def split: option.splits)

section \<open>Counters\<close>

fun relay_packet :: "bool \<times> u64 \<Rightarrow> allocation \<Rightarrow> allocation" where
  "relay_packet (to_client, n) a = (if to_client then add_bytes_to_client n a else add_bytes n a)"

definition bytes_of :: "(bool \<Rightarrow> bool) \<Rightarrow> (bool \<times> u64) list \<Rightarrow> nat" where
  "bytes_of dir ps = (\<Sum>(d, n) \<leftarrow> ps. if dir d then unat n else 0)"

definition count_of :: "(bool \<Rightarrow> bool) \<Rightarrow> (bool \<times> u64) list \<Rightarrow> nat" where
  "count_of dir ps = length (filter (dir \<circ> fst) ps)"

lemma relay_packets_counters:
  "al_bytes_relayed (fold relay_packet ps a) = al_bytes_relayed a + of_nat (bytes_of (\<lambda>d. True) ps)
   \<and> al_packets_relayed (fold relay_packet ps a) = al_packets_relayed a + of_nat (length ps)
   \<and> al_bytes_to_client (fold relay_packet ps a) = al_bytes_to_client a + of_nat (bytes_of (\<lambda>d. d) ps)
   \<and> al_packets_to_client (fold relay_packet ps a) = al_packets_to_client a + of_nat (count_of (\<lambda>d. d) ps)"
  by (induction ps arbitrary: a)
     (auto simp: bytes_of_def count_of_def add_bytes_to_client_def add_bytes_def Let_def)

lemma bytes_of_split: "bytes_of (\<lambda>d. True) ps = bytes_of (\<lambda>d. d) ps + bytes_of Not ps"
  by (induction ps) (auto simp: bytes_of_def)

lemma count_of_split: "length ps = count_of (\<lambda>d. d) ps + count_of Not ps"
  by (induction ps) (auto simp: count_of_def)

lemma unat_of_nat64: "n < 2 ^ 64 \<Longrightarrow> unat (of_nat n :: u64) = n"
  by (simp add: unat_of_nat take_bit_eq_mod)

lemma saturating_sub_exact:
  assumes "x + y < 2 ^ 64"
  shows "unat (saturating_sub (of_nat (x + y) :: u64) (of_nat x)) = y"
proof -
  have "unat (of_nat (x + y) :: u64) = x + y" "unat (of_nat x :: u64) = x"
    using assms by (simp_all only: unat_of_nat64 add_lessD1)
  moreover from this have le: "(of_nat x :: u64) \<le> of_nat (x + y)"
    by (simp only: word_le_nat_alt)
  ultimately show ?thesis
    using unat_sub [OF le] unfolding saturating_sub_def by simp
qed

section \<open>Properties\<close>

text \<open>Concrete allocations for the examples below.\<close>

definition sample_alloc :: allocation where
  "sample_alloc = Allocation_new ''0000000000000001'' (SockV4 0x0A000001 5000) (SockV4 0xCB007101 49152)
     ''alice'' [] 600 ''example.org'' None 0 1700000000000"

definition sample_peer :: socket_addr where
  "sample_peer = SockV4 0xC0000201 4000"

definition sample_bound :: allocation where
  "sample_bound = sample_alloc\<lparr>
     al_permissions := grant_permission 0 (sock_ip sample_peer) fmempty,
     al_channel_bindings := fmupd 0x4000 (ChannelBinding_new 0 0x4000 sample_peer) fmempty,
     al_channels_reverse := fmupd sample_peer 0x4000 fmempty\<rparr>"

definition sample_full :: allocation where
  "sample_full = sample_alloc\<lparr>al_permissions := fmap_of_list
     (map (\<lambda>i. (IpV4 (of_nat i), Permission_new 0 (IpV4 (of_nat i)))) [0..<256])\<rparr>"

lemma sample_alloc_wf: "wf_alloc sample_alloc"
  unfolding sample_alloc_def by (rule Allocation_new_wf)

lemma sample_bound_step: "alloc_add_channel 0 0x4000 sample_peer sample_alloc = Ok sample_bound"
  by (simp add: alloc_add_channel_def channel_conflict_def sample_alloc_def Allocation_new_def
      sample_bound_def channel_count_def rust_const fcard.rep_eq)

lemma sample_bound_reached:
  "alloc_init (0, sample_alloc)" "alloc_step\<^sup>*\<^sup>* (0, sample_alloc) (0, sample_bound)"
  using al_channel [OF sample_bound_step] unfolding alloc_init_def sample_alloc_def by blast+

lemma sample_bound_wf: "wf_alloc sample_bound"
  using allocs.reachable_inv [OF sample_bound_reached] by simp

lemma sample_full_count: "permission_count sample_full = 256"
proof -
  have "inj_on (\<lambda>i. IpV4 (of_nat i)) (set [0..<256])"
    by (auto intro!: inj_onI simp: word_of_nat_eq_iff take_bit_eq_mod)
  then have "card ((\<lambda>i. IpV4 (of_nat i :: u32)) ` set [0..<256]) = 256"
    by (subst card_image) simp_all
  then show ?thesis
    by (simp add: permission_count_def sample_full_def fcard.rep_eq fset_of_list.rep_eq comp_def)
qed


text \<open>
  RFC 8656 section 12.2 holds of every allocation the program can reach: at any time a live
  channel leads to a peer exactly when that peer leads back to the channel, so no channel has two
  peers and no peer two channels, and there are never more than 256 bindings.
\<close>

theorem channel_peer_bijection:
  assumes "alloc_init s" and "alloc_step\<^sup>*\<^sup>* s (now, a)"
  shows "(\<forall>t ch p. get_channel_peer t a ch = Some p \<longleftrightarrow> get_peer_channel t a p = Some ch)
    \<and> channel_count a \<le> 256"
proof -
  have wf: "wf_alloc a" using allocs.reachable_inv [OF assms] by simp
  then show ?thesis using channel_peer_iff [OF wf] by (auto simp: wf_alloc_def rust_const)
qed

theorem channel_peer_bijection_witness:
  "get_channel_peer 5 sample_bound 0x4000 = Some sample_peer
   \<and> (\<forall>t ch p. get_channel_peer t sample_bound ch = Some p \<longleftrightarrow> get_peer_channel t sample_bound p = Some ch)"
proof -
  have "get_channel_peer 5 sample_bound 0x4000 = Some sample_peer"
    by (simp add: sample_bound_def get_channel_peer_def ChannelBinding_new_def
        ChannelBinding_is_expired_def rust_const from_secs_def)
  then show ?thesis using channel_peer_bijection [OF sample_bound_reached] by simp
qed



lemma cleanup_fresh:
  assumes "wf_alloc a"
  shows "\<not> has_stale_entries now (snd (cleanup_expired_entries now a))"
proof -
  from cleanup_spec [OF assms, of now] obtain n chans rv where
    c: "cleanup_expired_entries now a = (n, a\<lparr>al_permissions := live_perms now (al_permissions a),
        al_channel_bindings := chans, al_channels_reverse := rv\<rparr>)"
    and look: "\<forall>ch. fmlookup chans ch = live_binding now (fmlookup (al_channel_bindings a) ch)"
    by (elim exE conjE)
  show ?thesis
    by (auto simp: c has_stale_entries_def fmran'_alt_def fmlookup_ran'_iff live_perms_def look live_binding_def
        split: option.splits if_splits)
qed

text \<open>
  The expiry sweep of an allocation is invisible: at the time of the sweep and at any later time
  every permission and channel lookup answers as it would have without the sweep, and after it no
  expired entry is left.
\<close>

theorem cleanup_invisible:
  assumes wf: "wf_alloc a" and later: "now \<le> t"
  shows "has_permission t (snd (cleanup_expired_entries now a)) peer = has_permission t a peer
     \<and> get_channel_peer t (snd (cleanup_expired_entries now a)) ch = get_channel_peer t a ch
     \<and> get_peer_channel t (snd (cleanup_expired_entries now a)) peer = get_peer_channel t a peer
     \<and> \<not> has_stale_entries now (snd (cleanup_expired_entries now a))"
proof -
  from cleanup_spec [OF wf, of now] obtain n chans rv where
    c: "cleanup_expired_entries now a = (n, a\<lparr>al_permissions := live_perms now (al_permissions a),
        al_channel_bindings := chans, al_channels_reverse := rv\<rparr>)"
    and look: "\<forall>ch. fmlookup chans ch = live_binding now (fmlookup (al_channel_bindings a) ch)"
    by (elim exE conjE)
  let ?a = "snd (cleanup_expired_entries now a)"
  have peer: "get_channel_peer t ?a ch = get_channel_peer t a ch" for ch
    by (simp add: c get_channel_peer_live look live_later [OF later])
  moreover have "get_peer_channel t ?a peer = get_peer_channel t a peer"
    using peer channel_peer_iff [OF cleanup_wf [OF wf]] channel_peer_iff [OF wf]
    by (intro option_eqI) metis
  moreover have "has_permission t ?a peer = has_permission t a peer"
    using later by (auto simp: c has_permission_def live_perms_def Permission_is_expired_def split: option.split)
  ultimately show ?thesis using cleanup_fresh [OF wf] by simp
qed

theorem cleanup_invisible_witness:
  "get_channel_peer 7 (snd (cleanup_expired_entries 5 sample_bound)) 0x4000 = Some sample_peer
   \<and> \<not> has_stale_entries 5 (snd (cleanup_expired_entries 5 sample_bound))"
  using cleanup_invisible [OF sample_bound_wf, of 5 7 sample_peer "0x4000"]
  by (simp add: sample_bound_def get_channel_peer_def ChannelBinding_new_def ChannelBinding_is_expired_def rust_const from_secs_def)

text \<open>
  C32. The permission cap is not enforced by ChannelBind: an allocation already at the cap refuses a
  permission for a new peer, yet binding a channel to that peer grants it.
\<close>

theorem channel_bind_exceeds_permission_cap:
  assumes "permission_count a \<ge> MAX_PERMISSIONS_PER_ALLOCATION"
    and "fmlookup (al_permissions a) (sock_ip peer) = None"
    and "fmlookup (al_channel_bindings a) ch = None" and "fmlookup (al_channels_reverse a) peer = None"
    and "channel_count a < MAX_CHANNELS_PER_ALLOCATION"
  shows "alloc_add_permission now (sock_ip peer) a = Err LimitExceeded
     \<and> (\<exists>a'. alloc_add_channel now ch peer a = Ok a' \<and> permission_count a' = permission_count a + 1)"
  using assms
  by (simp add: alloc_add_permission_def alloc_add_channel_def channel_conflict_def Let_def
      permission_count_def grant_permission_def fcard_fmupd_new del: fmdom_fmupd)

theorem channel_bind_exceeds_permission_cap_witness:
  "\<exists>a'. alloc_add_channel 0 0x4000 sample_peer sample_full = Ok a' \<and> permission_count a' = 257"
proof -
  have "sock_ip sample_peer \<notin> set (map fst (map (\<lambda>i. (IpV4 (of_nat i :: u32), Permission_new 0 (IpV4 (of_nat i)))) [0..<256]))"
    by (auto simp: sample_peer_def unat_of_nat take_bit_eq_mod dest!: arg_cong [where f = unat])
  then have new: "fmlookup (al_permissions sample_full) (sock_ip sample_peer) = None"
    by (simp add: sample_full_def fmlookup_of_list map_of_eq_None_iff image_image)
  have empty: "al_channel_bindings sample_full = fmempty" "al_channels_reverse sample_full = fmempty"
    by (simp_all add: sample_full_def sample_alloc_def Allocation_new_def)
  have "channel_count sample_full = 0" by (simp add: channel_count_def empty fcard.rep_eq)
  with new empty show ?thesis
    using channel_bind_exceeds_permission_cap [of sample_full sample_peer "0x4000" 0]
    by (simp add: sample_full_count rust_const)
qed

text \<open>
  Usage is exact: from a fresh allocation, after any sequence of relayed packets whose payload and
  number stay below \<open>2 ^ 64\<close>, the usage record reports exactly the bytes and packets of each
  direction.
\<close>

theorem usage_exact:
  fixes ps :: "(bool \<times> u64) list"
  assumes "bytes_of (\<lambda>d. True) ps < 2 ^ 64" and "length ps < 2 ^ 64"
    and "al_bytes_relayed a = 0" "al_packets_relayed a = 0" "al_bytes_to_client a = 0" "al_packets_to_client a = 0"
  shows "unat (us_bytes_from_client (al_usage (fold relay_packet ps a))) = bytes_of Not ps
    \<and> unat (us_bytes_to_client (al_usage (fold relay_packet ps a))) = bytes_of (\<lambda>d. d) ps
    \<and> unat (us_packets_from_client (al_usage (fold relay_packet ps a))) = count_of Not ps
    \<and> unat (us_packets_to_client (al_usage (fold relay_packet ps a))) = count_of (\<lambda>d. d) ps"
proof -
  note c = relay_packets_counters [of ps a] and sp = bytes_of_split [of ps] and n = count_of_split [of ps]
  have b: "bytes_of (\<lambda>d. d) ps + bytes_of Not ps < 2 ^ 64" "count_of (\<lambda>d. d) ps + count_of Not ps < 2 ^ 64"
    using assms(1,2) sp n by simp_all
  show ?thesis
    unfolding al_usage_def allocation_usage.simps
    using c assms(3-6) saturating_sub_exact [OF b(1)] saturating_sub_exact [OF b(2)]
      unat_of_nat64 [OF add_lessD1 [OF b(1)]] unat_of_nat64 [OF add_lessD1 [OF b(2)]]
    by (simp only: sp n add_0)
qed

theorem usage_exact_witness:
  "unat (us_bytes_from_client (al_usage (fold relay_packet [(False, 100), (True, 7), (False, 20)] sample_alloc))) = 120"
  using usage_exact [of "[(False, 100), (True, 7), (False, 20)]" sample_alloc]
  by (simp add: bytes_of_def sample_alloc_def Allocation_new_def)
end
