(* ===== verification/Allocation_Store.thy ===== *)
theory Allocation_Store
  imports Port_Allocator User_Limits Allocation
begin

text \<open>
  The allocation store (\<^verbatim>\<open>AllocationStore\<close> of \<^verbatim>\<open>crates/session/src/lib.rs\<close>, with
  \<^verbatim>\<open>write_op.rs\<close>): the allocations by client address, the relay, channel, id and user indices, the
  admission counters, the port pools, and the two bounded channels that persistence and accounting
  events leave by. Each operation takes the clock readings it makes; where the code iterates over a
  map whose order is unspecified and the order shows, the order is an argument. The answer of the
  \<open>n\<close>-th \<^verbatim>\<open>try_send\<close> on a channel is a field of the channel, so nothing is assumed about when a
  queue is full or its reader gone.
\<close>

section \<open>Channels and events\<close>

datatype send_outcome = Sent | Full | Closed

record 'a channel =
  ch_outcome :: "nat \<Rightarrow> send_outcome"
  ch_tries :: nat
  ch_accepted :: "'a list"

definition try_send :: "'a \<Rightarrow> 'a channel \<Rightarrow> send_outcome \<times> 'a channel" where
  "try_send x tx =
     (let r = ch_outcome tx (ch_tries tx)
      in (r, tx\<lparr>ch_tries := ch_tries tx + 1,
                ch_accepted := (if r = Sent then ch_accepted tx @ [x] else ch_accepted tx)\<rparr>))"

datatype write_op =
    WCreate u16 socket_addr socket_addr string string u64 u64 string u64
  | WRefresh u16 u64
  | WRemove u16
  | WReKey u16 socket_addr u64
  | WPermission u16 ip_addr u64
  | WChannel u16 u16 socket_addr u64
  | WBarrier u64

fun write_relay_port :: "write_op \<Rightarrow> u16" where
  "write_relay_port (WCreate p _ _ _ _ _ _ _ _) = p"
| "write_relay_port (WRefresh p _) = p"
| "write_relay_port (WRemove p) = p"
| "write_relay_port (WReKey p _ _) = p"
| "write_relay_port (WPermission p _ _) = p"
| "write_relay_port (WChannel p _ _ _) = p"
| "write_relay_port (WBarrier _) = 0"

section \<open>State\<close>

type_synonym user_key = "string \<times> string option \<times> string"

record tenant_pool =
  tp_id :: string
  tp_ports :: port_allocator
  tp_max_allocations :: usize
  tp_quota :: bandwidth_quota

record tenant_traffic =
  tt_bytes :: u64
  tt_packets :: u64
  tt_closed_allocations :: u64

record allocation_store =
  st_allocations :: "(socket_addr, allocation) fmap"
  st_relay_to_client :: "(socket_addr, socket_addr) fmap"
  st_channel_to_client :: "(u16 \<times> u16, socket_addr) fmap"
  st_id_to_client :: "(string, socket_addr) fmap"
  st_next_id :: u64
  st_user_allocations :: "(user_key, socket_addr list) fmap"
  st_global_count :: usize
  st_tenant_counts :: "(string, usize) fmap"
  st_user_counts :: "(user_key, usize) fmap"
  st_ports :: port_allocator
  st_tenant_pools :: "tenant_pool list"
  st_runtime :: runtime_limits
  st_user_limits :: user_limits_snapshot
  st_write_tx :: "write_op channel option"
  st_dropped_writes :: u64
  st_tenant_traffic :: "(string, tenant_traffic) fmap"
  st_usage_tx :: "usage_record channel option"
  st_usage_dropped :: u64

definition AllocationStore_new :: "u32 \<Rightarrow> u16 \<Rightarrow> u16 \<Rightarrow> usize \<Rightarrow> allocation_store" where
  "AllocationStore_new rnd min_port max_port max_allocations =
     \<lparr> st_allocations = fmempty, st_relay_to_client = fmempty, st_channel_to_client = fmempty,
       st_id_to_client = fmempty, st_next_id = 1, st_user_allocations = fmempty,
       st_global_count = 0, st_tenant_counts = fmempty, st_user_counts = fmempty,
       st_ports = PortAllocator_new rnd min_port max_port, st_tenant_pools = [],
       st_runtime = \<lparr> rl_version = 0,
         rl_max_bytes_per_sec = bq_max_bytes_per_sec BandwidthQuota_default,
         rl_max_per_user = bq_max_per_user BandwidthQuota_default,
         rl_max_allocations = max_allocations \<rparr>,
       st_user_limits = UserLimitsSnapshot_empty, st_write_tx = None, st_dropped_writes = 0,
       st_tenant_traffic = fmempty, st_usage_tx = None, st_usage_dropped = 0 \<rparr>"

section \<open>Limits\<close>

definition publish_runtime :: "runtime_limits \<Rightarrow> allocation_store \<Rightarrow> allocation_store" where
  "publish_runtime next s = s\<lparr>st_runtime := next\<rparr>"

definition set_user_quota :: "u64 \<Rightarrow> usize \<Rightarrow> allocation_store \<Rightarrow> allocation_store" where
  "set_user_quota max_bps max_per_user s =
     (let next = (st_runtime s)\<lparr>rl_max_bytes_per_sec := max_bps, rl_max_per_user := max_per_user\<rparr>
      in s\<lparr>st_runtime := next\<rparr>)"

definition with_quota :: "bandwidth_quota \<Rightarrow> allocation_store \<Rightarrow> allocation_store" where
  "with_quota quota s = set_user_quota (bq_max_bytes_per_sec quota) (bq_max_per_user quota) s"

definition set_max_allocations :: "usize \<Rightarrow> allocation_store \<Rightarrow> allocation_store" where
  "set_max_allocations max_allocations s =
     s\<lparr>st_runtime := (st_runtime s)\<lparr>rl_max_allocations := max_allocations\<rparr>\<rparr>"

definition live_limits :: "allocation_store \<Rightarrow> u64 \<times> usize \<times> usize" where
  "live_limits s =
     (rl_max_bytes_per_sec (st_runtime s), rl_max_per_user (st_runtime s), rl_max_allocations (st_runtime s))"

definition set_bootstrap_max_lifetime :: "u32 \<Rightarrow> allocation_store \<Rightarrow> allocation_store" where
  "set_bootstrap_max_lifetime seconds s =
     s\<lparr>st_user_limits := (st_user_limits s)\<lparr>ls_bootstrap_max_lifetime_secs := seconds\<rparr>\<rparr>"

definition store_publish_user_limits ::
  "user_limits_snapshot \<Rightarrow> allocation_store \<Rightarrow> unit session_res \<times> allocation_store" where
  "store_publish_user_limits next s =
     (let (r, limits) = publish_user_limits next (st_user_limits s) in (r, s\<lparr>st_user_limits := limits\<rparr>))"

definition with_tenant_pool ::
  "u32 \<Rightarrow> string \<Rightarrow> u16 \<Rightarrow> u16 \<Rightarrow> usize \<Rightarrow> bandwidth_quota \<Rightarrow> allocation_store \<Rightarrow> allocation_store" where
  "with_tenant_pool rnd tid min_port max_port max_allocations quota s =
     s\<lparr>st_tenant_pools := st_tenant_pools s @
        [\<lparr> tp_id = tid, tp_ports = PortAllocator_new rnd min_port max_port,
           tp_max_allocations = max_allocations, tp_quota = quota \<rparr>]\<rparr>"

definition tenant_quota :: "allocation_store \<Rightarrow> string option \<Rightarrow> bandwidth_quota option" where
  "tenant_quota s tenant_id =
     (case tenant_id of None \<Rightarrow> None
      | Some tid \<Rightarrow> map_option tp_quota (List.find (\<lambda>p. tp_id p = tid) (st_tenant_pools s)))"

definition effective_for ::
  "allocation_store \<Rightarrow> string \<Rightarrow> string option \<Rightarrow> string \<Rightarrow> effective_user_limits" where
  "effective_for s realm tenant_id username =
     effective_limits (st_runtime s) (st_user_limits s) (tenant_quota s tenant_id) realm tenant_id username"

definition effective_max_per_user :: "allocation_store \<Rightarrow> string option \<Rightarrow> usize" where
  "effective_max_per_user s tenant_id = ef_max_allocations (effective_for s '''' tenant_id '''')"

definition bandwidth_limit_for :: "allocation_store \<Rightarrow> string option \<Rightarrow> u64" where
  "bandwidth_limit_for s tenant_id = ef_max_bytes_per_sec (effective_for s '''' tenant_id '''')"

definition bandwidth_policy_for_user ::
  "allocation_store \<Rightarrow> string \<Rightarrow> string option \<Rightarrow> string \<Rightarrow> u64 \<times> bool" where
  "bandwidth_policy_for_user s realm tenant_id username =
     (let effective = effective_for s realm tenant_id username
      in (ef_max_bytes_per_sec effective, ef_bandwidth_disabled effective))"

definition bandwidth_limit_for_user :: "allocation_store \<Rightarrow> string \<Rightarrow> string option \<Rightarrow> string \<Rightarrow> u64" where
  "bandwidth_limit_for_user s realm tenant_id username = fst (bandwidth_policy_for_user s realm tenant_id username)"

definition lifetime_policy_for_user ::
  "allocation_store \<Rightarrow> string \<Rightarrow> string option \<Rightarrow> string \<Rightarrow> u32 \<times> bool" where
  "lifetime_policy_for_user s realm tenant_id username =
     (let effective = effective_for s realm tenant_id username
      in (ef_max_lifetime_secs effective, ef_lifetime_disabled effective))"

definition max_lifetime_for_user :: "allocation_store \<Rightarrow> string \<Rightarrow> string option \<Rightarrow> string \<Rightarrow> u32" where
  "max_lifetime_for_user s realm tenant_id username = fst (lifetime_policy_for_user s realm tenant_id username)"

section \<open>Counters and pools\<close>

definition counter :: "('k, usize) fmap \<Rightarrow> 'k \<Rightarrow> usize" where
  "counter m k = (case fmlookup m k of None \<Rightarrow> 0 | Some n \<Rightarrow> n)"

definition current_user_usage :: "allocation_store \<Rightarrow> string \<Rightarrow> string option \<Rightarrow> string \<Rightarrow> usize" where
  "current_user_usage s realm tenant_id username = counter (st_user_counts s) (realm, tenant_id, username)"

definition current_tenant_usage :: "allocation_store \<Rightarrow> string \<Rightarrow> usize" where
  "current_tenant_usage s tenant_id = counter (st_tenant_counts s) tenant_id"

definition max_user_usage :: "allocation_store \<Rightarrow> usize" where
  "max_user_usage s =
     (if st_user_counts s = fmempty then 0 else Max (fmran' (st_user_counts s)))"

definition max_user_usage_in_tenant :: "allocation_store \<Rightarrow> string \<Rightarrow> string \<Rightarrow> usize" where
  "max_user_usage_in_tenant s realm tenant_id =
     (let m = fmfilter (\<lambda>(r, t, u). r = realm \<and> t = Some tenant_id) (st_user_counts s)
      in if m = fmempty then 0 else Max (fmran' m))"

definition pool :: "allocation_store \<Rightarrow> string option \<Rightarrow> port_allocator" where
  "pool s tenant_id =
     (case tenant_id of
        None \<Rightarrow> st_ports s
      | Some tid \<Rightarrow>
          (case List.find (\<lambda>p. tp_id p = tid) (st_tenant_pools s) of
             None \<Rightarrow> st_ports s | Some p \<Rightarrow> tp_ports p))"

definition pool_for_port :: "allocation_store \<Rightarrow> u16 \<Rightarrow> port_allocator" where
  "pool_for_port s port =
     (case List.find (\<lambda>p. pa_contains (tp_ports p) port) (st_tenant_pools s) of
        None \<Rightarrow> st_ports s | Some p \<Rightarrow> tp_ports p)"

definition tenant_id_for_port :: "allocation_store \<Rightarrow> u16 \<Rightarrow> string option" where
  "tenant_id_for_port s port =
     map_option tp_id (List.find (\<lambda>p. pa_contains (tp_ports p) port) (st_tenant_pools s))"

definition tenant_max_allocations :: "allocation_store \<Rightarrow> string \<Rightarrow> usize" where
  "tenant_max_allocations s tenant_id =
     (case List.find (\<lambda>p. tp_id p = tenant_id) (st_tenant_pools s) of
        None \<Rightarrow> 0 | Some p \<Rightarrow> tp_max_allocations p)"

text \<open>The pools are shared references in the code: an operation on the pool a lookup found changes it in place.\<close>

fun upd_first :: "('a \<Rightarrow> bool) \<Rightarrow> ('a \<Rightarrow> 'a) \<Rightarrow> 'a list \<Rightarrow> 'a list" where
  "upd_first P f [] = []"
| "upd_first P f (x # xs) = (if P x then f x # xs else x # upd_first P f xs)"

definition upd_pool_for_port ::
  "u16 \<Rightarrow> (port_allocator \<Rightarrow> port_allocator) \<Rightarrow> allocation_store \<Rightarrow> allocation_store" where
  "upd_pool_for_port port f s =
     (let P = (\<lambda>p. pa_contains (tp_ports p) port)
      in if List.find P (st_tenant_pools s) = None then s\<lparr>st_ports := f (st_ports s)\<rparr>
         else s\<lparr>st_tenant_pools :=
                  upd_first P (\<lambda>p. p\<lparr>tp_ports := f (tp_ports p)\<rparr>) (st_tenant_pools s)\<rparr>)"

definition upd_pool ::
  "string option \<Rightarrow> (port_allocator \<Rightarrow> port_allocator) \<Rightarrow> allocation_store \<Rightarrow> allocation_store" where
  "upd_pool tenant_id f s =
     (case tenant_id of
        None \<Rightarrow> s\<lparr>st_ports := f (st_ports s)\<rparr>
      | Some tid \<Rightarrow>
          if List.find (\<lambda>p. tp_id p = tid) (st_tenant_pools s) = None then s\<lparr>st_ports := f (st_ports s)\<rparr>
          else s\<lparr>st_tenant_pools :=
                   upd_first (\<lambda>p. tp_id p = tid) (\<lambda>p. p\<lparr>tp_ports := f (tp_ports p)\<rparr>) (st_tenant_pools s)\<rparr>)"

section \<open>Events\<close>

definition attach_writer :: "write_op channel \<Rightarrow> allocation_store \<Rightarrow> allocation_store" where
  "attach_writer tx s = (if st_write_tx s = None then s\<lparr>st_write_tx := Some tx\<rparr> else s)"

definition attach_usage_sink :: "usage_record channel \<Rightarrow> allocation_store \<Rightarrow> allocation_store" where
  "attach_usage_sink tx s = (if st_usage_tx s = None then s\<lparr>st_usage_tx := Some tx\<rparr> else s)"

definition emit_write :: "write_op \<Rightarrow> allocation_store \<Rightarrow> allocation_store" where
  "emit_write op s =
     (case st_write_tx s of
        None \<Rightarrow> s
      | Some tx \<Rightarrow>
          let (r, tx) = try_send op tx; s = s\<lparr>st_write_tx := Some tx\<rparr>
          in case r of
               Sent \<Rightarrow> s
             | Full \<Rightarrow> s\<lparr>st_dropped_writes := st_dropped_writes s + 1\<rparr>
             | Closed \<Rightarrow> s)"

definition emit_reconcile_barrier :: "u64 \<Rightarrow> allocation_store \<Rightarrow> bool \<times> allocation_store" where
  "emit_reconcile_barrier generation s =
     (case st_write_tx s of
        None \<Rightarrow> (False, s)
      | Some tx \<Rightarrow>
          let (r, tx) = try_send (WBarrier generation) tx
          in (r = Sent, s\<lparr>st_write_tx := Some tx\<rparr>))"

definition emit_usage_stop :: "u64 \<Rightarrow> allocation \<Rightarrow> usage_end_reason \<Rightarrow> allocation_store \<Rightarrow> allocation_store" where
  "emit_usage_stop now_ms alloc reason s =
     (case st_usage_tx s of
        None \<Rightarrow> s
      | Some tx \<Rightarrow>
          let (r, tx) = try_send (UsageRecord_from_allocation alloc Stop (Some reason) now_ms) tx;
              s = s\<lparr>st_usage_tx := Some tx\<rparr>
          in case r of
               Sent \<Rightarrow> s
             | Full \<Rightarrow> s\<lparr>st_usage_dropped := st_usage_dropped s + 1\<rparr>
             | Closed \<Rightarrow> s\<lparr>st_usage_dropped := st_usage_dropped s + 1\<rparr>)"

definition accrue_tenant_traffic :: "allocation \<Rightarrow> allocation_store \<Rightarrow> allocation_store" where
  "accrue_tenant_traffic alloc s =
     (case al_tenant_id alloc of
        None \<Rightarrow> s
      | Some tenant \<Rightarrow>
          let e = (case fmlookup (st_tenant_traffic s) tenant of
                     None \<Rightarrow> \<lparr> tt_bytes = 0, tt_packets = 0, tt_closed_allocations = 0 \<rparr> | Some e \<Rightarrow> e);
              e = e\<lparr>tt_bytes := saturating_add (tt_bytes e) (al_bytes_relayed alloc),
                    tt_packets := saturating_add (tt_packets e) (al_packets_relayed alloc),
                    tt_closed_allocations := saturating_add (tt_closed_allocations e) 1\<rparr>
          in s\<lparr>st_tenant_traffic := fmupd tenant e (st_tenant_traffic s)\<rparr>)"

definition on_allocation_closed ::
  "u64 \<Rightarrow> allocation \<Rightarrow> usage_end_reason \<Rightarrow> allocation_store \<Rightarrow> allocation_store" where
  "on_allocation_closed now_ms alloc reason s =
     emit_usage_stop now_ms alloc reason (accrue_tenant_traffic alloc s)"

definition interim_usage_records :: "socket_addr list \<Rightarrow> u64 \<Rightarrow> allocation_store \<Rightarrow> usage_record list" where
  "interim_usage_records order now_ms s =
     map (\<lambda>a. UsageRecord_from_allocation a Interim None now_ms)
       (List.map_filter (fmlookup (st_allocations s)) order)"

definition live_relay_ports :: "socket_addr list \<Rightarrow> allocation_store \<Rightarrow> u16 list" where
  "live_relay_ports order s =
     map (\<lambda>a. sock_port (al_relay_addr a)) (List.map_filter (fmlookup (st_allocations s)) order)"

definition as_millis :: "nat \<Rightarrow> u64" where
  "as_millis ns = of_nat (ns div 10 ^ 6)"

definition to_epoch :: "instant \<Rightarrow> u64 \<Rightarrow> instant \<Rightarrow> u64" where
  "to_epoch now_i now_e t =
     (if t \<ge> now_i then now_e + as_millis (t - now_i)
      else saturating_sub now_e (as_millis (now_i - t)))"

definition resync_ops ::
  "(allocation \<Rightarrow> ip_addr list) \<Rightarrow> (allocation \<Rightarrow> u16 list) \<Rightarrow> instant \<Rightarrow> u64 \<Rightarrow> allocation \<Rightarrow> write_op list" where
  "resync_ops perm_order chan_order now_i now_e a =
     (let relay_port = sock_port (al_relay_addr a)
      in WCreate relay_port (al_client_addr a) (al_relay_addr a) (al_username a) (al_realm a)
           (to_epoch now_i now_e (al_created_at a)) (to_epoch now_i now_e (al_expires_at a))
           (al_allocation_id a) (al_migration_epoch a)
         # List.map_filter (\<lambda>ip. map_option (\<lambda>p. WPermission relay_port ip (to_epoch now_i now_e (pm_expires_at p)))
             (fmlookup (al_permissions a) ip)) (perm_order a)
         @ List.map_filter (\<lambda>ch. map_option (\<lambda>b. WChannel relay_port ch (cb_peer_addr b) (to_epoch now_i now_e (cb_expires_at b)))
             (fmlookup (al_channel_bindings a) ch)) (chan_order a))"

definition resync_all ::
  "socket_addr list \<Rightarrow> (allocation \<Rightarrow> ip_addr list) \<Rightarrow> (allocation \<Rightarrow> u16 list) \<Rightarrow> instant \<Rightarrow> u64
   \<Rightarrow> allocation_store \<Rightarrow> allocation_store" where
  "resync_all order perm_order chan_order now_i now_e s =
     (if st_write_tx s = None then s
      else fold emit_write
             (concat (map (resync_ops perm_order chan_order now_i now_e)
                (List.map_filter (fmlookup (st_allocations s)) order))) s)"


section \<open>Creation\<close>

definition hex_nibble :: "nat \<Rightarrow> char" where
  "hex_nibble n = ''0123456789abcdef'' ! n"

definition hex_byte :: "u8 \<Rightarrow> string" where
  "hex_byte b = [hex_nibble (unat b div 16), hex_nibble (unat b mod 16)]"

definition hex16 :: "u64 \<Rightarrow> string" where
  "hex16 n = concat (map hex_byte (be_bytes 8 n))"

definition mint_id :: "allocation_store \<Rightarrow> string \<times> allocation_store" where
  "mint_id s = (hex16 (st_next_id s), s\<lparr>st_next_id := st_next_id s + 1\<rparr>)"

record counter_reservation =
  cr_user_key :: user_key
  cr_tenant_id :: "string option"
  cr_user_reserved :: bool
  cr_tenant_reserved :: bool
  cr_global_reserved :: bool
  cr_committed :: bool

definition fetch_sub_entry :: "'k \<Rightarrow> ('k, usize) fmap \<Rightarrow> ('k, usize) fmap" where
  "fetch_sub_entry k m = (case fmlookup m k of None \<Rightarrow> m | Some n \<Rightarrow> fmupd k (n - 1) m)"

definition CounterReservation_drop :: "counter_reservation \<Rightarrow> allocation_store \<Rightarrow> allocation_store" where
  "CounterReservation_drop r s =
     (if cr_committed r then s
      else
        let s = (if cr_global_reserved r then s\<lparr>st_global_count := st_global_count s - 1\<rparr> else s);
            s = (if cr_tenant_reserved r
                 then (case cr_tenant_id r of None \<Rightarrow> s
                       | Some tid \<Rightarrow> s\<lparr>st_tenant_counts := fetch_sub_entry tid (st_tenant_counts s)\<rparr>)
                 else s)
        in if cr_user_reserved r
           then s\<lparr>st_user_counts := fetch_sub_entry (cr_user_key r) (st_user_counts s)\<rparr> else s)"

text \<open>
  A refused reservation adds one to the counter and takes it off again; what remains is the entry
  that \<^verbatim>\<open>or_insert_with\<close> made. The guard dropped on an early return takes back what was reserved
  before it.
\<close>

definition reserve_global ::
  "usize \<Rightarrow> counter_reservation \<Rightarrow> allocation_store \<Rightarrow> counter_reservation session_res \<times> allocation_store" where
  "reserve_global max_global guard s =
     (if max_global > 0 \<and> st_global_count s \<ge> max_global
      then (Err MaxAllocations, CounterReservation_drop guard s)
      else (Ok (guard\<lparr>cr_global_reserved := True\<rparr>), s\<lparr>st_global_count := st_global_count s + 1\<rparr>))"

definition reserve_counters ::
  "string \<Rightarrow> string option \<Rightarrow> string \<Rightarrow> usize \<Rightarrow> bool \<Rightarrow> usize \<Rightarrow> allocation_store
   \<Rightarrow> counter_reservation session_res \<times> allocation_store" where
  "reserve_counters realm tenant_id username max_per_user allocations_disabled max_global s =
     (if allocations_disabled then (Err MaxAllocationsPerUser, s)
      else
        let user_key = (realm, tenant_id, username);
            user = counter (st_user_counts s) user_key
        in if max_per_user > 0 \<and> user \<ge> max_per_user
           then (Err MaxAllocationsPerUser, s\<lparr>st_user_counts := fmupd user_key user (st_user_counts s)\<rparr>)
           else
             let s = s\<lparr>st_user_counts := fmupd user_key (user + 1) (st_user_counts s)\<rparr>;
                 guard = \<lparr> cr_user_key = user_key, cr_tenant_id = tenant_id, cr_user_reserved = True,
                           cr_tenant_reserved = False, cr_global_reserved = False, cr_committed = False \<rparr>
             in case tenant_id of
                  None \<Rightarrow> reserve_global max_global guard s
                | Some tid \<Rightarrow>
                    let cap = tenant_max_allocations s tid; n = counter (st_tenant_counts s) tid
                    in if cap > 0 \<and> n \<ge> cap
                       then (Err MaxAllocations, CounterReservation_drop guard
                               (s\<lparr>st_tenant_counts := fmupd tid n (st_tenant_counts s)\<rparr>))
                       else reserve_global max_global (guard\<lparr>cr_tenant_reserved := True\<rparr>)
                              (s\<lparr>st_tenant_counts := fmupd tid (n + 1) (st_tenant_counts s)\<rparr>))"

definition release_counters :: "string \<Rightarrow> string option \<Rightarrow> string \<Rightarrow> allocation_store \<Rightarrow> allocation_store" where
  "release_counters realm tenant_id username s =
     (let s = s\<lparr>st_global_count := st_global_count s - 1\<rparr>;
          s = (case tenant_id of None \<Rightarrow> s
               | Some tid \<Rightarrow> s\<lparr>st_tenant_counts := fetch_sub_entry tid (st_tenant_counts s)\<rparr>)
      in s\<lparr>st_user_counts := fetch_sub_entry (realm, tenant_id, username) (st_user_counts s)\<rparr>)"

definition user_key_of :: "allocation \<Rightarrow> user_key" where
  "user_key_of a = (al_realm a, al_tenant_id a, al_username a)"

definition push_user :: "user_key \<Rightarrow> socket_addr \<Rightarrow> (user_key, socket_addr list) fmap \<Rightarrow> (user_key, socket_addr list) fmap" where
  "push_user k c m = fmupd k ((case fmlookup m k of None \<Rightarrow> [] | Some cs \<Rightarrow> cs) @ [c]) m"

definition as_secs_ms :: "u32 \<Rightarrow> u64" where
  "as_secs_ms lifetime = ucast lifetime * 1000"

text \<open>The indices \<^verbatim>\<open>create_for_identity\<close> and \<^verbatim>\<open>rehydrate\<close> install while they hold the vacant slot.\<close>

definition install :: "allocation \<Rightarrow> allocation_store \<Rightarrow> allocation_store" where
  "install a s =
     (let c = al_client_addr a; relay = al_relay_addr a
      in s\<lparr>st_relay_to_client := fmupd relay c (st_relay_to_client s),
           st_id_to_client := fmupd (al_allocation_id a) c (st_id_to_client s),
           st_channel_to_client :=
             fold (\<lambda>ch. fmupd (sock_port relay, ch) c) (channel_numbers a) (st_channel_to_client s),
           st_user_allocations := push_user (user_key_of a) c (st_user_allocations s),
           st_allocations := fmupd c a (st_allocations s)\<rparr>)"

definition create_for_identity ::
  "instant \<Rightarrow> u64 \<Rightarrow> u64 \<Rightarrow> socket_addr \<Rightarrow> socket_addr \<Rightarrow> string \<Rightarrow> bytes \<Rightarrow> u32 \<Rightarrow> string \<Rightarrow> string option
   \<Rightarrow> allocation_store \<Rightarrow> unit session_res \<times> allocation_store" where
  "create_for_identity now now_ms now_epoch client_addr relay_addr username key lifetime realm tenant_id s =
     (let effective = effective_for s realm tenant_id username
      in case reserve_counters realm tenant_id username (ef_max_allocations effective)
                (ef_allocations_disabled effective \<or> ef_lifetime_disabled effective)
                (rl_max_allocations (st_runtime s)) s of
           (Err e, s) \<Rightarrow> (Err e, s)
         | (Panic, s) \<Rightarrow> (Panic, s)
         | (Ok reservation, s) \<Rightarrow>
             let (allocation_id, s) = mint_id s;
                 alloc = Allocation_new allocation_id client_addr relay_addr username key lifetime realm
                           tenant_id now now_ms
             in if fmlookup (st_allocations s) client_addr \<noteq> None
                then (Err AllocationExists, CounterReservation_drop reservation s)
                else (Ok (), emit_write
                        (WCreate (sock_port relay_addr) client_addr relay_addr username realm now_epoch
                           (now_epoch + as_secs_ms lifetime) allocation_id 0)
                        (install alloc s)))"

definition create_for_tenant ::
  "instant \<Rightarrow> u64 \<Rightarrow> u64 \<Rightarrow> socket_addr \<Rightarrow> socket_addr \<Rightarrow> string \<Rightarrow> bytes \<Rightarrow> u32 \<Rightarrow> string option
   \<Rightarrow> allocation_store \<Rightarrow> unit session_res \<times> allocation_store" where
  "create_for_tenant now now_ms now_epoch client_addr relay_addr username key lifetime tenant_id s =
     create_for_identity now now_ms now_epoch client_addr relay_addr username key lifetime '''' tenant_id s"

definition create ::
  "instant \<Rightarrow> u64 \<Rightarrow> u64 \<Rightarrow> socket_addr \<Rightarrow> socket_addr \<Rightarrow> string \<Rightarrow> bytes \<Rightarrow> u32
   \<Rightarrow> allocation_store \<Rightarrow> unit session_res \<times> allocation_store" where
  "create now now_ms now_epoch client_addr relay_addr username key lifetime s =
     create_for_identity now now_ms now_epoch client_addr relay_addr username key lifetime '''' None s"

section \<open>Restoring a persisted allocation\<close>

definition from_millis :: "u64 \<Rightarrow> nat" where
  "from_millis ms = unat ms * 10 ^ 6"

definition restore_perms :: "u64 \<Rightarrow> instant \<Rightarrow> (ip_addr \<times> u64) list \<Rightarrow> (ip_addr, permission) fmap" where
  "restore_perms now_epoch now_inst permissions =
     fold (\<lambda>(peer_ip, perm_expires) m.
             if perm_expires \<le> now_epoch then m
             else fmupd peer_ip \<lparr> pm_peer_ip = peer_ip,
                    pm_expires_at = now_inst + from_millis (perm_expires - now_epoch) \<rparr> m)
       permissions fmempty"

definition restore_channels ::
  "u64 \<Rightarrow> instant \<Rightarrow> (u16 \<times> socket_addr \<times> u64) list
   \<Rightarrow> (u16, channel_binding) fmap \<times> (socket_addr, u16) fmap" where
  "restore_channels now_epoch now_inst channels =
     fold (\<lambda>(number, peer_addr, chan_expires) (bs, rv).
             if chan_expires \<le> now_epoch then (bs, rv)
             else (fmupd number \<lparr> cb_channel = number, cb_peer_addr = peer_addr,
                     cb_expires_at = now_inst + from_millis (chan_expires - now_epoch) \<rparr> bs,
                   fmupd peer_addr number rv))
       channels (fmempty, fmempty)"

definition restored_allocation ::
  "u64 \<Rightarrow> instant \<Rightarrow> string \<Rightarrow> socket_addr \<Rightarrow> socket_addr \<Rightarrow> string \<Rightarrow> string \<Rightarrow> string option \<Rightarrow> u64 \<Rightarrow> u64 \<Rightarrow> u64
   \<Rightarrow> (ip_addr \<times> u64) list \<Rightarrow> (u16 \<times> socket_addr \<times> u64) list \<Rightarrow> allocation" where
  "restored_allocation now_epoch now_inst alloc_id client_addr relay_addr username realm tenant_id
      migration_epoch created_at_ms expires_at_ms permissions channels =
     (let age = from_millis (saturating_sub now_epoch created_at_ms);
          (bs, rv) = restore_channels now_epoch now_inst channels
      in \<lparr> al_allocation_id = alloc_id, al_migration_epoch = migration_epoch,
           al_client_addr = client_addr, al_relay_addr = relay_addr, al_username = username,
           al_key = [], al_realm = realm, al_tenant_id = tenant_id, al_transport = Udp,
           al_permissions = restore_perms now_epoch now_inst permissions,
           al_channel_bindings = bs, al_channels_reverse = rv,
           al_expires_at = now_inst + from_millis (expires_at_ms - now_epoch),
           al_created_at = (if age \<le> now_inst then now_inst - age else now_inst),
           al_created_at_ms = (if created_at_ms = 0 then now_epoch else created_at_ms),
           al_bytes_relayed = 0, al_packets_relayed = 0, al_bytes_to_client = 0,
           al_packets_to_client = 0, al_bandwidth_window_bytes = 0,
           al_bandwidth_window_start = now_inst \<rparr>)"

definition rehydrate ::
  "u64 \<Rightarrow> instant \<Rightarrow> socket_addr \<Rightarrow> socket_addr \<Rightarrow> string \<Rightarrow> string \<Rightarrow> string \<Rightarrow> u64 \<Rightarrow> u64 \<Rightarrow> u64
   \<Rightarrow> (ip_addr \<times> u64) list \<Rightarrow> (u16 \<times> socket_addr \<times> u64) list
   \<Rightarrow> allocation_store \<Rightarrow> bool session_res \<times> allocation_store" where
  "rehydrate now_epoch now_inst client_addr relay_addr username realm allocation_id migration_epoch
      created_at_ms expires_at_ms permissions channels s =
     (if expires_at_ms \<le> now_epoch then (Ok False, s)
      else
        let port = sock_port relay_addr;
            tenant_id = tenant_id_for_port s port;
            effective = effective_for s realm tenant_id username
        in case reserve_counters realm tenant_id username (ef_max_allocations effective)
                  (ef_allocations_disabled effective \<or> ef_lifetime_disabled effective)
                  (rl_max_allocations (st_runtime s)) s of
             (Err e, s) \<Rightarrow> (Err e, s)
           | (Panic, s) \<Rightarrow> (Panic, s)
           | (Ok reservation, s) \<Rightarrow>
               (case pa_reserve port (pool_for_port s port) of
                  (Err e, _) \<Rightarrow> (Err e, CounterReservation_drop reservation s)
                | (Panic, _) \<Rightarrow> (Panic, s)
                | (Ok _, pa) \<Rightarrow>
                    let s = upd_pool_for_port port (\<lambda>_. pa) s;
                        (alloc_id, s) = (if allocation_id = [] then mint_id s else (allocation_id, s));
                        alloc = restored_allocation now_epoch now_inst alloc_id client_addr relay_addr
                                  username realm tenant_id migration_epoch created_at_ms expires_at_ms
                                  permissions channels
                    in if fmlookup (st_allocations s) client_addr \<noteq> None
                       then (Err AllocationExists,
                             CounterReservation_drop reservation
                               (upd_pool_for_port port (\<lambda>pa. pa_release pa port) s))
                       else (Ok True, install alloc s)))"


section \<open>Lookups\<close>

definition st_get :: "allocation_store \<Rightarrow> socket_addr \<Rightarrow> allocation option" where
  "st_get s client_addr = fmlookup (st_allocations s) client_addr"

definition get_by_relay :: "allocation_store \<Rightarrow> socket_addr \<Rightarrow> socket_addr option" where
  "get_by_relay s relay_addr = fmlookup (st_relay_to_client s) relay_addr"

definition get_by_channel :: "allocation_store \<Rightarrow> u16 \<Rightarrow> u16 \<Rightarrow> socket_addr option" where
  "get_by_channel s relay_port channel = fmlookup (st_channel_to_client s) (relay_port, channel)"

definition get_by_id :: "allocation_store \<Rightarrow> string \<Rightarrow> socket_addr option" where
  "get_by_id s allocation_id = fmlookup (st_id_to_client s) allocation_id"

section \<open>Removal\<close>

definition drop_user :: "user_key \<Rightarrow> socket_addr \<Rightarrow> (user_key, socket_addr list) fmap \<Rightarrow> (user_key, socket_addr list) fmap" where
  "drop_user k c m = (case fmlookup m k of None \<Rightarrow> m | Some cs \<Rightarrow> fmupd k (filter (\<lambda>x. x \<noteq> c) cs) m)"

definition drop_channels :: "u16 \<Rightarrow> u16 list \<Rightarrow> (u16 \<times> u16, socket_addr) fmap \<Rightarrow> (u16 \<times> u16, socket_addr) fmap" where
  "drop_channels port chs m = fold (\<lambda>ch. fmdrop (port, ch)) chs m"

text \<open>
  What \<^verbatim>\<open>remove\<close>, \<^verbatim>\<open>force_remove\<close> and the failed migration do to an allocation that has left the
  primary map: counters, usage, indices, port, user list and persistence event. The three sites
  perform these updates of separate maps in slightly different orders.
\<close>

definition tear_down ::
  "u64 \<Rightarrow> usage_end_reason \<Rightarrow> socket_addr \<Rightarrow> socket_addr \<Rightarrow> allocation \<Rightarrow> allocation_store \<Rightarrow> allocation_store" where
  "tear_down now_ms reason client_addr relay_addr alloc s =
     (let port = sock_port relay_addr;
          s = release_counters (al_realm alloc) (al_tenant_id alloc) (al_username alloc) s;
          s = on_allocation_closed now_ms alloc reason s;
          s = s\<lparr>st_channel_to_client := drop_channels port (channel_numbers alloc) (st_channel_to_client s),
                st_relay_to_client := fmdrop relay_addr (st_relay_to_client s),
                st_id_to_client := fmdrop (al_allocation_id alloc) (st_id_to_client s)\<rparr>;
          s = upd_pool_for_port port (\<lambda>pa. pa_release pa port) s;
          s = s\<lparr>st_user_allocations := drop_user (user_key_of alloc) client_addr (st_user_allocations s)\<rparr>
      in emit_write (WRemove port) s)"

definition st_remove ::
  "instant \<Rightarrow> u64 \<Rightarrow> socket_addr \<Rightarrow> socket_addr \<Rightarrow> allocation_store \<Rightarrow> unit session_res \<times> allocation_store" where
  "st_remove now now_ms client_addr relay_addr s =
     (case fmlookup (st_allocations s) client_addr of
        None \<Rightarrow> (Ok (), s)
      | Some alloc \<Rightarrow>
          (Ok (), tear_down now_ms (if Allocation_is_expired now alloc then Expired else Released)
             client_addr relay_addr alloc
             (s\<lparr>st_allocations := fmdrop client_addr (st_allocations s)\<rparr>)))"

definition force_remove :: "u64 \<Rightarrow> socket_addr \<Rightarrow> allocation_store \<Rightarrow> allocation_store" where
  "force_remove now_ms client_addr s =
     (case fmlookup (st_allocations s) client_addr of
        None \<Rightarrow> s
      | Some alloc \<Rightarrow>
          tear_down now_ms AdminDeleted client_addr (al_relay_addr alloc) alloc
            (s\<lparr>st_allocations := fmdrop client_addr (st_allocations s)\<rparr>))"

section \<open>Migration\<close>

text \<open>
  \<^verbatim>\<open>re_key\<close> holds no lock between taking the allocation out and claiming the new slot, nor between
  a refused claim and putting it back: \<open>env1\<close> and \<open>env2\<close> are what the other threads do to the store
  at these two points.
\<close>

definition retarget :: "socket_addr \<Rightarrow> socket_addr \<Rightarrow> socket_addr list \<Rightarrow> socket_addr list" where
  "retarget old_addr new_addr cs = map (\<lambda>a. if a = old_addr then new_addr else a) cs"

definition move_indices :: "socket_addr \<Rightarrow> allocation \<Rightarrow> allocation_store \<Rightarrow> allocation_store" where
  "move_indices old_addr alloc s =
     (let new_addr = al_client_addr alloc; relay = al_relay_addr alloc
      in s\<lparr>st_relay_to_client := fmupd relay new_addr (st_relay_to_client s),
           st_channel_to_client :=
             fold (\<lambda>ch. fmupd (sock_port relay, ch) new_addr) (channel_numbers alloc) (st_channel_to_client s),
           st_id_to_client := fmupd (al_allocation_id alloc) new_addr (st_id_to_client s),
           st_user_allocations :=
             (case fmlookup (st_user_allocations s) (user_key_of alloc) of
                None \<Rightarrow> st_user_allocations s
              | Some cs \<Rightarrow> fmupd (user_key_of alloc) (retarget old_addr new_addr cs) (st_user_allocations s)),
           st_allocations := fmupd new_addr alloc (st_allocations s)\<rparr>)"

definition re_key ::
  "u64 \<Rightarrow> (allocation_store \<Rightarrow> allocation_store) \<Rightarrow> (allocation_store \<Rightarrow> allocation_store)
   \<Rightarrow> socket_addr \<Rightarrow> socket_addr \<Rightarrow> allocation_store \<Rightarrow> socket_addr session_res \<times> allocation_store" where
  "re_key now_ms env1 env2 old_addr new_addr s =
     (if old_addr = new_addr then
        (case fmlookup (st_allocations s) old_addr of
           None \<Rightarrow> (Err NotFound, s) | Some a \<Rightarrow> (Ok (al_relay_addr a), s))
      else
        case fmlookup (st_allocations s) old_addr of
          None \<Rightarrow> (Err NotFound, s)
        | Some a \<Rightarrow>
            let s = s\<lparr>st_allocations := fmdrop old_addr (st_allocations s)\<rparr>;
                alloc = a\<lparr>al_client_addr := new_addr, al_migration_epoch := al_migration_epoch a + 1\<rparr>;
                relay_port = sock_port (al_relay_addr alloc);
                s = env1 s
            in if fmlookup (st_allocations s) new_addr = None then
                 (Ok (al_relay_addr alloc),
                  emit_write (WReKey relay_port new_addr (al_migration_epoch alloc))
                    (move_indices old_addr alloc s))
               else
                 let alloc = alloc\<lparr>al_client_addr := old_addr,
                                   al_migration_epoch := al_migration_epoch alloc - 1\<rparr>;
                     s = env2 s
                 in (Err MigrationTargetInUse,
                     if fmlookup (st_allocations s) old_addr = None
                     then s\<lparr>st_allocations := fmupd old_addr alloc (st_allocations s)\<rparr>
                     else tear_down now_ms MigrationLost old_addr (al_relay_addr alloc) alloc s))"

section \<open>Operations on one allocation\<close>

definition upd_alloc :: "socket_addr \<Rightarrow> allocation \<Rightarrow> allocation_store \<Rightarrow> allocation_store" where
  "upd_alloc client_addr a s = s\<lparr>st_allocations := fmupd client_addr a (st_allocations s)\<rparr>"

definition set_transport :: "socket_addr \<Rightarrow> transport_proto \<Rightarrow> allocation_store \<Rightarrow> bool \<times> allocation_store" where
  "set_transport client_addr transport s =
     (case fmlookup (st_allocations s) client_addr of
        None \<Rightarrow> (False, s)
      | Some a \<Rightarrow> (True, upd_alloc client_addr (a\<lparr>al_transport := transport\<rparr>) s))"

definition st_add_permission ::
  "instant \<Rightarrow> u64 \<Rightarrow> socket_addr \<Rightarrow> ip_addr \<Rightarrow> allocation_store \<Rightarrow> unit session_res \<times> allocation_store" where
  "st_add_permission now now_ms client_addr peer_ip s =
     (case fmlookup (st_allocations s) client_addr of
        None \<Rightarrow> (Err NotFound, s)
      | Some a \<Rightarrow>
          (case alloc_add_permission now peer_ip a of
             Err e \<Rightarrow> (Err e, s)
           | Panic \<Rightarrow> (Panic, s)
           | Ok a \<Rightarrow>
               (Ok (), emit_write (WPermission (sock_port (al_relay_addr a)) peer_ip
                          (now_ms + as_millis PERMISSION_LIFETIME))
                        (upd_alloc client_addr a s))))"

definition st_add_channel ::
  "instant \<Rightarrow> u64 \<Rightarrow> socket_addr \<Rightarrow> u16 \<Rightarrow> socket_addr \<Rightarrow> allocation_store \<Rightarrow> unit session_res \<times> allocation_store" where
  "st_add_channel now now_epoch client_addr channel peer_addr s =
     (case fmlookup (st_allocations s) client_addr of
        None \<Rightarrow> (Err NotFound, s)
      | Some a \<Rightarrow>
          (case alloc_add_channel now channel peer_addr a of
             Err e \<Rightarrow> (Err e, s)
           | Panic \<Rightarrow> (Panic, s)
           | Ok a \<Rightarrow>
               let relay_port = sock_port (al_relay_addr a);
                   s = upd_alloc client_addr a s;
                   s = s\<lparr>st_channel_to_client := fmupd (relay_port, channel) client_addr (st_channel_to_client s)\<rparr>;
                   s = emit_write (WPermission relay_port (sock_ip peer_addr)
                         (now_epoch + as_millis PERMISSION_LIFETIME)) s
               in (Ok (), emit_write (WChannel relay_port channel peer_addr
                            (now_epoch + as_millis CHANNEL_LIFETIME)) s)))"

definition st_check_bandwidth ::
  "instant \<Rightarrow> socket_addr \<Rightarrow> allocation_store \<Rightarrow> unit session_res \<times> allocation_store" where
  "st_check_bandwidth now client_addr s =
     (case fmlookup (st_allocations s) client_addr of
        None \<Rightarrow> (Err NotFound, s)
      | Some a \<Rightarrow>
          let (limit, disabled) = bandwidth_policy_for_user s (al_realm a) (al_tenant_id a) (al_username a)
          in if disabled then (Err (BandwidthExceeded (al_username a)), s)
             else if limit = 0 then (Ok (), s)
             else (case alloc_check_bandwidth now limit a of
                     (Ok _, a) \<Rightarrow> (Ok (), upd_alloc client_addr a s)
                   | (_, a) \<Rightarrow> (Err (BandwidthExceeded (al_username a)), upd_alloc client_addr a s)))"

definition st_refresh ::
  "instant \<Rightarrow> u64 \<Rightarrow> socket_addr \<Rightarrow> u32 \<Rightarrow> allocation_store \<Rightarrow> unit session_res \<times> allocation_store" where
  "st_refresh now now_ms client_addr lifetime s =
     (case fmlookup (st_allocations s) client_addr of
        None \<Rightarrow> (Err NotFound, s)
      | Some a \<Rightarrow>
          if lifetime = 0 then st_remove now now_ms client_addr (al_relay_addr a) s
          else (Ok (), emit_write (WRefresh (sock_port (al_relay_addr a)) (now_ms + as_secs_ms lifetime))
                  (upd_alloc client_addr (a\<lparr>al_expires_at := now + from_secs (unat lifetime)\<rparr>) s)))"

text \<open>The data path counts packets through a shared reference to the allocation.\<close>

definition st_count_packet :: "bool \<Rightarrow> u64 \<Rightarrow> socket_addr \<Rightarrow> allocation_store \<Rightarrow> allocation_store" where
  "st_count_packet to_client n client_addr s =
     (case fmlookup (st_allocations s) client_addr of
        None \<Rightarrow> s
      | Some a \<Rightarrow> upd_alloc client_addr (if to_client then add_bytes_to_client n a else add_bytes n a) s)"

section \<open>The sweep\<close>

fun classify ::
  "instant \<Rightarrow> nat \<Rightarrow> (socket_addr \<times> allocation) list \<Rightarrow> (socket_addr \<times> socket_addr) list \<Rightarrow> socket_addr list
   \<Rightarrow> (socket_addr \<times> socket_addr) list \<times> socket_addr list" where
  "classify now max_ops [] expired to_clean = (expired, to_clean)"
| "classify now max_ops ((c, a) # rest) expired to_clean =
     (if length expired + length to_clean \<ge> max_ops then (expired, to_clean)
      else if Allocation_is_expired now a then classify now max_ops rest (expired @ [(c, al_relay_addr a)]) to_clean
      else if has_stale_entries now a then classify now max_ops rest expired (to_clean @ [c])
      else classify now max_ops rest expired to_clean)"

definition sweep_pools :: "instant \<Rightarrow> allocation_store \<Rightarrow> allocation_store" where
  "sweep_pools now s =
     s\<lparr>st_ports := snd (sweep_expired_reservations now (st_ports s)),
       st_tenant_pools := map (\<lambda>p. p\<lparr>tp_ports := snd (sweep_expired_reservations now (tp_ports p))\<rparr>)
                            (st_tenant_pools s)\<rparr>"

definition clean_client :: "instant \<Rightarrow> socket_addr \<Rightarrow> allocation_store \<Rightarrow> allocation_store" where
  "clean_client now client s =
     (case fmlookup (st_allocations s) client of
        None \<Rightarrow> s
      | Some a \<Rightarrow> upd_alloc client (snd (cleanup_expired_entries now a)) s)"

definition expire_client ::
  "instant \<Rightarrow> u64 \<Rightarrow> socket_addr \<times> socket_addr \<Rightarrow> nat \<times> allocation_store \<Rightarrow> nat \<times> allocation_store" where
  "expire_client now now_ms = (\<lambda>(client, relay) (count, s).
     (case fmlookup (st_allocations s) client of
        None \<Rightarrow> (count, s)
      | Some a \<Rightarrow>
          if Allocation_is_expired now a then (count + 1, snd (st_remove now now_ms client relay s))
          else (count, s)))"

definition cleanup_expired_budget ::
  "socket_addr list \<Rightarrow> instant \<Rightarrow> u64 \<Rightarrow> nat \<Rightarrow> allocation_store \<Rightarrow> nat \<times> allocation_store" where
  "cleanup_expired_budget order now now_ms max_ops s =
     (let s = sweep_pools now s;
          entries = List.map_filter (\<lambda>c. map_option (Pair c) (fmlookup (st_allocations s) c)) order;
          (expired, to_clean) = classify now max_ops entries [] [];
          s = fold (clean_client now) to_clean s;
          (count, s) = fold (expire_client now now_ms) expired (0, s)
      in (count,
          s\<lparr>st_user_allocations :=
               fmfilter (\<lambda>k. fmlookup (st_user_allocations s) k \<noteq> Some []) (st_user_allocations s),
            st_user_counts :=
               fmfilter (\<lambda>k. counter (st_user_counts s) k > 0) (st_user_counts s)\<rparr>))"

definition cleanup_expired :: "socket_addr list \<Rightarrow> instant \<Rightarrow> u64 \<Rightarrow> allocation_store \<Rightarrow> nat \<times> allocation_store" where
  "cleanup_expired order now now_ms s = cleanup_expired_budget order now now_ms (2 ^ 64 - 1) s"

section \<open>Reports\<close>

definition port_pool_usage :: "allocation_store \<Rightarrow> (string \<times> nat \<times> nat) list" where
  "port_pool_usage s =
     (''global'', in_use (st_ports s), capacity (st_ports s))
     # map (\<lambda>t. (tp_id t, in_use (tp_ports t), capacity (tp_ports t))) (st_tenant_pools s)"

definition user_allocation_count :: "allocation_store \<Rightarrow> string \<Rightarrow> usize" where
  "user_allocation_count s username =
     (\<Sum>k \<in> fset (fmdom (st_user_counts s)). if snd (snd k) = username then counter (st_user_counts s) k else 0)"

definition st_len :: "allocation_store \<Rightarrow> nat" where
  "st_len s = fcard (fmdom (st_allocations s))"

definition allocated_port_count :: "allocation_store \<Rightarrow> nat" where
  "allocated_port_count s = card (pa_used (st_ports s))"

text \<open>The range size is computed in 16 bits; an overflow there is the panic of a checked build.\<close>

definition available_port_count :: "allocation_store \<Rightarrow> (unit, nat) res" where
  "available_port_count s =
     (let mx = unat (pa_max_port (st_ports s)); mn = unat (pa_min_port (st_ports s))
      in if mx < mn \<or> mx - mn + 1 \<ge> 65536 then Panic
         else if mx - mn + 1 < allocated_port_count s then Panic
         else Ok (mx - mn + 1 - allocated_port_count s))"

end
