(* ===== verification/Store_Index.thy ===== *)
theory Store_Index
  imports Session_Base
begin

text \<open>
  Secondary structures kept beside a primary map: an index by a key that identifies entries, the
  list of keys of each group, and a counter per group. Each has one notion of exactness and one
  lemma per change of the primary map: insertion, removal, update in place, move to another key.
\<close>

definition index_exact :: "('a \<Rightarrow> 'k) \<Rightarrow> ('c, 'a) fmap \<Rightarrow> ('k, 'c) fmap \<Rightarrow> bool" where
  "index_exact key m ix \<longleftrightarrow>
     (\<forall>k c. fmlookup ix k = Some c \<longleftrightarrow> (\<exists>a. fmlookup m c = Some a \<and> key a = k))"

definition members :: "('a \<Rightarrow> 'k option) \<Rightarrow> ('c, 'a) fmap \<Rightarrow> 'k \<Rightarrow> 'c set" where
  "members key m k = {c. \<exists>a. fmlookup m c = Some a \<and> key a = Some k}"

definition listed :: "('k, 'c list) fmap \<Rightarrow> 'k \<Rightarrow> 'c list" where
  "listed g k = (case fmlookup g k of None \<Rightarrow> [] | Some cs \<Rightarrow> cs)"

definition group_exact :: "('a \<Rightarrow> 'k) \<Rightarrow> ('c, 'a) fmap \<Rightarrow> ('k, 'c list) fmap \<Rightarrow> bool" where
  "group_exact key m g \<longleftrightarrow>
     (\<forall>k. distinct (listed g k) \<and> set (listed g k) = members (\<lambda>a. Some (key a)) m k)"

definition count_exact :: "('a \<Rightarrow> 'k option) \<Rightarrow> ('c, 'a) fmap \<Rightarrow> ('k \<Rightarrow> usize) \<Rightarrow> bool" where
  "count_exact key m cnt \<longleftrightarrow> (\<forall>k. cnt k = of_nat (card (members key m k)))"

section \<open>Indices\<close>

lemma index_exactI:
  assumes "\<And>k c. fmlookup ix k = Some c \<Longrightarrow> \<exists>a. fmlookup m c = Some a \<and> key a = k"
    and "\<And>c a. fmlookup m c = Some a \<Longrightarrow> fmlookup ix (key a) = Some c"
  shows "index_exact key m ix"
  using assms unfolding index_exact_def by blast

lemma index_exact_lookup:
  "index_exact key m ix \<Longrightarrow> fmlookup m c = Some a \<Longrightarrow> fmlookup ix (key a) = Some c"
  unfolding index_exact_def by blast

lemma index_exact_back:
  "index_exact key m ix \<Longrightarrow> fmlookup ix k = Some c \<Longrightarrow> \<exists>a. fmlookup m c = Some a \<and> key a = k"
  unfolding index_exact_def by blast

lemma index_exact_inj:
  assumes "index_exact key m ix" "fmlookup m c = Some a" "fmlookup m c' = Some a'" "key a = key a'"
  shows "c = c'"
  using index_exact_lookup [OF assms(1,2)] index_exact_lookup [OF assms(1,3)] assms(4) by simp

lemma index_exact_empty: "index_exact key fmempty fmempty"
  by (simp add: index_exact_def)

lemma index_exact_insert:
  assumes ix: "index_exact key m ix" and new: "fmlookup m c = None" "fmlookup ix (key a) = None"
  shows "index_exact key (fmupd c a m) (fmupd (key a) c ix)"
proof (rule index_exactI)
  fix k d assume l: "fmlookup (fmupd (key a) c ix) k = Some d"
  show "\<exists>x. fmlookup (fmupd c a m) d = Some x \<and> key x = k"
  proof (cases "k = key a")
    case False
    with l have "fmlookup ix k = Some d" by simp
    from index_exact_back [OF ix this] obtain x where x: "fmlookup m d = Some x" "key x = k" by blast
    with new(1) have "d \<noteq> c" by auto
    with x show ?thesis by simp
  qed (use l in simp)
next
  fix d x assume l: "fmlookup (fmupd c a m) d = Some x"
  show "fmlookup (fmupd (key a) c ix) (key x) = Some d"
  proof (cases "d = c")
    case False
    with l have "fmlookup m d = Some x" by simp
    from index_exact_lookup [OF ix this] new(2) show ?thesis by (cases "key x = key a") simp_all
  qed (use l in simp)
qed

lemma index_exact_remove:
  assumes ix: "index_exact key m ix" and old: "fmlookup m c = Some a"
  shows "index_exact key (fmdrop c m) (fmdrop (key a) ix)"
proof (rule index_exactI)
  fix k d assume "fmlookup (fmdrop (key a) ix) k = Some d"
  then have k: "fmlookup ix k = Some d" "k \<noteq> key a" by (simp_all split: if_splits)
  from index_exact_back [OF ix k(1)] obtain x where x: "fmlookup m d = Some x" "key x = k" by blast
  with old k(2) have "d \<noteq> c" by auto
  with x show "\<exists>x. fmlookup (fmdrop c m) d = Some x \<and> key x = k" by simp
next
  fix d x assume "fmlookup (fmdrop c m) d = Some x"
  then have d: "fmlookup m d = Some x" "d \<noteq> c" by (simp_all split: if_splits)
  with index_exact_inj [OF ix d(1) old] have "key x \<noteq> key a" by blast
  with index_exact_lookup [OF ix d(1)] show "fmlookup (fmdrop (key a) ix) (key x) = Some d" by simp
qed

lemma index_exact_update:
  assumes ix: "index_exact key m ix" and old: "fmlookup m c = Some a" and same: "key a' = key a"
  shows "index_exact key (fmupd c a' m) ix"
proof (rule index_exactI)
  fix k d assume "fmlookup ix k = Some d"
  from index_exact_back [OF ix this] obtain x where x: "fmlookup m d = Some x" "key x = k" by blast
  with old same show "\<exists>x. fmlookup (fmupd c a' m) d = Some x \<and> key x = k" by (cases "d = c") simp_all
next
  fix d x assume l: "fmlookup (fmupd c a' m) d = Some x"
  show "fmlookup ix (key x) = Some d"
  proof (cases "d = c")
    case True
    with l same index_exact_lookup [OF ix old] show ?thesis by simp
  next
    case False
    with l have "fmlookup m d = Some x" by simp
    from index_exact_lookup [OF ix this] show ?thesis .
  qed
qed

lemma index_exact_move:
  assumes ix: "index_exact key m ix" and old: "fmlookup m c = Some a" and same: "key a' = key a"
    and new: "fmlookup m c' = None"
  shows "index_exact key (fmupd c' a' (fmdrop c m)) (fmupd (key a) c' ix)"
proof -
  have "index_exact key (fmupd c' a' (fmdrop c m)) (fmupd (key a') c' (fmdrop (key a) ix))"
    using new same by (intro index_exact_insert index_exact_remove ix old) simp_all
  moreover have "fmupd (key a') c' (fmdrop (key a) ix) = fmupd (key a) c' ix"
    using same by (intro fmap_ext) simp
  ultimately show ?thesis by simp
qed

section \<open>Groups\<close>

lemma members_empty [simp]: "members key fmempty k = {}"
  by (simp add: members_def)

lemma finite_members: "finite (members key m k)"
proof -
  have "members key m k \<subseteq> fset (fmdom m)" by (auto simp: members_def fmlookup_dom_iff)
  then show ?thesis by (rule finite_subset) simp
qed

lemma members_insert:
  "fmlookup m c = None \<Longrightarrow>
   members key (fmupd c a m) k = (if key a = Some k then insert c (members key m k) else members key m k)"
  by (auto simp: members_def)

lemma members_remove:
  "fmlookup m c = Some a \<Longrightarrow>
   members key (fmdrop c m) k = (if key a = Some k then members key m k - {c} else members key m k)"
  by (auto simp: members_def)

lemma members_update:
  "fmlookup m c = Some a \<Longrightarrow> key a' = key a \<Longrightarrow> members key (fmupd c a' m) k = members key m k"
  by (auto simp: members_def)

lemma members_new: "fmlookup m c = None \<Longrightarrow> c \<notin> members key m k"
  by (simp add: members_def)

lemma members_old: "fmlookup m c = Some a \<Longrightarrow> c \<in> members key m k \<longleftrightarrow> key a = Some k"
  by (simp add: members_def)

lemma listed_upd [simp]: "listed (fmupd k cs g) k' = (if k' = k then cs else listed g k')"
  by (simp add: listed_def)

lemma group_exact_distinct: "group_exact key m g \<Longrightarrow> distinct (listed g k)"
  by (simp add: group_exact_def)

lemma group_exact_set: "group_exact key m g \<Longrightarrow> set (listed g k) = members (\<lambda>a. Some (key a)) m k"
  by (simp add: group_exact_def)

lemma group_exactI:
  assumes "\<And>k. distinct (listed g k)" "\<And>k. set (listed g k) = members (\<lambda>a. Some (key a)) m k"
  shows "group_exact key m g"
  using assms by (simp add: group_exact_def)

lemma group_exact_empty: "group_exact key fmempty fmempty"
  by (simp add: group_exact_def listed_def)

lemma group_exact_insert:
  assumes g: "group_exact key m g" and new: "fmlookup m c = None"
  shows "group_exact key (fmupd c a m) (fmupd (key a) (listed g (key a) @ [c]) g)"
  using group_exact_distinct [OF g] group_exact_set [OF g] members_new [OF new, where key = "\<lambda>a. Some (key a)"]
  by (intro group_exactI) (auto simp: members_insert [OF new])

lemma group_exact_remove:
  assumes g: "group_exact key m g" and old: "fmlookup m c = Some a"
  shows "group_exact key (fmdrop c m) (fmupd (key a) (filter (\<lambda>x. x \<noteq> c) (listed g (key a))) g)"
  using group_exact_distinct [OF g] group_exact_set [OF g]
  by (intro group_exactI) (auto simp: members_remove [OF old])

lemma group_exact_update:
  assumes g: "group_exact key m g" and old: "fmlookup m c = Some a" and same: "key a' = key a"
  shows "group_exact key (fmupd c a' m) g"
  using group_exact_distinct [OF g] group_exact_set [OF g]
  by (intro group_exactI) (simp_all add: members_update [OF old] same)

lemma group_exact_move:
  assumes g: "group_exact key m g" and old: "fmlookup m c = Some a" and same: "key a' = key a"
    and new: "fmlookup m c' = None"
  shows "group_exact key (fmupd c' a' (fmdrop c m))
           (fmupd (key a) (map (\<lambda>x. if x = c then c' else x) (listed g (key a))) g)"
proof -
  have c': "c' \<notin> set (listed g k)" for k using group_exact_set [OF g] members_new [OF new] by simp
  have inj: "inj_on (\<lambda>x. if x = c then c' else x) (set (listed g k))" for k
    using c' [of k] by (auto simp: inj_on_def)
  have new': "fmlookup (fmdrop c m) c' = None" using new by simp
  have c: "c \<in> members (\<lambda>a. Some (key a)) m (key a)" using old by (simp add: members_def)
  show ?thesis
  proof (rule group_exactI)
    fix k
    show "distinct (listed (fmupd (key a) (map (\<lambda>x. if x = c then c' else x) (listed g (key a))) g) k)"
      using group_exact_distinct [OF g] inj by (simp add: distinct_map)
    show "set (listed (fmupd (key a) (map (\<lambda>x. if x = c then c' else x) (listed g (key a))) g) k)
        = members (\<lambda>a. Some (key a)) (fmupd c' a' (fmdrop c m)) k"
      using c by (auto simp: members_insert [OF new'] members_remove [OF old] same group_exact_set [OF g])
  qed
qed

section \<open>Counters\<close>

lemma count_exact_empty: "count_exact key fmempty (\<lambda>k. 0)"
  by (simp add: count_exact_def)

lemma count_exact_insert:
  assumes n: "count_exact key m cnt" and new: "fmlookup m c = None"
  shows "count_exact key (fmupd c a m) (\<lambda>k. if key a = Some k then cnt k + 1 else cnt k)"
  using n members_new [OF new, where key = key]
  by (simp add: count_exact_def members_insert [OF new] finite_members)

lemma count_exact_remove:
  assumes n: "count_exact key m cnt" and old: "fmlookup m c = Some a"
  shows "count_exact key (fmdrop c m) (\<lambda>k. if key a = Some k then cnt k - 1 else cnt k)"
proof -
  have "of_nat (card (members key m k)) - 1 = (of_nat (card (members key m k - {c})) :: usize)"
    if "key a = Some k" for k
  proof -
    have "Suc (card (members key m k - {c})) = card (members key m k)"
      using that members_old [OF old, where key = key] by (intro card.remove [symmetric] finite_members) simp
    then show ?thesis by (metis add_diff_cancel_left' of_nat_Suc)
  qed
  then show ?thesis using n by (simp add: count_exact_def members_remove [OF old])
qed

lemma count_exact_update:
  "count_exact key m cnt \<Longrightarrow> fmlookup m c = Some a \<Longrightarrow> key a' = key a \<Longrightarrow> count_exact key (fmupd c a' m) cnt"
  by (simp add: count_exact_def members_update)

lemma count_exact_move:
  assumes n: "count_exact key m cnt" and old: "fmlookup m c = Some a" and same: "key a' = key a"
    and new: "fmlookup m c' = None"
  shows "count_exact key (fmupd c' a' (fmdrop c m)) cnt"
proof -
  have new': "fmlookup (fmdrop c m) c' = None" using new by simp
  have "(\<lambda>k. if key a' = Some k then (if key a = Some k then cnt k - 1 else cnt k) + 1
           else if key a = Some k then cnt k - 1 else cnt k) = cnt"
    using same by (intro ext) simp
  with count_exact_insert [OF count_exact_remove [OF n old] new', of a'] show ?thesis by simp
qed

end
