(* ===== verification/Store_Consistency.thy ===== *)
theory Store_Consistency
  imports Allocation_Store Store_Index
begin

text \<open>
  What it means for the allocation store to be consistent, and the facts about its parts that the
  operations share: the port pools (an operation on one pool leaves the others alone, and the pool of
  a tenant is the pool that contains its ports), the allocation ids, and the admission counters
  (a refused or abandoned reservation leaves every count as it was).
\<close>

section \<open>Pools\<close>

definition pool_ranges :: "allocation_store \<Rightarrow> u16 set list" where
  "pool_ranges s = in_range (st_ports s) # map (\<lambda>p. in_range (tp_ports p)) (st_tenant_pools s)"

definition wf_pools :: "allocation_store \<Rightarrow> bool" where
  "wf_pools s \<longleftrightarrow>
     wf_ports (st_ports s) \<and> (\<forall>p \<in> set (st_tenant_pools s). wf_ports (tp_ports p))
     \<and> sorted_wrt (\<lambda>A B. A \<inter> B = {}) (pool_ranges s)"

definition port_held :: "allocation_store \<Rightarrow> u16 \<Rightarrow> bool" where
  "port_held s p \<longleftrightarrow> p \<in> held_ports (pool_for_port s p)"

lemma pa_contains_range: "pa_contains pa p \<longleftrightarrow> p \<in> in_range pa"
  by (simp add: in_range_def)

lemma find_Some_split:
  "List.find P xs = Some x \<Longrightarrow>
   \<exists>ys zs. xs = ys @ x # zs \<and> P x \<and> (\<forall>y \<in> set ys. \<not> P y) \<and> upd_first P f xs = ys @ f x # zs"
proof (induction xs)
  case (Cons a xs)
  show ?case
  proof (cases "P a")
    case True
    with Cons.prems show ?thesis by (intro exI [of _ "[]"] exI [of _ xs]) simp
  next
    case False
    with Cons obtain ys zs where "xs = ys @ x # zs" "P x" "\<forall>y \<in> set ys. \<not> P y" "upd_first P f xs = ys @ f x # zs"
      by auto
    with False show ?thesis by (intro exI [of _ "a # ys"] exI [of _ zs]) simp
  qed
qed simp

lemma find_split: "P x \<Longrightarrow> \<forall>y \<in> set ys. \<not> P y \<Longrightarrow> List.find P (ys @ x # zs) = Some x"
  by (induction ys) simp_all

lemma upd_first_split: "P x \<Longrightarrow> \<forall>y \<in> set ys. \<not> P y \<Longrightarrow> upd_first P f (ys @ x # zs) = ys @ f x # zs"
  by (induction ys) simp_all

lemma find_upd_first:
  assumes "\<And>x. List.find P xs = Some x \<Longrightarrow> Q (f x) = Q x"
  shows "List.find Q (upd_first P f xs) = List.find Q xs
    \<or> (\<exists>x. List.find Q xs = Some x \<and> List.find P xs = Some x \<and> List.find Q (upd_first P f xs) = Some (f x))"
  using assms
proof (induction xs)
  case (Cons a xs)
  show ?case
  proof (cases "P a")
    case True
    then show ?thesis using Cons.prems [of a] by simp
  next
    case False
    then show ?thesis using Cons.IH Cons.prems by simp
  qed
qed simp

lemma upd_first_map:
  assumes "\<And>x. List.find P xs = Some x \<Longrightarrow> g (f x) = g x"
  shows "map g (upd_first P f xs) = map g xs"
  using assms by (induction xs) auto

lemma upd_first_all:
  assumes "\<forall>x \<in> set xs. Q x" and "\<And>x. List.find P xs = Some x \<Longrightarrow> Q (f x)"
  shows "\<forall>x \<in> set (upd_first P f xs). Q x"
  using assms by (induction xs) auto

lemma pool_for_port_wf: "wf_pools s \<Longrightarrow> wf_ports (pool_for_port s p)"
  using find_Some_iff [of "\<lambda>p'. pa_contains (tp_ports p') p" "st_tenant_pools s"]
  by (auto simp: wf_pools_def pool_for_port_def split: option.split)

text \<open>
  An operation that keeps the range of the pool it works on changes that pool only. \<open>f\<close> is the
  operation and \<open>p\<close> the port the pool is looked up by.
\<close>

lemma upd_pool_spec:
  assumes range: "in_range (f (pool_for_port s p)) = in_range (pool_for_port s p)"
  shows "pool_for_port (upd_pool_for_port p f s) p = f (pool_for_port s p)"
    and "pool_for_port (upd_pool_for_port p f s) q = pool_for_port s q
      \<or> pool_for_port s q = pool_for_port s p \<and> pool_for_port (upd_pool_for_port p f s) q = f (pool_for_port s q)"
    and "pool_ranges (upd_pool_for_port p f s) = pool_ranges s"
    and "wf_pools s \<Longrightarrow> wf_ports (f (pool_for_port s p)) \<Longrightarrow> wf_pools (upd_pool_for_port p f s)"
proof -
  let ?P = "\<lambda>q p'. pa_contains (tp_ports p') q" and ?F = "\<lambda>p'. p'\<lparr>tp_ports := f (tp_ports p')\<rparr>"
  let ?s = "upd_pool_for_port p f s"
  have same: "in_range (f (tp_ports x)) = in_range (tp_ports x)"
    if "List.find (?P p) (st_tenant_pools s) = Some x" for x
    using range that by (simp add: pool_for_port_def)
  have all: "pool_for_port ?s p = f (pool_for_port s p)
     \<and> (pool_for_port ?s q = pool_for_port s q
          \<or> pool_for_port s q = pool_for_port s p \<and> pool_for_port ?s q = f (pool_for_port s q))
     \<and> pool_ranges ?s = pool_ranges s
     \<and> (wf_pools s \<longrightarrow> wf_ports (f (pool_for_port s p)) \<longrightarrow> wf_pools ?s)"
  proof (cases "List.find (?P p) (st_tenant_pools s)")
    case None
    then have "?s = s\<lparr>st_ports := f (st_ports s)\<rparr>" by (simp add: upd_pool_for_port_def)
    then show ?thesis
      using None range by (auto simp: pool_for_port_def pool_ranges_def wf_pools_def split: option.split)
  next
    case (Some x)
    then have s: "?s = s\<lparr>st_tenant_pools := upd_first (?P p) ?F (st_tenant_pools s)\<rparr>"
      by (simp add: upd_pool_for_port_def)
    have p: "List.find (?P p) (upd_first (?P p) ?F (st_tenant_pools s)) = Some (?F x)"
    proof -
      from find_Some_split [OF Some, of ?F] obtain ys zs where
        "\<forall>y \<in> set ys. \<not> ?P p y" "?P p x" "upd_first (?P p) ?F (st_tenant_pools s) = ys @ ?F x # zs" by blast
      moreover from this same [OF Some] have "?P p (?F x)" by (simp add: pa_contains_range)
      ultimately show ?thesis by (simp only: find_split)
    qed
    have q: "List.find (?P q) (upd_first (?P p) ?F (st_tenant_pools s)) = List.find (?P q) (st_tenant_pools s)
       \<or> (\<exists>y. List.find (?P q) (st_tenant_pools s) = Some y \<and> List.find (?P p) (st_tenant_pools s) = Some y
              \<and> List.find (?P q) (upd_first (?P p) ?F (st_tenant_pools s)) = Some (?F y))"
      by (intro find_upd_first) (simp add: pa_contains_range same)
    have r: "pool_ranges ?s = pool_ranges s"
      by (simp add: s pool_ranges_def) (intro upd_first_map, simp add: same)
    have "wf_pools ?s" if "wf_pools s" "wf_ports (f (pool_for_port s p))"
    proof -
      have "\<forall>y \<in> set (upd_first (?P p) ?F (st_tenant_pools s)). wf_ports (tp_ports y)"
        using that Some by (intro upd_first_all) (auto simp: wf_pools_def pool_for_port_def)
      with that(1) r show ?thesis by (simp add: wf_pools_def s)
    qed
    with p q r Some show ?thesis by (auto simp: s pool_for_port_def split: option.split)
  qed
  then show "pool_for_port ?s p = f (pool_for_port s p)"
    "pool_for_port ?s q = pool_for_port s q
      \<or> pool_for_port s q = pool_for_port s p \<and> pool_for_port ?s q = f (pool_for_port s q)"
    "pool_ranges ?s = pool_ranges s"
    "wf_pools s \<Longrightarrow> wf_ports (f (pool_for_port s p)) \<Longrightarrow> wf_pools ?s"
    by blast+
qed

text \<open>The pool chosen by tenant and the pool found by port are the same pool.\<close>

lemma pool_by_port:
  assumes wf: "wf_pools s" and p: "p \<in> in_range (pool s t)"
  shows "pool s t = pool_for_port s p" and "upd_pool t f s = upd_pool_for_port p f s"
proof -
  let ?P = "\<lambda>p'. pa_contains (tp_ports p') p"
  have "pool s t = pool_for_port s p \<and> upd_pool t f s = upd_pool_for_port p f s"
  proof (cases "t = None \<or> List.find (\<lambda>p'. tp_id p' = the t) (st_tenant_pools s) = None")
    case True
    then have base: "pool s t = st_ports s" "upd_pool t f s = s\<lparr>st_ports := f (st_ports s)\<rparr>"
      by (auto simp: pool_def upd_pool_def split: option.splits)
    have "List.find ?P (st_tenant_pools s) = None"
      using wf p by (auto simp: base find_None_iff wf_pools_def pool_ranges_def pa_contains_range)
    with base show ?thesis by (simp add: pool_for_port_def upd_pool_for_port_def)
  next
    case False
    then obtain tid x where t: "t = Some tid" and x: "List.find (\<lambda>p'. tp_id p' = tid) (st_tenant_pools s) = Some x"
      by auto
    let ?F = "\<lambda>p'. p'\<lparr>tp_ports := f (tp_ports p')\<rparr>"
    from find_Some_split [OF x, of ?F] obtain ys zs where
      xs: "st_tenant_pools s = ys @ x # zs"
      and u: "upd_first (\<lambda>p'. tp_id p' = tid) ?F (st_tenant_pools s) = ys @ ?F x # zs" by auto
    have px: "p \<in> in_range (tp_ports x)" using p by (simp add: pool_def t x)
    have "\<forall>y \<in> set ys. \<not> ?P y"
      using wf px by (auto simp: wf_pools_def pool_ranges_def xs sorted_wrt_append pa_contains_range)
    with px have "List.find ?P (st_tenant_pools s) = Some x"
      "upd_first ?P ?F (st_tenant_pools s) = ys @ ?F x # zs"
      by (simp_all add: xs find_split upd_first_split pa_contains_range)
    then show ?thesis
      by (simp add: pool_def t x pool_for_port_def upd_pool_def upd_pool_for_port_def u)
  qed
  then show "pool s t = pool_for_port s p" "upd_pool t f s = upd_pool_for_port p f s" by blast+
qed


section \<open>Allocation ids\<close>

lemma hex_nibble_inj: "m < 16 \<Longrightarrow> n < 16 \<Longrightarrow> hex_nibble m = hex_nibble n \<longleftrightarrow> m = n"
proof -
  have "distinct ''0123456789abcdef''" by simp
  then show "m < 16 \<Longrightarrow> n < 16 \<Longrightarrow> hex_nibble m = hex_nibble n \<longleftrightarrow> m = n"
    unfolding hex_nibble_def by (intro nth_eq_iff_index_eq) simp_all
qed

lemma hex_byte_inj: "hex_byte a = hex_byte b \<longleftrightarrow> a = b"
proof
  assume h: "hex_byte a = hex_byte b"
  have lt: "unat a < 256" "unat b < 256" using unsigned_less [of a] unsigned_less [of b] by simp_all
  have "unat a div 16 = unat b div 16" "unat a mod 16 = unat b mod 16"
    using h lt by (simp_all add: hex_byte_def hex_nibble_inj)
  then have "unat a = unat b" by (metis div_mult_mod_eq)
  then show "a = b" by (simp add: word_unat_eq_iff)
qed simp

lemma concat_hex_inj:
  "length xs = length ys \<Longrightarrow> concat (map hex_byte xs) = concat (map hex_byte ys) \<Longrightarrow> xs = ys"
proof (induction xs ys rule: list_induct2)
  case (Cons x xs y ys)
  have "hex_byte x = hex_byte y \<and> concat (map hex_byte xs) = concat (map hex_byte ys)"
    using Cons.prems by (simp add: hex_byte_def [of x] hex_byte_def [of y])
  with Cons.IH show ?case by (simp add: hex_byte_inj)
qed simp

lemma hex16_inj [simp]: "hex16 m = hex16 n \<longleftrightarrow> m = n"
proof
  assume "hex16 m = hex16 n"
  then have "be_bytes 8 m = be_bytes 8 n"
    unfolding hex16_def by (intro concat_hex_inj) simp_all
  then have "(from_be_bytes (be_bytes 8 m) :: u64) = from_be_bytes (be_bytes 8 n)" by simp
  then show "m = n" by (simp add: from_be_be_bytes_full)
qed simp

section \<open>Consistency\<close>

abbreviation relay_port :: "allocation \<Rightarrow> u16" where
  "relay_port a \<equiv> sock_port (al_relay_addr a)"

definition wf_entries :: "(socket_addr, allocation) fmap \<Rightarrow> bool" where
  "wf_entries m \<longleftrightarrow> (\<forall>c a. fmlookup m c = Some a \<longrightarrow> al_client_addr a = c \<and> wf_alloc a)"

definition channels_indexed :: "(socket_addr, allocation) fmap \<Rightarrow> (u16 \<times> u16, socket_addr) fmap \<Rightarrow> bool" where
  "channels_indexed m ix \<longleftrightarrow>
     (\<forall>c a ch. fmlookup m c = Some a \<longrightarrow> ch |\<in>| fmdom (al_channel_bindings a) \<longrightarrow>
        fmlookup ix (relay_port a, ch) = Some c)"

definition ids_minted :: "(socket_addr, allocation) fmap \<Rightarrow> u64 \<Rightarrow> bool" where
  "ids_minted m n \<longleftrightarrow>
     (\<forall>c a k. fmlookup m c = Some a \<longrightarrow> unat n \<le> unat k \<longrightarrow> al_allocation_id a \<noteq> hex16 k)"

definition owns_ports :: "(socket_addr, allocation) fmap \<Rightarrow> (u16 \<Rightarrow> bool) \<Rightarrow> bool" where
  "owns_ports m held \<longleftrightarrow>
     (\<forall>c a. fmlookup m c = Some a \<longrightarrow> held (relay_port a))
     \<and> (\<forall>c a c' a'. fmlookup m c = Some a \<longrightarrow> fmlookup m c' = Some a' \<longrightarrow>
          relay_port a = relay_port a' \<longrightarrow> c = c')"

type_synonym counts = "usize \<times> (string \<Rightarrow> usize) \<times> (user_key \<Rightarrow> usize)"

definition counters_of :: "allocation_store \<Rightarrow> counts" where
  "counters_of s = (st_global_count s, counter (st_tenant_counts s), counter (st_user_counts s))"

definition counts_exact :: "(socket_addr, allocation) fmap \<Rightarrow> counts \<Rightarrow> bool" where
  "counts_exact m = (\<lambda>(g, tc, uc).
     count_exact (\<lambda>a. Some ()) m (\<lambda>_. g) \<and> count_exact al_tenant_id m tc
     \<and> count_exact (\<lambda>a. Some (user_key_of a)) m uc)"

definition wf_store :: "allocation_store \<Rightarrow> bool" where
  "wf_store s \<longleftrightarrow>
     wf_entries (st_allocations s)
     \<and> index_exact al_relay_addr (st_allocations s) (st_relay_to_client s)
     \<and> index_exact al_allocation_id (st_allocations s) (st_id_to_client s)
     \<and> channels_indexed (st_allocations s) (st_channel_to_client s)
     \<and> group_exact user_key_of (st_allocations s) (st_user_allocations s)
     \<and> ids_minted (st_allocations s) (st_next_id s)
     \<and> counts_exact (st_allocations s) (counters_of s)
     \<and> wf_pools s \<and> owns_ports (st_allocations s) (port_held s)"

text \<open>What \<open>wf_store\<close> reads of the state.\<close>

definition same_pools :: "allocation_store \<Rightarrow> allocation_store \<Rightarrow> bool" where
  "same_pools s' s \<longleftrightarrow> st_ports s' = st_ports s \<and> st_tenant_pools s' = st_tenant_pools s"

lemma same_pools_lookup:
  assumes "same_pools s' s"
  shows "pool_for_port s' = pool_for_port s" "wf_pools s' = wf_pools s" "port_held s' = port_held s"
    "pool_ranges s' = pool_ranges s" "pool s' t = pool s t"
proof -
  show p: "pool_for_port s' = pool_for_port s"
    using assms by (intro ext) (simp add: same_pools_def pool_for_port_def split: option.split)
  show "pool_ranges s' = pool_ranges s" using assms by (simp add: same_pools_def pool_ranges_def)
  then show "wf_pools s' = wf_pools s" using assms by (simp add: same_pools_def wf_pools_def)
  show "port_held s' = port_held s" using p by (intro ext) (simp add: port_held_def)
  show "pool s' t = pool s t" using assms by (simp add: same_pools_def pool_def split: option.split)
qed

lemma wf_store_cong:
  assumes "same_pools s' s" "st_allocations s' = st_allocations s"
    "st_relay_to_client s' = st_relay_to_client s" "st_id_to_client s' = st_id_to_client s"
    "st_channel_to_client s' = st_channel_to_client s" "st_user_allocations s' = st_user_allocations s"
    "st_next_id s' = st_next_id s" "counters_of s' = counters_of s"
  shows "wf_store s' = wf_store s"
  using assms same_pools_lookup [OF assms(1)] by (simp add: wf_store_def)

lemma emit_write_fields [simp]:
  "st_allocations (emit_write op s) = st_allocations s"
  "st_relay_to_client (emit_write op s) = st_relay_to_client s"
  "st_channel_to_client (emit_write op s) = st_channel_to_client s"
  "st_id_to_client (emit_write op s) = st_id_to_client s"
  "st_next_id (emit_write op s) = st_next_id s"
  "st_user_allocations (emit_write op s) = st_user_allocations s"
  "st_global_count (emit_write op s) = st_global_count s"
  "st_tenant_counts (emit_write op s) = st_tenant_counts s"
  "st_user_counts (emit_write op s) = st_user_counts s"
  "st_ports (emit_write op s) = st_ports s"
  "st_tenant_pools (emit_write op s) = st_tenant_pools s"
  "st_runtime (emit_write op s) = st_runtime s"
  "st_user_limits (emit_write op s) = st_user_limits s"
  by (simp_all add: emit_write_def Let_def split: option.split prod.split send_outcome.split)

lemma emit_write_wf [simp]: "wf_store (emit_write op s) = wf_store s"
  by (rule wf_store_cong) (simp_all add: same_pools_def counters_of_def)

lemma on_allocation_closed_fields [simp]:
  "st_allocations (on_allocation_closed ms a r s) = st_allocations s"
  "st_relay_to_client (on_allocation_closed ms a r s) = st_relay_to_client s"
  "st_channel_to_client (on_allocation_closed ms a r s) = st_channel_to_client s"
  "st_id_to_client (on_allocation_closed ms a r s) = st_id_to_client s"
  "st_next_id (on_allocation_closed ms a r s) = st_next_id s"
  "st_user_allocations (on_allocation_closed ms a r s) = st_user_allocations s"
  "st_global_count (on_allocation_closed ms a r s) = st_global_count s"
  "st_tenant_counts (on_allocation_closed ms a r s) = st_tenant_counts s"
  "st_user_counts (on_allocation_closed ms a r s) = st_user_counts s"
  "st_ports (on_allocation_closed ms a r s) = st_ports s"
  "st_tenant_pools (on_allocation_closed ms a r s) = st_tenant_pools s"
  "st_runtime (on_allocation_closed ms a r s) = st_runtime s"
  "st_user_limits (on_allocation_closed ms a r s) = st_user_limits s"
  by (simp_all add: on_allocation_closed_def accrue_tenant_traffic_def emit_usage_stop_def Let_def
      split: option.split prod.split send_outcome.split)

section \<open>The number of allocations is small\<close>

lemma owns_ports_card:
  assumes "owns_ports m held"
  shows "card (members key m k) \<le> 65536"
proof -
  let ?f = "\<lambda>c. relay_port (the (fmlookup m c))"
  have "inj_on ?f (members key m k)"
  proof (rule inj_onI)
    fix c c' assume "c \<in> members key m k" "c' \<in> members key m k" and eq: "?f c = ?f c'"
    then obtain a a' where "fmlookup m c = Some a" "fmlookup m c' = Some a'" by (auto simp: members_def)
    with eq assms show "c = c'" unfolding owns_ports_def by simp
  qed
  then have "card (members key m k) \<le> card (UNIV :: u16 set)"
    by (rule card_inj_on_le) simp_all
  then show ?thesis by (simp add: card_word)
qed

lemma count_exact_pos:
  assumes "count_exact key m cnt" "owns_ports m held" "fmlookup m c = Some a" "key a = Some k"
  shows "cnt k \<noteq> 0"
proof -
  have "c \<in> members key m k" using assms(3,4) by (simp add: members_def)
  then have "0 < card (members key m k)" by (metis card_gt_0_iff empty_iff finite_members)
  moreover have "unat (of_nat (card (members key m k)) :: usize) = card (members key m k)"
    using owns_ports_card [OF assms(2), of key k] by (simp add: unat_of_nat take_bit_eq_mod)
  ultimately show ?thesis using assms(1) by (auto simp: count_exact_def)
qed

section \<open>Counters\<close>

lemma counter_upd [simp]: "counter (fmupd k n m) k' = (if k' = k then n else counter m k')"
  by (simp add: counter_def)

lemma counter_upd_same [simp]: "counter (fmupd k (counter m k) m) = counter m"
  by (intro ext) simp

lemma counter_fetch_sub:
  "fmlookup m k \<noteq> None \<Longrightarrow> counter (fetch_sub_entry k m) k' = (if k' = k then counter m k - 1 else counter m k')"
  by (auto simp: fetch_sub_entry_def counter_def)

lemma counter_nonzero: "counter m k \<noteq> 0 \<Longrightarrow> fmlookup m k \<noteq> None"
  by (auto simp: counter_def split: option.splits)


text \<open>The state before and after an operation that touches the counters only.\<close>

definition same_but_counts :: "allocation_store \<Rightarrow> allocation_store \<Rightarrow> bool" where
  "same_but_counts s' s \<longleftrightarrow>
     s' = s\<lparr>st_global_count := st_global_count s', st_tenant_counts := st_tenant_counts s',
           st_user_counts := st_user_counts s'\<rparr>"

definition bump :: "string \<Rightarrow> string option \<Rightarrow> string \<Rightarrow> counts \<Rightarrow> counts" where
  "bump realm t u = (\<lambda>(g, tc, uc).
     (g + 1, (\<lambda>k. if t = Some k then tc k + 1 else tc k),
      (\<lambda>k. if (realm, t, u) = k then uc k + 1 else uc k)))"

definition unbump :: "string \<Rightarrow> string option \<Rightarrow> string \<Rightarrow> counts \<Rightarrow> counts" where
  "unbump realm t u = (\<lambda>(g, tc, uc).
     (g - 1, (\<lambda>k. if t = Some k then tc k - 1 else tc k),
      (\<lambda>k. if (realm, t, u) = k then uc k - 1 else uc k)))"

lemma unbump_bump [simp]: "unbump realm t u (bump realm t u x) = x"
  by (cases x) (auto simp: bump_def unbump_def)

definition full_guard :: "string \<Rightarrow> string option \<Rightarrow> string \<Rightarrow> counter_reservation" where
  "full_guard realm t u =
     \<lparr> cr_user_key = (realm, t, u), cr_tenant_id = t, cr_user_reserved = True,
       cr_tenant_reserved = (t \<noteq> None), cr_global_reserved = True, cr_committed = False \<rparr>"

definition entries_present :: "string \<Rightarrow> string option \<Rightarrow> string \<Rightarrow> allocation_store \<Rightarrow> bool" where
  "entries_present realm t u s \<longleftrightarrow>
     fmlookup (st_user_counts s) (realm, t, u) \<noteq> None
     \<and> (\<forall>tid. t = Some tid \<longrightarrow> fmlookup (st_tenant_counts s) tid \<noteq> None)"

lemma counts_exact_insert:
  assumes "counts_exact m x" "fmlookup m c = None"
  shows "counts_exact (fmupd c a m) (bump (al_realm a) (al_tenant_id a) (al_username a) x)"
proof -
  obtain g tc uc where x: "x = (g, tc, uc)" by (cases x)
  show ?thesis
    using assms(1) count_exact_insert [of "\<lambda>a. Some ()" m "\<lambda>_. g", OF _ assms(2)]
      count_exact_insert [of al_tenant_id m tc, OF _ assms(2)]
      count_exact_insert [of "\<lambda>a. Some (user_key_of a)" m uc, OF _ assms(2)]
    by (simp add: x counts_exact_def bump_def user_key_of_def)
qed

lemma counts_exact_remove:
  assumes "counts_exact m x" "fmlookup m c = Some a"
  shows "counts_exact (fmdrop c m) (unbump (al_realm a) (al_tenant_id a) (al_username a) x)"
proof -
  obtain g tc uc where x: "x = (g, tc, uc)" by (cases x)
  show ?thesis
    using assms(1) count_exact_remove [of "\<lambda>a. Some ()" m "\<lambda>_. g", OF _ assms(2)]
      count_exact_remove [of al_tenant_id m tc, OF _ assms(2)]
      count_exact_remove [of "\<lambda>a. Some (user_key_of a)" m uc, OF _ assms(2)]
    by (simp add: x counts_exact_def unbump_def user_key_of_def)
qed

lemma counts_exact_update:
  "counts_exact m x \<Longrightarrow> fmlookup m c = Some a \<Longrightarrow> user_key_of a' = user_key_of a \<Longrightarrow>
   counts_exact (fmupd c a' m) x"
  by (cases x) (auto simp: counts_exact_def user_key_of_def intro: count_exact_update)

lemma counts_exact_move:
  "counts_exact m x \<Longrightarrow> fmlookup m c = Some a \<Longrightarrow> user_key_of a' = user_key_of a \<Longrightarrow>
   fmlookup m c' = None \<Longrightarrow> counts_exact (fmupd c' a' (fmdrop c m)) x"
  by (cases x) (auto simp: counts_exact_def user_key_of_def intro: count_exact_move)

lemma drop_full:
  assumes "entries_present realm t u s"
  shows "same_but_counts (CounterReservation_drop (full_guard realm t u) s) s"
    "counters_of (CounterReservation_drop (full_guard realm t u) s) = unbump realm t u (counters_of s)"
proof -
  show "same_but_counts (CounterReservation_drop (full_guard realm t u) s) s"
    by (cases t) (simp_all add: same_but_counts_def CounterReservation_drop_def full_guard_def)
  show "counters_of (CounterReservation_drop (full_guard realm t u) s) = unbump realm t u (counters_of s)"
    using assms
    by (cases t) (auto simp: counters_of_def unbump_def CounterReservation_drop_def full_guard_def
        counter_fetch_sub entries_present_def)
qed

lemma release_counters_spec:
  assumes "entries_present realm t u s"
  shows "same_but_counts (release_counters realm t u s) s"
    "counters_of (release_counters realm t u s) = unbump realm t u (counters_of s)"
proof -
  show "same_but_counts (release_counters realm t u s) s"
    by (cases t) (simp_all add: same_but_counts_def release_counters_def)
  show "counters_of (release_counters realm t u s) = unbump realm t u (counters_of s)"
    using assms
    by (cases t) (auto simp: counters_of_def unbump_def release_counters_def counter_fetch_sub entries_present_def)
qed

lemma partial_drop:
  "same_but_counts (CounterReservation_drop
      \<lparr> cr_user_key = k, cr_tenant_id = t, cr_user_reserved = True, cr_tenant_reserved = False,
        cr_global_reserved = False, cr_committed = False \<rparr> s) s"
  by (simp add: same_but_counts_def CounterReservation_drop_def)

definition below_cap :: "usize \<Rightarrow> usize \<Rightarrow> bool" where
  "below_cap cap n \<longleftrightarrow> cap = 0 \<or> n < cap"

lemma reserve_spec:
  assumes r: "reserve_counters realm t u max_per_user disabled max_global s = (r, s1)"
  shows "same_but_counts s1 s \<and>
    (case r of
       Ok g \<Rightarrow> g = full_guard realm t u \<and> counters_of s1 = bump realm t u (counters_of s)
          \<and> entries_present realm t u s1 \<and> \<not> disabled
          \<and> below_cap max_per_user (counter (st_user_counts s) (realm, t, u))
          \<and> (\<forall>tid. t = Some tid \<longrightarrow> below_cap (tenant_max_allocations s tid) (counter (st_tenant_counts s) tid))
          \<and> below_cap max_global (st_global_count s)
     | Err e \<Rightarrow> counters_of s1 = counters_of s
     | Panic \<Rightarrow> False)"
proof (cases "disabled \<or> max_per_user > 0 \<and> counter (st_user_counts s) (realm, t, u) \<ge> max_per_user")
  case True
  then show ?thesis
    using r by (auto simp: reserve_counters_def Let_def same_but_counts_def counters_of_def split: if_splits)
next
  case False
  let ?n = "counter (st_user_counts s) (realm, t, u)"
  define s0 where "s0 = s\<lparr>st_user_counts := fmupd (realm, t, u) (?n + 1) (st_user_counts s)\<rparr>"
  let ?g = "\<lparr> cr_user_key = (realm, t, u), cr_tenant_id = t, cr_user_reserved = True,
              cr_tenant_reserved = False, cr_global_reserved = False, cr_committed = False \<rparr>"
  have user: "\<not> disabled" "below_cap max_per_user ?n"
    using False by (auto simp: below_cap_def not_le word_gt_0)
  have f: "disabled = False" "(max_per_user > 0 \<and> ?n \<ge> max_per_user) = False" using False by blast+
  have r2: "(case t of None \<Rightarrow> reserve_global max_global ?g s0
      | Some tid \<Rightarrow>
          if tenant_max_allocations s0 tid > 0 \<and> counter (st_tenant_counts s0) tid \<ge> tenant_max_allocations s0 tid
          then (Err MaxAllocations, CounterReservation_drop ?g
                  (s0\<lparr>st_tenant_counts := fmupd tid (counter (st_tenant_counts s0) tid) (st_tenant_counts s0)\<rparr>))
          else reserve_global max_global (?g\<lparr>cr_tenant_reserved := True\<rparr>)
                  (s0\<lparr>st_tenant_counts := fmupd tid (counter (st_tenant_counts s0) tid + 1) (st_tenant_counts s0)\<rparr>))
     = (r, s1)"
    using r unfolding reserve_counters_def Let_def f if_False s0_def .
  have tc: "st_tenant_counts s0 = st_tenant_counts s" by (simp add: s0_def)
  show ?thesis
  proof (cases t)
    case None
    then have "reserve_global max_global ?g s0 = (r, s1)"
      using r2 by simp
    then show ?thesis
      using user None
      by (auto simp: reserve_global_def s0_def same_but_counts_def counters_of_def bump_def full_guard_def
          entries_present_def below_cap_def CounterReservation_drop_def fetch_sub_entry_def word_gt_0 not_le fun_eq_iff
          split: if_splits)
  next
    case (Some tid)
    let ?m = "counter (st_tenant_counts s) tid" and ?cap = "tenant_max_allocations s tid"
    have cap: "tenant_max_allocations s0 tid = ?cap" by (simp add: tenant_max_allocations_def s0_def)
    show ?thesis
    proof (cases "?cap > 0 \<and> ?m \<ge> ?cap")
      case True
      then have "r = Err MaxAllocations \<and> s1 = CounterReservation_drop ?g
             (s0\<lparr>st_tenant_counts := fmupd tid ?m (st_tenant_counts s)\<rparr>)"
        using r2 Some cap tc True by simp
      then show ?thesis
        by (auto simp: s0_def same_but_counts_def counters_of_def CounterReservation_drop_def fetch_sub_entry_def
            fun_eq_iff)
    next
      case tf: False
      then have "reserve_global max_global (?g\<lparr>cr_tenant_reserved := True\<rparr>)
             (s0\<lparr>st_tenant_counts := fmupd tid (?m + 1) (st_tenant_counts s)\<rparr>) = (r, s1)"
        using r2 Some cap tc tf by auto
      moreover have "below_cap ?cap ?m" using tf by (auto simp: below_cap_def not_le word_gt_0)
      ultimately show ?thesis
        using user Some
        by (auto simp: reserve_global_def s0_def same_but_counts_def counters_of_def bump_def full_guard_def
            entries_present_def below_cap_def CounterReservation_drop_def fetch_sub_entry_def word_gt_0 not_le fun_eq_iff
            split: if_splits)
    qed
  qed
qed

end
