(* ===== verification/Store_Operations.thy ===== *)
theory Store_Operations
  imports Store_Consistency
begin

text \<open>
  Every operation of the allocation store keeps it consistent: creation, changes in place, removal,
  and migration. Each proof says what the operation does to the primary map (insert, update, drop,
  move) and applies the matching lemma of each index and counter.
\<close>

section \<open>Frames\<close>

definition wf_body :: "allocation_store \<Rightarrow> bool" where
  "wf_body s \<longleftrightarrow>
     wf_entries (st_allocations s)
     \<and> index_exact al_relay_addr (st_allocations s) (st_relay_to_client s)
     \<and> index_exact al_allocation_id (st_allocations s) (st_id_to_client s)
     \<and> channels_indexed (st_allocations s) (st_channel_to_client s)
     \<and> group_exact user_key_of (st_allocations s) (st_user_allocations s)
     \<and> wf_pools s \<and> owns_ports (st_allocations s) (port_held s)"

lemma wf_store_body:
  "wf_store s \<longleftrightarrow> wf_body s \<and> ids_minted (st_allocations s) (st_next_id s)
     \<and> counts_exact (st_allocations s) (counters_of s)"
  by (auto simp: wf_store_def wf_body_def)

lemma wf_body_cong:
  assumes "same_pools s' s" "st_allocations s' = st_allocations s"
    "st_relay_to_client s' = st_relay_to_client s" "st_id_to_client s' = st_id_to_client s"
    "st_channel_to_client s' = st_channel_to_client s" "st_user_allocations s' = st_user_allocations s"
  shows "wf_body s' = wf_body s"
  using assms same_pools_lookup [OF assms(1)] by (simp add: wf_body_def)

lemma same_but_counts_fields:
  assumes "same_but_counts s' s"
  shows "same_pools s' s" "st_allocations s' = st_allocations s"
    "st_relay_to_client s' = st_relay_to_client s" "st_id_to_client s' = st_id_to_client s"
    "st_channel_to_client s' = st_channel_to_client s" "st_user_allocations s' = st_user_allocations s"
    "st_next_id s' = st_next_id s" "st_runtime s' = st_runtime s" "st_user_limits s' = st_user_limits s"
  unfolding same_pools_def
  by (subst assms [unfolded same_but_counts_def], simp)+

lemma same_but_counts_wf:
  assumes "same_but_counts s' s" "counters_of s' = counters_of s"
  shows "wf_store s' = wf_store s"
  by (rule wf_store_cong) (use assms(2) same_but_counts_fields [OF assms(1)] in simp_all)

lemma wf_entriesD:
  "wf_entries m \<Longrightarrow> fmlookup m c = Some a \<Longrightarrow> al_client_addr a = c"
  "wf_entries m \<Longrightarrow> fmlookup m c = Some a \<Longrightarrow> wf_alloc a"
  unfolding wf_entries_def by blast+

lemma wf_entries_upd: "wf_entries m \<Longrightarrow> wf_alloc a \<Longrightarrow> wf_entries (fmupd (al_client_addr a) a m)"
  unfolding wf_entries_def by simp

lemma wf_entries_drop: "wf_entries m \<Longrightarrow> wf_entries (fmdrop c m)"
  unfolding wf_entries_def by (simp split: if_splits)

lemma owns_portsD:
  "owns_ports m held \<Longrightarrow> fmlookup m c = Some a \<Longrightarrow> held (relay_port a)"
  "owns_ports m held \<Longrightarrow> fmlookup m c = Some a \<Longrightarrow> fmlookup m c' = Some a' \<Longrightarrow>
     relay_port a = relay_port a' \<Longrightarrow> c = c'"
  unfolding owns_ports_def by blast+

lemma owns_portsI:
  assumes "\<And>c a. fmlookup m c = Some a \<Longrightarrow> held (relay_port a)"
    and "\<And>c a c' a'. fmlookup m c = Some a \<Longrightarrow> fmlookup m c' = Some a' \<Longrightarrow>
          relay_port a = relay_port a' \<Longrightarrow> c = c'"
  shows "owns_ports m held"
  using assms unfolding owns_ports_def by blast

lemma owns_ports_insert:
  assumes own: "owns_ports m held" and "held (relay_port a)"
    and free: "\<And>d b. fmlookup m d = Some b \<Longrightarrow> relay_port b \<noteq> relay_port a"
  shows "owns_ports (fmupd c a m) held"
proof (rule owns_portsI)
  fix d b assume "fmlookup (fmupd c a m) d = Some b"
  then show "held (relay_port b)" using assms(2) owns_portsD(1) [OF own, of d b] by (cases "d = c") auto
next
  fix d b d' b' assume l: "fmlookup (fmupd c a m) d = Some b" "fmlookup (fmupd c a m) d' = Some b'"
    and eq: "relay_port b = relay_port b'"
  consider "d = c \<and> d' = c" | "d = c \<and> d' \<noteq> c" | "d \<noteq> c \<and> d' = c" | "d \<noteq> c \<and> d' \<noteq> c" by blast
  then show "d = d'"
  proof cases
    case 2 with l free [of d' b'] eq show ?thesis by (simp split: if_splits)
  next
    case 3 with l free [of d b] eq show ?thesis by (simp split: if_splits)
  next
    case 4 with l eq owns_portsD(2) [OF own, of d b d' b'] show ?thesis by (simp split: if_splits)
  qed simp
qed

lemma owns_ports_drop:
  assumes own: "owns_ports m held" and old: "fmlookup m c = Some a"
    and held: "\<And>q. q \<noteq> relay_port a \<Longrightarrow> held q \<Longrightarrow> held' q"
  shows "owns_ports (fmdrop c m) held'"
proof (rule owns_portsI)
  fix d b assume "fmlookup (fmdrop c m) d = Some b"
  then have d: "d \<noteq> c" "fmlookup m d = Some b" by (simp_all split: if_splits)
  then have "relay_port b \<noteq> relay_port a" using owns_portsD(2) [OF own d(2) old] by blast
  then show "held' (relay_port b)" using held owns_portsD(1) [OF own d(2)] by blast
next
  fix d b d' b' assume "fmlookup (fmdrop c m) d = Some b" "fmlookup (fmdrop c m) d' = Some b'"
    and eq: "relay_port b = relay_port b'"
  then have "fmlookup m d = Some b" "fmlookup m d' = Some b'" by (simp_all split: if_splits)
  from owns_portsD(2) [OF own this eq] show "d = d'" .
qed

lemma owns_ports_weaken:
  "owns_ports m held \<Longrightarrow> (\<And>q. held q \<Longrightarrow> held' q) \<Longrightarrow> owns_ports m held'"
  unfolding owns_ports_def by blast

lemma owns_ports_update:
  assumes own: "owns_ports m held" and old: "fmlookup m c = Some a" and same: "relay_port a' = relay_port a"
  shows "owns_ports (fmupd c a' m) held"
proof -
  have "fmupd c a' (fmdrop c m) = fmupd c a' m" by (intro fmap_ext) simp
  moreover have "owns_ports (fmupd c a' (fmdrop c m)) held"
  proof (rule owns_ports_insert)
    show "owns_ports (fmdrop c m) held" by (rule owns_ports_drop [OF own old])
    show "held (relay_port a')" using owns_portsD(1) [OF own old] same by simp
    fix d b assume "fmlookup (fmdrop c m) d = Some b"
    then have "d \<noteq> c" "fmlookup m d = Some b" by (simp_all split: if_splits)
    then show "relay_port b \<noteq> relay_port a'" using owns_portsD(2) [OF own _ old] same by metis
  qed
  ultimately show ?thesis by simp
qed

section \<open>The channel index\<close>

lemma fold_fmupd_lookup:
  "fmlookup (fold (\<lambda>ch. fmupd (p, ch) c) chs ix) (q, ch') =
     (if q = p \<and> ch' \<in> set chs then Some c else fmlookup ix (q, ch'))"
  by (induction chs arbitrary: ix) auto

lemma drop_channels_lookup:
  "fmlookup (drop_channels p chs ix) (q, ch') = (if q = p \<and> ch' \<in> set chs then None else fmlookup ix (q, ch'))"
  unfolding drop_channels_def by (induction chs arbitrary: ix) auto

lemma channel_numbers_set: "ch \<in> set (channel_numbers a) \<longleftrightarrow> ch |\<in>| fmdom (al_channel_bindings a)"
  by (simp add: channel_numbers_def)

lemma channels_indexedD:
  "channels_indexed m ix \<Longrightarrow> fmlookup m c = Some a \<Longrightarrow> ch |\<in>| fmdom (al_channel_bindings a) \<Longrightarrow>
   fmlookup ix (relay_port a, ch) = Some c"
  unfolding channels_indexed_def by blast

lemma channels_indexedI:
  assumes "\<And>c a ch. fmlookup m c = Some a \<Longrightarrow> ch |\<in>| fmdom (al_channel_bindings a) \<Longrightarrow>
     fmlookup ix (relay_port a, ch) = Some c"
  shows "channels_indexed m ix"
  using assms unfolding channels_indexed_def by blast

lemma channels_indexed_insert:
  assumes ix: "channels_indexed m ix"
    and free: "\<And>d b. fmlookup m d = Some b \<Longrightarrow> d \<noteq> c \<Longrightarrow> relay_port b \<noteq> relay_port a"
  shows "channels_indexed (fmupd c a m) (fold (\<lambda>ch. fmupd (relay_port a, ch) c) (channel_numbers a) ix)"
proof (rule channels_indexedI)
  fix d b ch assume l: "fmlookup (fmupd c a m) d = Some b" and ch: "ch |\<in>| fmdom (al_channel_bindings b)"
  show "fmlookup (fold (\<lambda>ch. fmupd (relay_port a, ch) c) (channel_numbers a) ix) (relay_port b, ch) = Some d"
  proof (cases "d = c")
    case True
    with l ch show ?thesis by (simp add: fold_fmupd_lookup channel_numbers_set)
  next
    case False
    with l have "fmlookup m d = Some b" by simp
    with free [OF this False] channels_indexedD [OF ix this ch] show ?thesis by (simp add: fold_fmupd_lookup)
  qed
qed

lemma channels_indexed_drop:
  assumes ix: "channels_indexed m ix"
    and free: "\<And>d b. fmlookup m d = Some b \<Longrightarrow> d \<noteq> c \<Longrightarrow> relay_port b \<noteq> p"
  shows "channels_indexed (fmdrop c m) (drop_channels p chs ix)"
proof (rule channels_indexedI)
  fix d b ch assume "fmlookup (fmdrop c m) d = Some b" and ch: "ch |\<in>| fmdom (al_channel_bindings b)"
  then have d: "fmlookup m d = Some b" "d \<noteq> c" by (simp_all split: if_splits)
  from free [OF d] channels_indexedD [OF ix d(1) ch]
  show "fmlookup (drop_channels p chs ix) (relay_port b, ch) = Some d" by (simp add: drop_channels_lookup)
qed

lemma channels_indexed_update:
  assumes ix: "channels_indexed m ix" and old: "fmlookup m c = Some a" and same: "relay_port a' = relay_port a"
    and chans: "fmdom (al_channel_bindings a') |\<subseteq>| fmdom (al_channel_bindings a)"
  shows "channels_indexed (fmupd c a' m) ix"
proof (rule channels_indexedI)
  fix d b ch assume l: "fmlookup (fmupd c a' m) d = Some b" and ch: "ch |\<in>| fmdom (al_channel_bindings b)"
  show "fmlookup ix (relay_port b, ch) = Some d"
  proof (cases "d = c")
    case True
    with l ch chans have "ch |\<in>| fmdom (al_channel_bindings a)" "b = a'" by auto
    with channels_indexedD [OF ix old this(1)] same True show ?thesis by simp
  next
    case False
    with l have "fmlookup m d = Some b" by simp
    from channels_indexedD [OF ix this ch] show ?thesis .
  qed
qed


section \<open>Installing an allocation\<close>

lemma port_fresh_relay:
  assumes ix: "index_exact al_relay_addr m ix"
    and free: "\<And>d b. fmlookup m d = Some b \<Longrightarrow> relay_port b \<noteq> sock_port r"
  shows "fmlookup ix r = None"
proof (rule ccontr)
  assume "fmlookup ix r \<noteq> None"
  then obtain c where "fmlookup ix r = Some c" by blast
  from index_exact_back [OF ix this] free show False by blast
qed

lemma push_user_group: "push_user k c m = fmupd k (listed m k @ [c]) m"
  by (simp add: push_user_def listed_def)

lemma install_body:
  assumes wf: "wf_body s" and new: "fmlookup (st_allocations s) (al_client_addr a) = None"
    and a: "wf_alloc a" and held: "port_held s (relay_port a)"
    and free: "\<And>d b. fmlookup (st_allocations s) d = Some b \<Longrightarrow> relay_port b \<noteq> relay_port a"
    and id: "\<And>d b. fmlookup (st_allocations s) d = Some b \<Longrightarrow> al_allocation_id b \<noteq> al_allocation_id a"
  shows "wf_body (install a s)"
proof -
  let ?m = "st_allocations s" and ?c = "al_client_addr a" and ?s = "install a s"
  have pools: "same_pools ?s s" by (simp add: same_pools_def install_def Let_def)
  note w = wf [unfolded wf_body_def]
  have noid: "fmlookup (st_id_to_client s) (al_allocation_id a) = None"
  proof (rule ccontr)
    assume "fmlookup (st_id_to_client s) (al_allocation_id a) \<noteq> None"
    then obtain c where "fmlookup (st_id_to_client s) (al_allocation_id a) = Some c" by blast
    with index_exact_back [of al_allocation_id ?m "st_id_to_client s"] w id show False by blast
  qed
  have relay: "fmlookup (st_relay_to_client s) (al_relay_addr a) = None"
    using w by (intro port_fresh_relay [of ?m]) (use free in auto)
  have 1: "wf_entries (fmupd ?c a ?m)" using w a by (intro wf_entries_upd) blast+
  have 2: "index_exact al_relay_addr (fmupd ?c a ?m) (fmupd (al_relay_addr a) ?c (st_relay_to_client s))"
    using w by (intro index_exact_insert new relay) blast
  have 3: "index_exact al_allocation_id (fmupd ?c a ?m) (fmupd (al_allocation_id a) ?c (st_id_to_client s))"
    using w by (intro index_exact_insert new noid) blast
  have 4: "channels_indexed (fmupd ?c a ?m)
      (fold (\<lambda>ch. fmupd (relay_port a, ch) ?c) (channel_numbers a) (st_channel_to_client s))"
    using w free by (intro channels_indexed_insert) blast+
  have 5: "group_exact user_key_of (fmupd ?c a ?m) (push_user (user_key_of a) ?c (st_user_allocations s))"
    unfolding push_user_group using w by (intro group_exact_insert new) blast
  have 6: "owns_ports (fmupd ?c a ?m) (port_held s)"
    using w held free by (intro owns_ports_insert) blast+
  show ?thesis
    using 1 2 3 4 5 6 w same_pools_lookup [OF pools]
    by (simp add: wf_body_def install_def Let_def)
qed

section \<open>Tearing down\<close>

lemma release_pool:
  assumes wf: "wf_pools s" and held: "port_held s p"
  shows "wf_pools (upd_pool_for_port p (\<lambda>pa. pa_release pa p) s)"
    "port_held (upd_pool_for_port p (\<lambda>pa. pa_release pa p) s) q \<longleftrightarrow> q \<noteq> p \<and> port_held s q"
proof -
  have range: "in_range (pa_release pa p) = in_range pa" for pa
    by (simp add: in_range_def pa_contains_def pa_release_def)
  have rel: "held_ports (pa_release pa p) = held_ports pa - {p}" for pa
    by (auto simp: held_ports_def reserved_ports_def pa_release_def)
  note u = upd_pool_spec [where f = "\<lambda>pa. pa_release pa p" and p = p and s = s, OF range]
  have "wf_ports (pa_release (pool_for_port s p) p)"
    using held by (intro release_wf pool_for_port_wf wf) (simp add: port_held_def held_ports_def)
  with u(4) wf show "wf_pools (upd_pool_for_port p (\<lambda>pa. pa_release pa p) s)" by blast
  show "port_held (upd_pool_for_port p (\<lambda>pa. pa_release pa p) s) q \<longleftrightarrow> q \<noteq> p \<and> port_held s q"
    using u(1) u(2) [of q] rel by (cases "q = p") (auto simp: port_held_def)
qed

lemma upd_pool_fields [simp]:
  "st_allocations (upd_pool_for_port p f s) = st_allocations s"
  "st_relay_to_client (upd_pool_for_port p f s) = st_relay_to_client s"
  "st_channel_to_client (upd_pool_for_port p f s) = st_channel_to_client s"
  "st_id_to_client (upd_pool_for_port p f s) = st_id_to_client s"
  "st_next_id (upd_pool_for_port p f s) = st_next_id s"
  "st_user_allocations (upd_pool_for_port p f s) = st_user_allocations s"
  "st_global_count (upd_pool_for_port p f s) = st_global_count s"
  "st_tenant_counts (upd_pool_for_port p f s) = st_tenant_counts s"
  "st_user_counts (upd_pool_for_port p f s) = st_user_counts s"
  "st_runtime (upd_pool_for_port p f s) = st_runtime s"
  "st_user_limits (upd_pool_for_port p f s) = st_user_limits s"
  by (simp_all add: upd_pool_for_port_def Let_def)

lemma drop_user_group:
  assumes g: "group_exact user_key_of m g" and a: "fmlookup m c = Some a"
  shows "group_exact user_key_of (fmdrop c m) (drop_user (user_key_of a) c g)"
proof -
  have "c \<in> set (listed g (user_key_of a))"
    using a by (simp add: group_exact_set [OF g] members_def)
  then obtain cs where cs: "fmlookup g (user_key_of a) = Some cs"
    by (cases "fmlookup g (user_key_of a)") (simp_all add: listed_def)
  from group_exact_remove [OF g a] show ?thesis by (simp add: drop_user_def cs listed_def)
qed

lemma entries_of_member:
  assumes c: "counts_exact m (counters_of s)" and own: "owns_ports m held" and a: "fmlookup m c = Some a"
  shows "entries_present (al_realm a) (al_tenant_id a) (al_username a) s"
proof -
  have u: "counter (st_user_counts s) (user_key_of a) \<noteq> 0"
    using c by (intro count_exact_pos [where key = "\<lambda>a. Some (user_key_of a)", OF _ own a])
      (auto simp: counts_exact_def counters_of_def)
  have t: "counter (st_tenant_counts s) tid \<noteq> 0" if "al_tenant_id a = Some tid" for tid
    using c that by (intro count_exact_pos [where key = al_tenant_id and cnt = "counter (st_tenant_counts s)", OF _ own a])
      (auto simp: counts_exact_def counters_of_def)
  show ?thesis
    using counter_nonzero [OF u] counter_nonzero [OF t] by (simp add: entries_present_def user_key_of_def)
qed

lemma release_counters_fields [simp]:
  "st_allocations (release_counters r t u s) = st_allocations s"
  "st_relay_to_client (release_counters r t u s) = st_relay_to_client s"
  "st_channel_to_client (release_counters r t u s) = st_channel_to_client s"
  "st_id_to_client (release_counters r t u s) = st_id_to_client s"
  "st_next_id (release_counters r t u s) = st_next_id s"
  "st_user_allocations (release_counters r t u s) = st_user_allocations s"
  "st_ports (release_counters r t u s) = st_ports s"
  "st_tenant_pools (release_counters r t u s) = st_tenant_pools s"
  "st_runtime (release_counters r t u s) = st_runtime s"
  "st_user_limits (release_counters r t u s) = st_user_limits s"
  by (cases t; simp add: release_counters_def)+

lemma release_counters_drop:
  "counters_of (release_counters r t u (s\<lparr>st_allocations := m\<rparr>)) = counters_of (release_counters r t u s)"
  by (cases t) (simp_all add: release_counters_def counters_of_def)


lemma tear_down_fields:
  "st_allocations (tear_down ms r c rel a s) = st_allocations s"
    "st_relay_to_client (tear_down ms r c rel a s) = fmdrop rel (st_relay_to_client s)"
    "st_id_to_client (tear_down ms r c rel a s) = fmdrop (al_allocation_id a) (st_id_to_client s)"
    "st_channel_to_client (tear_down ms r c rel a s) =
       drop_channels (sock_port rel) (channel_numbers a) (st_channel_to_client s)"
    "st_user_allocations (tear_down ms r c rel a s) = drop_user (user_key_of a) c (st_user_allocations s)"
    "st_next_id (tear_down ms r c rel a s) = st_next_id s"
    "counters_of (tear_down ms r c rel a s) =
       counters_of (release_counters (al_realm a) (al_tenant_id a) (al_username a) s)"
    "same_pools (tear_down ms r c rel a s) (upd_pool_for_port (sock_port rel) (\<lambda>pa. pa_release pa (sock_port rel)) s)"
    "st_runtime (tear_down ms r c rel a s) = st_runtime s"
    "st_user_limits (tear_down ms r c rel a s) = st_user_limits s"
  by (simp_all add: tear_down_def Let_def counters_of_def same_pools_def upd_pool_for_port_def)

lemma tear_down_wf:
  assumes wf: "wf_store s" and a: "fmlookup (st_allocations s) c = Some a"
  defines "s0 \<equiv> s\<lparr>st_allocations := fmdrop c (st_allocations s)\<rparr>"
  shows "wf_store (tear_down ms r c (al_relay_addr a) a s0)"
proof -
  let ?m = "st_allocations s" and ?p = "relay_port a" and ?t = "tear_down ms r c (al_relay_addr a) a s0"
  note w = wf [unfolded wf_store_def]
  note f = tear_down_fields [of ms r c "al_relay_addr a" a s0]
  have own: "owns_ports ?m (port_held s)" using w by blast
  have pools: "same_pools s0 s" by (simp add: s0_def same_pools_def)
  have other: "relay_port b \<noteq> ?p" if "fmlookup ?m d = Some b" "d \<noteq> c" for d b
    using owns_portsD(2) [OF own that(1) a] that(2) by blast
  have present: "entries_present (al_realm a) (al_tenant_id a) (al_username a) s"
    using w by (intro entries_of_member [OF _ own a]) blast
  have cnt: "counters_of ?t = unbump (al_realm a) (al_tenant_id a) (al_username a) (counters_of s)"
    unfolding f(7) unfolding s0_def release_counters_drop by (rule release_counters_spec(2) [OF present])
  note rel = release_pool [of s ?p]
  have held: "port_held s ?p" by (rule owns_portsD(1) [OF own a])
  have wp: "wf_pools s0" "port_held s0 ?p" using w held same_pools_lookup [OF pools] by simp_all
  have 1: "wf_entries (fmdrop c ?m)" using w by (intro wf_entries_drop) blast
  have 2: "index_exact al_relay_addr (fmdrop c ?m) (fmdrop (al_relay_addr a) (st_relay_to_client s))"
    using w by (intro index_exact_remove a) blast
  have 3: "index_exact al_allocation_id (fmdrop c ?m) (fmdrop (al_allocation_id a) (st_id_to_client s))"
    using w by (intro index_exact_remove a) blast
  have 4: "channels_indexed (fmdrop c ?m) (drop_channels ?p (channel_numbers a) (st_channel_to_client s))"
    using w by (intro channels_indexed_drop other) blast
  have 5: "group_exact user_key_of (fmdrop c ?m) (drop_user (user_key_of a) c (st_user_allocations s))"
    using w by (intro drop_user_group a) blast
  have 6: "ids_minted (fmdrop c ?m) (st_next_id s)"
    using w unfolding ids_minted_def by (simp split: if_splits)
  have 7: "counts_exact (fmdrop c ?m) (counters_of ?t)"
    unfolding cnt using w by (intro counts_exact_remove a) blast
  have 8: "wf_pools ?t" using release_pool(1) [OF wp] same_pools_lookup(2) [OF f(8)] by simp
  have 9: "owns_ports (fmdrop c ?m) (port_held ?t)"
    using release_pool(2) [OF wp] same_pools_lookup(3) [OF f(8)] same_pools_lookup(3) [OF pools]
    by (intro owns_ports_drop [OF own a]) simp
  show ?thesis
    unfolding wf_store_def f(1-6) using 1 2 3 4 5 6 7 8 9 by (simp add: s0_def)
qed


section \<open>Changing an allocation in place\<close>

definition same_identity :: "allocation \<Rightarrow> allocation \<Rightarrow> bool" where
  "same_identity a' a \<longleftrightarrow>
     al_client_addr a' = al_client_addr a \<and> al_relay_addr a' = al_relay_addr a
     \<and> al_allocation_id a' = al_allocation_id a \<and> user_key_of a' = user_key_of a"

lemma ids_minted_update:
  "ids_minted m n \<Longrightarrow> fmlookup m c = Some a \<Longrightarrow> al_allocation_id a' = al_allocation_id a \<Longrightarrow>
   ids_minted (fmupd c a' m) n"
  unfolding ids_minted_def by (metis fmupd_lookup option.inject)

lemma upd_alloc_gen:
  assumes wf: "wf_store s" and a: "fmlookup (st_allocations s) c = Some a"
    and a': "wf_alloc a'" and same: "same_identity a' a"
    and ix: "channels_indexed (fmupd c a' (st_allocations s)) ix"
  shows "wf_store (s\<lparr>st_allocations := fmupd c a' (st_allocations s), st_channel_to_client := ix\<rparr>)"
proof -
  let ?m = "st_allocations s" and ?s = "s\<lparr>st_allocations := fmupd c a' (st_allocations s), st_channel_to_client := ix\<rparr>"
  note w = wf [unfolded wf_store_def] and sm = same [unfolded same_identity_def]
  have pools: "same_pools ?s s" by (simp add: same_pools_def)
  have c: "al_client_addr a' = c" using w wf_entriesD(1) [OF _ a] sm by simp
  have 1: "wf_entries (fmupd c a' ?m)" using w a' wf_entries_upd [of ?m a'] c by simp
  have 2: "index_exact al_relay_addr (fmupd c a' ?m) (st_relay_to_client s)"
    "index_exact al_allocation_id (fmupd c a' ?m) (st_id_to_client s)"
    "group_exact user_key_of (fmupd c a' ?m) (st_user_allocations s)"
    "counts_exact (fmupd c a' ?m) (counters_of s)" "ids_minted (fmupd c a' ?m) (st_next_id s)"
    using w sm a by (auto intro: index_exact_update group_exact_update counts_exact_update ids_minted_update)
  have 3: "owns_ports (fmupd c a' ?m) (port_held s)"
    using w sm by (intro owns_ports_update [OF _ a]) simp_all
  show ?thesis
    using 1 2 3 ix w same_pools_lookup [OF pools] by (simp add: wf_store_def counters_of_def)
qed

lemma upd_alloc_wf:
  assumes wf: "wf_store s" and a: "fmlookup (st_allocations s) c = Some a"
    and a': "wf_alloc a'" and same: "same_identity a' a"
    and chans: "fmdom (al_channel_bindings a') |\<subseteq>| fmdom (al_channel_bindings a)"
  shows "wf_store (upd_alloc c a' s)"
proof -
  have "channels_indexed (fmupd c a' (st_allocations s)) (st_channel_to_client s)"
    using wf same chans by (intro channels_indexed_update [OF _ a]) (auto simp: wf_store_def same_identity_def)
  from upd_alloc_gen [OF wf a a' same this] show ?thesis by (simp add: upd_alloc_def)
qed

lemma wf_store_alloc: "wf_store s \<Longrightarrow> fmlookup (st_allocations s) c = Some a \<Longrightarrow> wf_alloc a"
  unfolding wf_store_def using wf_entriesD(2) by blast

lemma wf_store_client: "wf_store s \<Longrightarrow> fmlookup (st_allocations s) c = Some a \<Longrightarrow> al_client_addr a = c"
  unfolding wf_store_def using wf_entriesD(1) by blast

lemma set_transport_wf: "wf_store s \<Longrightarrow> wf_store (snd (set_transport c tr s))"
  by (auto simp: set_transport_def same_identity_def user_key_of_def split: option.split
      intro!: upd_alloc_wf intro: wf_store_alloc wf_alloc_fields)

lemma count_packet_wf: "wf_store s \<Longrightarrow> wf_store (st_count_packet d n c s)"
  by (auto simp: st_count_packet_def split: option.split
      intro!: upd_alloc_wf add_bytes_wf add_bytes_to_client_wf intro: wf_store_alloc)
     (auto simp: same_identity_def user_key_of_def add_bytes_def add_bytes_to_client_def Let_def)

lemma add_permission_store_wf:
  assumes wf: "wf_store s"
  shows "wf_store (snd (st_add_permission now ms c ip s))"
proof (cases "fmlookup (st_allocations s) c")
  case (Some a)
  show ?thesis
  proof (cases "alloc_add_permission now ip a")
    case (Ok a')
    note p = add_permission_cases [OF Ok]
    have "wf_store (upd_alloc c a' s)"
      using add_permission_wf [OF wf_store_alloc [OF wf Some] Ok]
      by (intro upd_alloc_wf [OF wf Some]) (simp_all add: p same_identity_def user_key_of_def)
    then show ?thesis by (simp add: st_add_permission_def Some Ok)
  qed (use wf Some in \<open>simp_all add: st_add_permission_def\<close>)
qed (use wf in \<open>simp add: st_add_permission_def\<close>)

lemma add_channel_fields:
  assumes "alloc_add_channel now ch peer a = Ok a'"
  shows "same_identity a' a" "fmdom (al_channel_bindings a') = finsert ch (fmdom (al_channel_bindings a))"
  using assms
  by (cases rule: add_channel_cases; auto simp: same_identity_def user_key_of_def fmlookup_dom_iff)+

lemma add_channel_store_wf:
  assumes wf: "wf_store s"
  shows "wf_store (snd (st_add_channel now ms c ch peer s))"
proof (cases "fmlookup (st_allocations s) c")
  case (Some a)
  show ?thesis
  proof (cases "alloc_add_channel now ch peer a")
    case (Ok a')
    note f = add_channel_fields [OF Ok]
    have port: "relay_port a' = relay_port a" using f(1) by (simp add: same_identity_def)
    let ?ix = "fmupd (relay_port a', ch) c (st_channel_to_client s)"
    have "channels_indexed (fmupd c a' (st_allocations s)) ?ix"
    proof (rule channels_indexedI)
      fix d b ch' assume l: "fmlookup (fmupd c a' (st_allocations s)) d = Some b"
        and ch': "ch' |\<in>| fmdom (al_channel_bindings b)"
      have ci: "channels_indexed (st_allocations s) (st_channel_to_client s)"
        and own: "owns_ports (st_allocations s) (port_held s)" using wf by (simp_all add: wf_store_def)
      show "fmlookup ?ix (relay_port b, ch') = Some d"
      proof (cases "d = c")
        case True
        then have "b = a'" using l by simp
        with ch' f(2) have "ch' = ch \<or> ch' |\<in>| fmdom (al_channel_bindings a)" by simp
        with channels_indexedD [OF ci Some] \<open>b = a'\<close> True port show ?thesis by auto
      next
        case False
        then have d: "fmlookup (st_allocations s) d = Some b" using l by simp
        then have "relay_port b \<noteq> relay_port a'" using owns_portsD(2) [OF own d Some] False port by auto
        with channels_indexedD [OF ci d ch'] show ?thesis by simp
      qed
    qed
    from upd_alloc_gen [OF wf Some add_channel_wf [OF wf_store_alloc [OF wf Some] Ok] f(1) this]
    show ?thesis by (simp add: st_add_channel_def Some Ok Let_def upd_alloc_def)
  qed (use wf Some in \<open>simp_all add: st_add_channel_def\<close>)
qed (use wf in \<open>simp add: st_add_channel_def\<close>)

lemma check_bandwidth_identity:
  "same_identity (snd (alloc_check_bandwidth now l a)) a"
  "al_channel_bindings (snd (alloc_check_bandwidth now l a)) = al_channel_bindings a"
  by (simp_all add: alloc_check_bandwidth_def Let_def same_identity_def user_key_of_def)

lemma check_bandwidth_store_wf:
  assumes wf: "wf_store s"
  shows "wf_store (snd (st_check_bandwidth now c s))"
proof (cases "fmlookup (st_allocations s) c")
  case (Some a)
  have "wf_store (upd_alloc c (snd (alloc_check_bandwidth now l a)) s)" for l
    using wf_store_alloc [OF wf Some] check_bandwidth_identity [of now l a]
    by (intro upd_alloc_wf [OF wf Some] check_bandwidth_wf) simp_all
  then have "wf_store (upd_alloc c a' s)" if "alloc_check_bandwidth now l a = (r, a')" for l r a'
    using that by (metis snd_conv)
  then show ?thesis
    using wf Some by (auto simp: st_check_bandwidth_def Let_def split: prod.split res.split)
qed (use wf in \<open>simp add: st_check_bandwidth_def\<close>)

section \<open>Removal\<close>

lemma remove_wf:
  assumes wf: "wf_store s" and rel: "\<And>a. fmlookup (st_allocations s) c = Some a \<Longrightarrow> rel = al_relay_addr a"
  shows "wf_store (snd (st_remove now ms c rel s))"
proof (cases "fmlookup (st_allocations s) c")
  case (Some a)
  with tear_down_wf [OF wf Some] rel show ?thesis by (simp add: st_remove_def)
qed (use wf in \<open>simp add: st_remove_def\<close>)

lemma force_remove_wf: "wf_store s \<Longrightarrow> wf_store (force_remove ms c s)"
  using tear_down_wf [of s c] by (simp add: force_remove_def split: option.split)

lemma refresh_wf:
  assumes wf: "wf_store s"
  shows "wf_store (snd (st_refresh now ms c l s))"
proof (cases "fmlookup (st_allocations s) c")
  case (Some a)
  have "wf_store (upd_alloc c (a\<lparr>al_expires_at := t\<rparr>) s)" for t
    using wf_store_alloc [OF wf Some]
    by (intro upd_alloc_wf [OF wf Some]) (auto simp: same_identity_def user_key_of_def elim: wf_alloc_fields)
  moreover have "wf_store (snd (st_remove now ms c (al_relay_addr a) s))"
    using Some by (intro remove_wf wf) simp
  ultimately show ?thesis by (simp add: st_refresh_def Some)
qed (use wf in \<open>simp add: st_refresh_def\<close>)


section \<open>Migration\<close>

lemma channels_indexed_sub: "channels_indexed m ix \<Longrightarrow> channels_indexed (fmdrop c m) ix"
  unfolding channels_indexed_def by (simp split: if_splits)

lemma ids_minted_move:
  "ids_minted m n \<Longrightarrow> fmlookup m c = Some a \<Longrightarrow> al_allocation_id a' = al_allocation_id a \<Longrightarrow>
   ids_minted (fmupd c' a' (fmdrop c m)) n"
  unfolding ids_minted_def by (simp split: if_splits)

lemma move_user_group:
  assumes g: "group_exact user_key_of m g" and a: "fmlookup m c = Some a"
    and same: "user_key_of a' = user_key_of a" and new: "fmlookup m c' = None"
  shows "group_exact user_key_of (fmupd c' a' (fmdrop c m))
      (case fmlookup g (user_key_of a') of None \<Rightarrow> g
       | Some cs \<Rightarrow> fmupd (user_key_of a') (retarget c c' cs) g)"
proof -
  have "c \<in> set (listed g (user_key_of a))"
    using a by (simp add: group_exact_set [OF g] members_def)
  then obtain cs where cs: "fmlookup g (user_key_of a) = Some cs"
    by (cases "fmlookup g (user_key_of a)") (simp_all add: listed_def)
  from group_exact_move [OF g a same new] show ?thesis
    by (simp add: cs same listed_def retarget_def)
qed

lemma move_indices_wf:
  fixes e :: u64
  assumes wf: "wf_store s" and a: "fmlookup (st_allocations s) old = Some a"
    and new: "fmlookup (st_allocations s) new = None"
  defines "a' \<equiv> a\<lparr>al_client_addr := new, al_migration_epoch := e\<rparr>"
  shows "wf_store (move_indices old a' (s\<lparr>st_allocations := fmdrop old (st_allocations s)\<rparr>))"
    (is "wf_store ?s")
proof -
  let ?m = "st_allocations s" and ?m' = "fmupd new a' (fmdrop old (st_allocations s))"
  note w = wf [unfolded wf_store_def]
  have same: "al_relay_addr a' = al_relay_addr a" "al_allocation_id a' = al_allocation_id a"
    "user_key_of a' = user_key_of a" "al_client_addr a' = new" "relay_port a' = relay_port a"
    by (simp_all add: a'_def user_key_of_def)
  have pools: "same_pools ?s s" by (simp add: same_pools_def move_indices_def Let_def)
  have own: "owns_ports ?m (port_held s)" using w by blast
  have other: "relay_port b \<noteq> relay_port a'" if "fmlookup (fmdrop old ?m) d = Some b" for d b
    using owns_portsD(2) [OF own _ a, of d b] that same(5) by (auto split: if_splits)
  have "wf_alloc a'" using wf_store_alloc [OF wf a] by (rule wf_alloc_fields) (simp_all add: a'_def)
  then have 1: "wf_entries ?m'" using w wf_entries_upd [of "fmdrop old ?m" a'] wf_entries_drop [of ?m old] same(4) by simp
  have 2: "index_exact al_relay_addr ?m' (fmupd (al_relay_addr a') new (st_relay_to_client s))"
    unfolding same(1) using w by (intro index_exact_move [OF _ a same(1) new]) blast
  have 3: "index_exact al_allocation_id ?m' (fmupd (al_allocation_id a') new (st_id_to_client s))"
    unfolding same(2) using w by (intro index_exact_move [OF _ a same(2) new]) blast
  have 4: "channels_indexed ?m' (fold (\<lambda>ch. fmupd (relay_port a', ch) new) (channel_numbers a') (st_channel_to_client s))"
    using w other by (intro channels_indexed_insert channels_indexed_sub) blast+
  have 5: "group_exact user_key_of ?m' (st_user_allocations ?s)"
  proof -
    have "group_exact user_key_of ?m (st_user_allocations s)" using w by blast
    from move_user_group [OF this a same(3) new] show ?thesis
      by (cases "fmlookup (st_user_allocations s) (user_key_of a')") (simp_all add: move_indices_def Let_def same(4))
  qed
  have 6: "ids_minted ?m' (st_next_id s)" "counts_exact ?m' (counters_of s)"
    using w same a new by (auto intro: ids_minted_move counts_exact_move)
  have 7: "owns_ports ?m' (port_held s)"
  proof (rule owns_ports_insert)
    show "owns_ports (fmdrop old ?m) (port_held s)" by (rule owns_ports_drop [OF own a])
    show "port_held s (relay_port a')" using owns_portsD(1) [OF own a] same(5) by simp
  qed (rule other)
  show ?thesis
    unfolding wf_store_def using 1 2 3 4 5 6 7 w same_pools_lookup [OF pools]
    by (simp add: move_indices_def Let_def same(4) counters_of_def)
qed

lemma re_key_rollback:
  assumes wf: "wf_store s" and a: "fmlookup (st_allocations s) old = Some a"
    and taken: "fmlookup (st_allocations s) new \<noteq> None" and "old \<noteq> new"
  shows "re_key ms id id old new s = (Err MigrationTargetInUse, s)"
proof -
  have "fmupd old a (fmdrop old (st_allocations s)) = st_allocations s"
    using a by (intro fmap_ext) auto
  moreover have "a\<lparr>al_client_addr := old\<rparr> = a" using wf_store_client [OF wf a] by (cases a) simp
  ultimately show ?thesis using assms by (simp add: re_key_def Let_def)
qed

lemma re_key_ok:
  assumes "fmlookup (st_allocations s) old = Some a" and "fmlookup (st_allocations s) new = None"
  shows "re_key ms id id old new s = (Ok (al_relay_addr a),
     emit_write (WReKey (relay_port a) new (al_migration_epoch a + 1))
       (move_indices old (a\<lparr>al_client_addr := new, al_migration_epoch := al_migration_epoch a + 1\<rparr>)
         (s\<lparr>st_allocations := fmdrop old (st_allocations s)\<rparr>)))"
  using assms by (auto simp: re_key_def Let_def)

lemma re_key_wf:
  assumes wf: "wf_store s"
  shows "wf_store (snd (re_key ms id id old new s))"
proof (cases "old = new \<or> fmlookup (st_allocations s) old = None")
  case True
  then show ?thesis using wf by (auto simp: re_key_def split: option.split)
next
  case False
  then obtain a where a: "fmlookup (st_allocations s) old = Some a" "old \<noteq> new" by auto
  show ?thesis
  proof (cases "fmlookup (st_allocations s) new")
    case None
    then show ?thesis using move_indices_wf [OF wf a(1) None] by (simp add: re_key_ok [OF a(1) None])
  next
    case (Some b)
    with re_key_rollback [OF wf a(1) _ a(2)] wf show ?thesis by simp
  qed
qed

section \<open>Creation\<close>

text \<open>A port the pool has handed out and no allocation uses yet.\<close>

definition port_ready :: "allocation_store \<Rightarrow> u16 \<Rightarrow> bool" where
  "port_ready s p \<longleftrightarrow> port_held s p \<and> (\<forall>d b. fmlookup (st_allocations s) d = Some b \<longrightarrow> relay_port b \<noteq> p)"

lemma ids_minted_insert:
  "ids_minted m n \<Longrightarrow> (\<And>k. unat n \<le> unat k \<Longrightarrow> al_allocation_id a \<noteq> hex16 k) \<Longrightarrow> ids_minted (fmupd c a m) n"
  unfolding ids_minted_def by (simp split: if_splits)

lemma ids_minted_later: "ids_minted m n \<Longrightarrow> unat n \<le> unat n' \<Longrightarrow> ids_minted m n'"
  unfolding ids_minted_def by (meson order_trans)

lemma install_wf:
  assumes wf: "wf_store s" and s1: "same_but_counts s1 s"
    and cnt: "counters_of s1 = bump (al_realm a) (al_tenant_id a) (al_username a) (counters_of s)"
    and nx: "unat (st_next_id s) \<le> unat n"
    and fresh: "\<And>k. unat n \<le> unat k \<Longrightarrow> al_allocation_id a \<noteq> hex16 k"
    and id: "\<And>d b. fmlookup (st_allocations s) d = Some b \<Longrightarrow> al_allocation_id b \<noteq> al_allocation_id a"
    and new: "fmlookup (st_allocations s) (al_client_addr a) = None"
    and a: "wf_alloc a" and ready: "port_ready s (relay_port a)"
  shows "wf_store (install a (s1\<lparr>st_next_id := n\<rparr>))"
proof -
  let ?s = "s1\<lparr>st_next_id := n\<rparr>"
  note f = same_but_counts_fields [OF s1]
  have f': "same_pools ?s s" "st_allocations ?s = st_allocations s"
    using f by (simp_all add: same_pools_def)
  have "wf_body ?s = wf_body s" using f by (intro wf_body_cong) (simp_all add: same_pools_def)
  then have b: "wf_body ?s" using wf by (simp add: wf_store_body)
  have "wf_body (install a ?s)"
    using new a ready id f' same_pools_lookup(3) [OF f'(1)]
    by (intro install_body [OF b]) (auto simp: port_ready_def)
  moreover have "ids_minted (fmupd (al_client_addr a) a (st_allocations s)) n"
    using wf nx fresh by (intro ids_minted_insert) (auto simp: wf_store_def intro: ids_minted_later)
  moreover have "counts_exact (fmupd (al_client_addr a) a (st_allocations s)) (counters_of s1)"
    unfolding cnt using wf new by (intro counts_exact_insert) (auto simp: wf_store_def)
  ultimately show ?thesis
    using f' by (simp add: wf_store_body install_def Let_def counters_of_def)
qed

lemma mint_next: "unat n + 1 < 2 ^ 64 \<Longrightarrow> unat (n + 1 :: u64) = unat n + 1"
  by (simp add: unat_word_ariths)

lemma create_cases:
  assumes "create_for_identity now ms ep c rel u key l realm t s = (r, s')"
  defines "ef \<equiv> effective_for s realm t u"
  obtains (refused) e s1 where "r = Err e" "s' = s1"
      "reserve_counters realm t u (ef_max_allocations ef) (ef_allocations_disabled ef \<or> ef_lifetime_disabled ef)
         (rl_max_allocations (st_runtime s)) s = (Err e, s1)"
  | (exists) g s1 where "r = Err AllocationExists" "fmlookup (st_allocations s) c \<noteq> None"
      "reserve_counters realm t u (ef_max_allocations ef) (ef_allocations_disabled ef \<or> ef_lifetime_disabled ef)
         (rl_max_allocations (st_runtime s)) s = (Ok g, s1)"
      "s' = CounterReservation_drop g (s1\<lparr>st_next_id := st_next_id s1 + 1\<rparr>)"
  | (created) g s1 where "r = Ok ()" "fmlookup (st_allocations s) c = None"
      "reserve_counters realm t u (ef_max_allocations ef) (ef_allocations_disabled ef \<or> ef_lifetime_disabled ef)
         (rl_max_allocations (st_runtime s)) s = (Ok g, s1)"
      "s' = emit_write (WCreate (sock_port rel) c rel u realm ep (ep + as_secs_ms l) (hex16 (st_next_id s1)) 0)
              (install (Allocation_new (hex16 (st_next_id s1)) c rel u key l realm t now ms)
                 (s1\<lparr>st_next_id := st_next_id s1 + 1\<rparr>))"
proof -
  obtain q s1 where q: "reserve_counters realm t u (ef_max_allocations ef) (ef_allocations_disabled ef \<or> ef_lifetime_disabled ef)
         (rl_max_allocations (st_runtime s)) s = (q, s1)" by fastforce
  note sp = reserve_spec [OF q]
  show thesis
  proof (cases q)
    case (Err e)
    show thesis
      using assms(1) q Err
      by (intro refused [of e s1]) (simp_all add: create_for_identity_def ef_def [symmetric] Let_def)
  next
    case Panic
    with sp show thesis by simp
  next
    case (Ok g)
    have al: "st_allocations s1 = st_allocations s" using sp same_but_counts_fields(2) by blast
    show thesis
    proof (cases "fmlookup (st_allocations s) c = None")
      case True
      then show thesis
        using assms(1) q Ok al
        by (intro created [of g s1]) (simp_all add: create_for_identity_def ef_def [symmetric] Let_def mint_id_def)
    next
      case False
      then show thesis
        using assms(1) q Ok al
        by (intro exists [of g s1]) (auto simp: create_for_identity_def ef_def [symmetric] Let_def mint_id_def)
    qed
  qed
qed

lemma Allocation_new_identity [simp]:
  "al_client_addr (Allocation_new i c rel u key l realm t now ms) = c"
  "al_relay_addr (Allocation_new i c rel u key l realm t now ms) = rel"
  "al_allocation_id (Allocation_new i c rel u key l realm t now ms) = i"
  "al_realm (Allocation_new i c rel u key l realm t now ms) = realm"
  "al_tenant_id (Allocation_new i c rel u key l realm t now ms) = t"
  "al_username (Allocation_new i c rel u key l realm t now ms) = u"
  by (simp_all add: Allocation_new_def)

lemma abandoned_gen:
  assumes wf: "wf_store s" and s1: "same_but_counts s1 s"
    and cnt: "counters_of s1 = bump realm t u (counters_of s)" and present: "entries_present realm t u s1"
    and nx: "unat (st_next_id s) \<le> unat n"
  shows "wf_store (CounterReservation_drop (full_guard realm t u) (s1\<lparr>st_next_id := n\<rparr>))"
proof -
  let ?s1 = "s1\<lparr>st_next_id := n\<rparr>"
  note f = same_but_counts_fields [OF s1]
  have ep: "entries_present realm t u ?s1" using present by (simp add: entries_present_def)
  have c1: "counters_of ?s1 = counters_of s1" by (simp add: counters_of_def)
  note d = drop_full [OF ep]
  note fd = same_but_counts_fields [OF d(1)]
  have "counters_of (CounterReservation_drop (full_guard realm t u) ?s1) = counters_of s"
    using d(2) c1 cnt by simp
  moreover have "ids_minted (st_allocations s) n"
    using wf nx by (auto simp: wf_store_def intro: ids_minted_later)
  moreover have "wf_body (CounterReservation_drop (full_guard realm t u) ?s1) = wf_body s"
    using fd f by (intro wf_body_cong) (simp_all add: same_pools_def)
  ultimately show ?thesis using wf fd f by (simp add: wf_store_body)
qed

lemma abandoned_wf:
  assumes wf: "wf_store s" and r: "reserve_counters realm t u a b c s = (Ok g, s1)"
    and nx: "unat (st_next_id s) \<le> unat n"
  shows "wf_store (CounterReservation_drop g (s1\<lparr>st_next_id := n\<rparr>))"
proof -
  from reserve_spec [OF r] have sp: "same_but_counts s1 s" "g = full_guard realm t u"
    "counters_of s1 = bump realm t u (counters_of s)" "entries_present realm t u s1" by auto
  from abandoned_gen [OF wf sp(1,3,4) nx] show ?thesis by (simp add: sp(2))
qed

lemma create_wf:
  assumes wf: "wf_store s" and ready: "port_ready s (sock_port rel)" and nx: "unat (st_next_id s) + 1 < 2 ^ 64"
    and c: "create_for_identity now ms ep c rel u key l realm t s = (r, s')"
  shows "wf_store s'"
  using c
proof (cases rule: create_cases)
  case (refused e s1)
  then show ?thesis using reserve_spec [OF refused(3)] same_but_counts_wf [of s1 s] wf by simp
next
  case (exists g s1)
  have "st_next_id s1 = st_next_id s" using reserve_spec [OF exists(3)] same_but_counts_fields(7) by blast
  then show ?thesis
    using nx unfolding exists(4) by (intro abandoned_wf [OF wf exists(3)]) (simp add: mint_next)
next
  case (created g s1)
  let ?a = "Allocation_new (hex16 (st_next_id s1)) c rel u key l realm t now ms"
  from reserve_spec [OF created(3)] have sp: "same_but_counts s1 s"
    "counters_of s1 = bump realm t u (counters_of s)" by auto
  have n: "st_next_id s1 = st_next_id s" by (rule same_but_counts_fields(7) [OF sp(1)])
  have "wf_store (install ?a (s1\<lparr>st_next_id := st_next_id s1 + 1\<rparr>))"
  proof (rule install_wf [OF wf sp(1)])
    show "al_allocation_id b \<noteq> al_allocation_id ?a" if "fmlookup (st_allocations s) d = Some b" for d b
      using wf that n unfolding wf_store_def ids_minted_def by simp
    show "al_allocation_id ?a \<noteq> hex16 k" if "unat (st_next_id s1 + 1) \<le> unat k" for k
      using that n mint_next [OF nx] by auto
  qed (use sp(2) n mint_next [OF nx] created(2) ready Allocation_new_wf in simp_all)
  then show ?thesis by (simp add: created(4))
qed

end
