(* ===== verification/Port_Source.thy ===== *)
theory Port_Source
  imports Port_Allocator
begin

text \<open>
  The interface between the port pool and the allocation store: a way to acquire a relay port. The
  server has four, a plain port with a bound UDP socket, a plain port for a TCP allocation, an even
  port with or without its neighbour reserved, and the port behind a reservation token. Whatever the
  way, an acquired port belongs to the range, nobody held it before, and it is the only port whose
  holder changes.
\<close>

locale port_source =
  fixes acquire :: "port_allocator \<Rightarrow> u16 option \<Rightarrow> port_allocator \<Rightarrow> bool"
  assumes acquire_wf: "wf_ports pa \<Longrightarrow> acquire pa r pa' \<Longrightarrow> wf_ports pa'"
    and acquire_range: "wf_ports pa \<Longrightarrow> acquire pa r pa' \<Longrightarrow> in_range pa' = in_range pa"
    and acquire_none: "wf_ports pa \<Longrightarrow> acquire pa None pa' \<Longrightarrow> held_ports pa' = held_ports pa"
    and acquire_some: "wf_ports pa \<Longrightarrow> acquire pa (Some p) pa' \<Longrightarrow>
      p \<in> in_range pa \<and> p \<notin> held_ports pa \<and> held_ports pa' = insert p (held_ports pa)"
begin

lemma acquire_mono: "wf_ports pa \<Longrightarrow> acquire pa r pa' \<Longrightarrow> held_ports pa \<subseteq> held_ports pa'"
  using acquire_none acquire_some by (cases r) auto

text \<open>Two acquisitions in a row never return the same port.\<close>

lemma acquire_distinct:
  assumes "wf_ports pa" "acquire pa (Some p) pa1" "acquire pa1 (Some q) pa2"
  shows "p \<noteq> q"
  using acquire_some [OF assms(1,2)] acquire_some [OF acquire_wf [OF assms(1,2)] assms(3)] by auto

end

definition acquire_udp ::
  "(nat \<Rightarrow> relay_family \<Rightarrow> u16 \<Rightarrow> bool) \<Rightarrow> relay_family \<Rightarrow> port_allocator \<Rightarrow> u16 option \<Rightarrow> port_allocator \<Rightarrow> bool" where
  "acquire_udp bind family pa r pa' \<longleftrightarrow> allocate_and_bind_family bind family pa = Some (r, pa')"

definition acquire_tcp :: "port_allocator \<Rightarrow> u16 option \<Rightarrow> port_allocator \<Rightarrow> bool" where
  "acquire_tcp pa r pa' \<longleftrightarrow>
     (\<exists>q. pa_allocate pa = Some (q, pa') \<and> r = (case q of Ok p \<Rightarrow> Some p | _ \<Rightarrow> None))"

definition acquire_even ::
  "(nat \<Rightarrow> relay_family \<Rightarrow> u16 \<Rightarrow> bool) \<Rightarrow> (nat \<Rightarrow> bytes) \<Rightarrow> instant \<Rightarrow> bool \<Rightarrow> relay_family
   \<Rightarrow> port_allocator \<Rightarrow> u16 option \<Rightarrow> port_allocator \<Rightarrow> bool" where
  "acquire_even bind rnd now reserve_next family pa r pa' \<longleftrightarrow>
     (\<forall>i < 64. rnd i |\<notin>| fmdom (pa_reservations pa))
     \<and> (\<exists>q. allocate_even_and_bind_family bind rnd now reserve_next family pa = (q, pa') \<and> r = map_option fst q)"

definition acquire_claim ::
  "(relay_family \<Rightarrow> u16 \<Rightarrow> bool) \<Rightarrow> bytes \<Rightarrow> instant \<Rightarrow> relay_family
   \<Rightarrow> port_allocator \<Rightarrow> u16 option \<Rightarrow> port_allocator \<Rightarrow> bool" where
  "acquire_claim bind token now family pa r pa' \<longleftrightarrow> claim_and_bind_family bind token now family pa = (r, pa')"

lemma used_is_held: "wf_ports pa \<Longrightarrow> p \<notin> pa_used pa \<Longrightarrow> p \<notin> held_ports pa \<and> p \<notin> reserved_ports pa"
  by (auto simp: wf_ports_def held_ports_def)

lemma held_after_use:
  assumes "wf_ports pa" "p \<notin> pa_used pa"
  shows "held_ports (pa\<lparr>pa_next_port := nx, pa_used := insert p (pa_used pa)\<rparr>) = insert p (held_ports pa)"
    "held_ports (pa\<lparr>pa_used := insert p (pa_used pa)\<rparr>) = insert p (held_ports pa)"
  using used_is_held [OF assms] by (auto simp: held_ports_def reserved_ports_def)

lemma pool_update_simps [simp]:
  "held_ports (pa\<lparr>pa_next_port := nx\<rparr>) = held_ports pa"
  "in_range (pa\<lparr>pa_next_port := nx\<rparr>) = in_range pa" "in_range (pa\<lparr>pa_used := u\<rparr>) = in_range pa"
  "in_range (pa\<lparr>pa_next_port := nx, pa_used := u\<rparr>) = in_range pa"
  "in_range (pa_release pa p) = in_range pa"
  by (simp_all add: held_ports_def reserved_ports_def in_range_def pa_contains_def pa_release_def)

lemma udp_cases:
  assumes wf: "wf_ports pa" and a: "acquire_udp bind family pa r pa'"
  shows "wf_ports pa' \<and> in_range pa' = in_range pa
    \<and> (case r of None \<Rightarrow> held_ports pa' = held_ports pa
       | Some p \<Rightarrow> p \<in> in_range pa \<and> p \<notin> held_ports pa \<and> held_ports pa' = insert p (held_ports pa))"
proof -
  have s: "bind_loop bind family 64 pa = Some (r, pa')"
    using a by (simp add: acquire_udp_def allocate_and_bind_family_def)
  from bind_loop_spec [OF wf, of bind family 64] s
  show ?thesis by (auto simp: held_after_use [OF wf] dest: used_is_held [OF wf] split: option.splits)
qed

lemma tcp_cases:
  assumes wf: "wf_ports pa" and a: "acquire_tcp pa r pa'"
  shows "wf_ports pa' \<and> in_range pa' = in_range pa
    \<and> (case r of None \<Rightarrow> held_ports pa' = held_ports pa
       | Some p \<Rightarrow> p \<in> in_range pa \<and> p \<notin> held_ports pa \<and> held_ports pa' = insert p (held_ports pa))"
proof -
  from a obtain q where q: "pa_allocate pa = Some (q, pa')" "r = (case q of Ok p \<Rightarrow> Some p | _ \<Rightarrow> None)"
    by (auto simp: acquire_tcp_def)
  from allocate_spec [OF wf] q
  show ?thesis by (cases q) (auto simp: held_after_use [OF wf] dest: used_is_held [OF wf])
qed

lemma even_alloc_held:
  assumes wf: "wf_ports pa" and a: "allocate_even pa = (Some p, pa')"
  shows "wf_ports pa' \<and> in_range pa' = in_range pa \<and> p \<in> in_range pa \<and> p \<notin> held_ports pa
    \<and> held_ports pa' = insert p (held_ports pa)"
  using allocate_even_spec [OF wf] a used_is_held [OF wf, of p]
  by (auto simp: held_after_use [OF wf])

lemma even_reserve_held:
  assumes wf: "wf_ports pa" and fresh: "token |\<notin>| fmdom (pa_reservations pa)"
    and a: "allocate_even_with_reservation token now pa = (Some (p, t), pa')"
  shows "wf_ports pa' \<and> in_range pa' = in_range pa \<and> p \<in> in_range pa \<and> p \<notin> held_ports pa
    \<and> held_ports pa' = insert p (held_ports pa)"
proof -
  from even_reservation_spec [OF wf fresh, of now] a
  have s: "p \<notin> pa_used pa" "p + 1 \<notin> pa_used pa" "p \<in> in_range pa" "wf_ports pa'"
    "pa_used pa' = insert (p + 1) (insert p (pa_used pa))" "reserved_ports pa' = insert (p + 1) (reserved_ports pa)"
    "p \<noteq> p + 1" by auto
  have "in_range pa' = in_range pa"
    using a by (auto simp: allocate_even_with_reservation_def in_range_def pa_contains_def split: option.splits)
  moreover have "held_ports pa' = insert p (held_ports pa)"
    using s used_is_held [OF wf s(1)] used_is_held [OF wf s(2)] by (auto simp: held_ports_def)
  ultimately show ?thesis using s used_is_held [OF wf s(1)] by simp
qed

lemma even_cases:
  assumes wf: "wf_ports pa" and a: "acquire_even bind rnd now reserve_next family pa r pa'"
  shows "wf_ports pa' \<and> in_range pa' = in_range pa
    \<and> (case r of None \<Rightarrow> held_ports pa' = held_ports pa
       | Some p \<Rightarrow> p \<in> in_range pa \<and> p \<notin> held_ports pa \<and> held_ports pa' = insert p (held_ports pa))"
proof -
  from a obtain q where fresh: "\<forall>i < 64. rnd i |\<notin>| fmdom (pa_reservations pa)"
    and q: "even_bind_loop bind rnd now reserve_next family 64 pa = (q, pa')" "r = map_option fst q"
    by (auto simp: acquire_even_def allocate_even_and_bind_family_def)
  note eq = even_bind_loop_eq [OF wf fresh, of bind now reserve_next family]
  show ?thesis
  proof (cases "\<exists>p. even_candidate reserve_next pa = Some p \<and> (\<exists>i < 64. bind i family p)")
    case False
    then have "q = None \<and> pa' = pa"
      using eq q by (cases "even_candidate reserve_next pa") (auto split: if_splits)
    with wf q(2) show ?thesis by simp
  next
    case True
    then obtain p where p: "even_candidate reserve_next pa = Some p" "\<exists>i < 64. bind i family p" by blast
    let ?i = "Max {i. i < 64 \<and> bind i family p}"
    have "?i \<in> {i. i < 64 \<and> bind i family p}" using p(2) by (intro Max_in) auto
    then have tok: "rnd ?i |\<notin>| fmdom (pa_reservations pa)" using fresh by blast
    show ?thesis
    proof (cases reserve_next)
      case True
      then have "allocate_even_with_reservation (rnd ?i) now pa = (Some (p, rnd ?i), pa') \<and> r = Some p"
        using eq q p by (auto simp: Let_def even_candidate_def allocate_even_with_reservation_def)
      then have e: "allocate_even_with_reservation (rnd ?i) now pa = (Some (p, rnd ?i), pa')" and "r = Some p" by blast+
      with even_reserve_held [OF wf tok e] show ?thesis by simp
    next
      case False
      then have "allocate_even pa = (Some p, pa') \<and> r = Some p"
        using eq q p by (auto simp: Let_def even_candidate_def allocate_even_def)
      then have e: "allocate_even pa = (Some p, pa')" and "r = Some p" by blast+
      with even_alloc_held [OF wf e] show ?thesis by simp
    qed
  qed
qed

lemma reserved_in_range: "wf_ports pa \<Longrightarrow> fmlookup (pa_reservations pa) t = Some v \<Longrightarrow> rv_port v \<in> in_range pa"
  unfolding wf_ports_def reserved_ports_def by (meson fmran'I imageI subsetD)

lemma claim_cases:
  assumes wf: "wf_ports pa" and a: "acquire_claim bind token now family pa r pa'"
  shows "wf_ports pa' \<and> in_range pa' = in_range pa
    \<and> (case r of None \<Rightarrow> held_ports pa' = held_ports pa
       | Some p \<Rightarrow> p \<in> in_range pa \<and> p \<notin> held_ports pa \<and> held_ports pa' = insert p (held_ports pa))"
proof -
  have a': "claim_and_bind_family bind token now family pa = (r, pa')" using a by (simp add: acquire_claim_def)
  obtain q pa1 where c: "claim_reservation token now pa = (q, pa1)" by fastforce
  note cs = claim_spec [OF wf c]
  have w: "wf_ports pa'" by (rule claim_and_bind_wf [OF wf a'])
  show ?thesis
  proof (cases q)
    case None
    then show ?thesis using a' c cs w by (auto simp: claim_and_bind_family_def)
  next
    case (Some p)
    then have p: "p \<in> in_range pa" "p \<notin> held_ports pa" "held_ports pa1 = insert p (held_ports pa)"
      using cs(4) reserved_in_range [OF wf] by auto
    have "held_ports (pa_release pa1 p) = held_ports pa"
      using p by (auto simp: held_ports_def reserved_ports_def pa_release_def)
    then show ?thesis
      using a' c cs(2) w Some p by (auto simp: claim_and_bind_family_def split: if_splits)
  qed
qed

interpretation udp: port_source "acquire_udp bind family" for bind family
  using udp_cases [of _ bind family] by unfold_locales (fastforce split: option.splits)+

interpretation tcp: port_source acquire_tcp
  using tcp_cases by unfold_locales (fastforce split: option.splits)+

interpretation even_port: port_source "acquire_even bind rnd now reserve_next family"
  for bind rnd now reserve_next family
  using even_cases [of _ bind rnd now reserve_next family] by unfold_locales (fastforce split: option.splits)+

interpretation claim: port_source "acquire_claim bind token now family" for bind token now family
  using claim_cases [of _ bind token now family] by unfold_locales (fastforce split: option.splits)+

end
