(* ===== verification/Store_Lifecycle.thy ===== *)
theory Store_Lifecycle
  imports Store_Operations Port_Source "HOL-Library.Sublist"
begin

text \<open>
  The parts of the store's life that span components: a port acquired from a pool becomes ready for
  an allocation, a persisted allocation is restored on its own port, and the periodic sweep expires
  allocations, stale entries and unclaimed reservations. The lemmas about acquiring a port are proved
  once for any way of acquiring one.
\<close>

section \<open>Acquiring a port\<close>

lemma wf_store_pools:
  assumes wf: "wf_store s" and pools: "wf_pools s'"
    and held: "\<And>d b. fmlookup (st_allocations s) d = Some b \<Longrightarrow> port_held s' (relay_port b)"
    and "st_allocations s' = st_allocations s"
    "st_relay_to_client s' = st_relay_to_client s" "st_id_to_client s' = st_id_to_client s"
    "st_channel_to_client s' = st_channel_to_client s" "st_user_allocations s' = st_user_allocations s"
    "st_next_id s' = st_next_id s" "counters_of s' = counters_of s"
  shows "wf_store s'"
proof -
  note w = wf [unfolded wf_store_def]
  have own: "owns_ports (st_allocations s) (port_held s)" using w by blast
  then have "owns_ports (st_allocations s) (port_held s')"
    using held owns_portsD(2) [OF own] by (intro owns_portsI) blast+
  then show ?thesis unfolding wf_store_def assms(4-10) using w pools by blast
qed

lemma wf_store_held: "wf_store s \<Longrightarrow> fmlookup (st_allocations s) d = Some b \<Longrightarrow> port_held s (relay_port b)"
  unfolding wf_store_def using owns_portsD(1) by blast

lemma pool_wf:
  assumes "wf_pools s"
  shows "wf_ports (pool s t)"
proof -
  have "wf_ports (tp_ports x)" if "List.find P (st_tenant_pools s) = Some x" for P x
    using find_Some_split [OF that, of id] assms by (auto simp: wf_pools_def)
  with assms show ?thesis by (auto simp: wf_pools_def pool_def split: option.split)
qed

lemma pool_in_range: "wf_pools s \<Longrightarrow> pa_min_port (pool s t) \<in> in_range (pool s t)"
  using pool_wf [of s t] by (auto simp: wf_ports_def in_range_def pa_contains_def)

lemma upd_pool_fields' [simp]:
  "st_allocations (upd_pool t f s) = st_allocations s"
  "st_relay_to_client (upd_pool t f s) = st_relay_to_client s"
  "st_channel_to_client (upd_pool t f s) = st_channel_to_client s"
  "st_id_to_client (upd_pool t f s) = st_id_to_client s"
  "st_next_id (upd_pool t f s) = st_next_id s"
  "st_user_allocations (upd_pool t f s) = st_user_allocations s"
  "counters_of (upd_pool t f s) = counters_of s"
  "st_runtime (upd_pool t f s) = st_runtime s" "st_user_limits (upd_pool t f s) = st_user_limits s"
  by (simp_all add: upd_pool_def counters_of_def split: option.split)

lemma replace_pool:
  assumes wf: "wf_pools s" and p: "p \<in> in_range (pool s t)"
    and pa: "wf_ports pa'" "in_range pa' = in_range (pool s t)"
  shows "wf_pools (upd_pool t (\<lambda>_. pa') s)" "pool_for_port (upd_pool t (\<lambda>_. pa') s) p = pa'"
    "pool_for_port (upd_pool t (\<lambda>_. pa') s) q = pool_for_port s q
     \<or> pool_for_port s q = pool s t \<and> pool_for_port (upd_pool t (\<lambda>_. pa') s) q = pa'"
proof -
  note b = pool_by_port [OF wf p]
  have r: "in_range ((\<lambda>_. pa') (pool_for_port s p)) = in_range (pool_for_port s p)" using pa(2) b(1) by simp
  note u = upd_pool_spec [where f = "\<lambda>_. pa'" and s = s and p = p, OF r]
  show "wf_pools (upd_pool t (\<lambda>_. pa') s)" unfolding b(2) using u(4) wf pa(1) by blast
  show "pool_for_port (upd_pool t (\<lambda>_. pa') s) p = pa'" unfolding b(2) using u(1) by simp
  show "pool_for_port (upd_pool t (\<lambda>_. pa') s) q = pool_for_port s q
     \<or> pool_for_port s q = pool s t \<and> pool_for_port (upd_pool t (\<lambda>_. pa') s) q = pa'"
    unfolding b(2) using u(2) [of q] b(1) by simp
qed

lemma grow_pool_wf:
  assumes wf: "wf_store s" and pa: "wf_ports pa'" "in_range pa' = in_range (pool s t)"
    and grow: "held_ports (pool s t) \<subseteq> held_ports pa'"
  shows "wf_store (upd_pool t (\<lambda>_. pa') s)"
proof -
  have wp: "wf_pools s" using wf by (simp add: wf_store_def)
  note r = replace_pool [OF wp pool_in_range [OF wp] pa]
  have "port_held (upd_pool t (\<lambda>_. pa') s) q" if "port_held s q" for q
    using that r(3) [of q] grow by (auto simp: port_held_def)
  then show ?thesis using wf_store_held [OF wf] by (intro wf_store_pools [OF wf r(1)]) auto
qed

text \<open>Giving back a port that no allocation uses.\<close>

lemma release_ready_wf:
  assumes wf: "wf_store s" and ready: "port_ready s p"
  shows "wf_store (upd_pool_for_port p (\<lambda>pa. pa_release pa p) s)"
proof -
  have h: "wf_pools s" "port_held s p" using wf ready by (simp_all add: wf_store_def port_ready_def)
  show ?thesis
    using release_pool [OF h] wf_store_held [OF wf] ready
    by (intro wf_store_pools [OF wf]) (auto simp: port_ready_def counters_of_def)
qed

lemma cancel_wf:
  assumes wf: "wf_store s"
  shows "wf_store (upd_pool_for_port p (cancel_reservation tok) s)"
    "port_ready (upd_pool_for_port p (cancel_reservation tok) s) q = port_ready s q"
proof -
  have wp: "wf_pools s" using wf by (simp add: wf_store_def)
  note c = cancel_spec [OF pool_for_port_wf [OF wp], of tok]
  note u = upd_pool_spec [where f = "cancel_reservation tok" and s = s and p = p, OF c(3)]
  have held: "port_held (upd_pool_for_port p (cancel_reservation tok) s) q = port_held s q" for q
    using u(2) [of q]
  proof
    assume "pool_for_port (upd_pool_for_port p (cancel_reservation tok) s) q = pool_for_port s q"
    then show ?thesis by (simp add: port_held_def)
  next
    assume *: "pool_for_port s q = pool_for_port s p \<and>
       pool_for_port (upd_pool_for_port p (cancel_reservation tok) s) q = cancel_reservation tok (pool_for_port s q)"
    then have "held_ports (pool_for_port (upd_pool_for_port p (cancel_reservation tok) s) q) = held_ports (pool_for_port s q)"
      using c(2) by metis
    then show ?thesis by (simp add: port_held_def)
  qed
  have "wf_pools (upd_pool_for_port p (cancel_reservation tok) s)" using u(4) wp c(1) by blast
  then show "wf_store (upd_pool_for_port p (cancel_reservation tok) s)"
    using wf_store_held [OF wf] by (intro wf_store_pools [OF wf]) (simp_all add: held counters_of_def)
  show "port_ready (upd_pool_for_port p (cancel_reservation tok) s) q = port_ready s q"
    by (simp add: port_ready_def held)
qed

context port_source
begin

lemma acquire_store_none:
  "wf_store s \<Longrightarrow> acquire (pool s t) None pa' \<Longrightarrow> wf_store (upd_pool t (\<lambda>_. pa') s)"
  using acquire_wf [OF pool_wf] acquire_range [OF pool_wf] acquire_none [OF pool_wf]
  by (intro grow_pool_wf) (auto simp: wf_store_def)

lemma acquire_store_some:
  assumes wf: "wf_store s" and a: "acquire (pool s t) (Some p) pa'"
  shows "wf_store (upd_pool t (\<lambda>_. pa') s)" "port_ready (upd_pool t (\<lambda>_. pa') s) p"
proof -
  have wp: "wf_pools s" using wf by (simp add: wf_store_def)
  note w = pool_wf [OF wp, of t]
  note a1 = acquire_wf [OF w a] and a2 = acquire_range [OF w a] and a3 = acquire_some [OF w a]
  show "wf_store (upd_pool t (\<lambda>_. pa') s)" using a3 by (intro grow_pool_wf [OF wf a1 a2]) blast
  have p: "p \<in> in_range (pool s t)" using a3 by simp
  have "port_held (upd_pool t (\<lambda>_. pa') s) p"
    using replace_pool(2) [OF wp p a1 a2] a3 by (simp add: port_held_def)
  moreover have "\<not> port_held s p" using a3 pool_by_port(1) [OF wp p] by (simp add: port_held_def)
  ultimately show "port_ready (upd_pool t (\<lambda>_. pa') s) p"
    using wf_store_held [OF wf] by (auto simp: port_ready_def)
qed

end


section \<open>Restoring\<close>

text \<open>A persisted row whose channels respect RFC 8656 section 12.2.\<close>

definition good_channels :: "(u16 \<times> socket_addr \<times> u64) list \<Rightarrow> bool" where
  "good_channels chans \<longleftrightarrow>
     distinct (map fst chans) \<and> distinct (map (fst \<circ> snd) chans) \<and> length chans \<le> 256"

lemma restore_channels_inv:
  assumes "inverse_maps bs rv" and "distinct (map fst chans)" "distinct (map (fst \<circ> snd) chans)"
    and "\<forall>x \<in> set chans. fmlookup bs (fst x) = None \<and> fmlookup rv (fst (snd x)) = None"
    and "fcard (fmdom bs) + length chans \<le> n"
  shows "case fold (\<lambda>(number, peer_addr, chan_expires) (bs, rv).
             if chan_expires \<le> now_epoch then (bs, rv)
             else (fmupd number \<lparr> cb_channel = number, cb_peer_addr = peer_addr,
                     cb_expires_at = now_inst + from_millis (chan_expires - now_epoch) \<rparr> bs,
                   fmupd peer_addr number rv)) chans (bs, rv) of
     (bs', rv') \<Rightarrow> inverse_maps bs' rv' \<and> fcard (fmdom bs') \<le> n"
  using assms
proof (induction chans arbitrary: bs rv)
  case (Cons x chans)
  obtain ch p e where x: "x = (ch, p, e)" by (cases x)
  let ?b = "\<lparr> cb_channel = ch, cb_peer_addr = p, cb_expires_at = now_inst + from_millis (e - now_epoch) \<rparr>"
  show ?case
  proof (cases "e \<le> now_epoch")
    case True
    then show ?thesis using Cons.IH [of bs rv] Cons.prems x by simp
  next
    case False
    have none: "fmlookup bs ch = None" "fmlookup rv p = None" using Cons.prems(4) x by simp_all
    have "inverse_maps (fmupd ch ?b bs) (fmupd p ch rv)"
      by (rule inverse_maps_fresh [OF Cons.prems(1) none(1)]) (simp_all add: none)
    moreover have "fcard (fmdom (fmupd ch ?b bs)) = fcard (fmdom bs) + 1"
      by (rule fcard_fmupd_new [OF none(1)])
    moreover have "fmlookup (fmupd ch ?b bs) (fst y) = None \<and> fmlookup (fmupd p ch rv) (fst (snd y)) = None"
      if "y \<in> set chans" for y
    proof -
      have "ch \<noteq> fst y" "p \<noteq> fst (snd y)" using Cons.prems(2,3) x that by force+
      then show ?thesis using Cons.prems(4) that by simp
    qed
    ultimately show ?thesis
      using Cons.IH [of "fmupd ch ?b bs" "fmupd p ch rv"] Cons.prems x False by simp
  qed
qed simp

lemma restore_perms_keyed_fold:
  "perms_keyed m \<Longrightarrow> perms_keyed (fold (\<lambda>(peer_ip, perm_expires) m.
             if perm_expires \<le> now_epoch then m
             else fmupd peer_ip \<lparr> pm_peer_ip = peer_ip,
                    pm_expires_at = now_inst + from_millis (perm_expires - now_epoch) \<rparr> m) ps m)"
proof (induction ps arbitrary: m)
  case (Cons x ps)
  obtain ip e where x: "x = (ip, e)" by (cases x)
  show ?case
  proof (cases "e \<le> now_epoch")
    case True
    then show ?thesis using Cons x by simp
  next
    case False
    have "perms_keyed (fmupd ip \<lparr> pm_peer_ip = ip, pm_expires_at = now_inst + from_millis (e - now_epoch) \<rparr> m)"
      by (rule perms_keyed_upd [OF Cons.prems]) simp
    from Cons.IH [OF this] show ?thesis using False x by simp
  qed
qed simp

lemma restored_wf:
  assumes "good_channels chans"
  shows "wf_alloc (restored_allocation ep now i c rel u realm t e cr ex ps chans)"
proof -
  obtain bs rv where r: "restore_channels ep now chans = (bs, rv)" by fastforce
  have "inverse_maps bs rv \<and> fcard (fmdom bs) \<le> 256"
    using restore_channels_inv [of fmempty fmempty chans 256 ep now] assms r
    by (simp add: inverse_maps_empty good_channels_def restore_channels_def fcard.rep_eq)
  moreover have "perms_keyed (restore_perms ep now ps)"
    unfolding restore_perms_def by (rule restore_perms_keyed_fold) (simp add: perms_keyed_def)
  ultimately show ?thesis
    by (simp add: wf_alloc_def restored_allocation_def r channel_count_def rust_const Let_def)
qed

lemma restored_identity [simp]:
  "al_client_addr (restored_allocation ep now i c rel u realm t e cr ex ps chans) = c"
  "al_relay_addr (restored_allocation ep now i c rel u realm t e cr ex ps chans) = rel"
  "al_allocation_id (restored_allocation ep now i c rel u realm t e cr ex ps chans) = i"
  "al_realm (restored_allocation ep now i c rel u realm t e cr ex ps chans) = realm"
  "al_tenant_id (restored_allocation ep now i c rel u realm t e cr ex ps chans) = t"
  "al_username (restored_allocation ep now i c rel u realm t e cr ex ps chans) = u"
  by (simp_all add: restored_allocation_def Let_def split: prod.split)

text \<open>
  The id of a persisted row is usable when it names no live allocation and the node will not mint it
  itself; an empty id is replaced by a minted one.
\<close>

definition usable_id :: "string \<Rightarrow> allocation_store \<Rightarrow> bool" where
  "usable_id i s \<longleftrightarrow> i = [] \<or>
     ((\<forall>d b. fmlookup (st_allocations s) d = Some b \<longrightarrow> al_allocation_id b \<noteq> i)
      \<and> (\<forall>k. unat (st_next_id s) \<le> unat k \<longrightarrow> i \<noteq> hex16 k))"

lemma reserve_pool:
  assumes wf: "wf_store s" and r: "pa_reserve p (pool_for_port s p) = (Ok x, pa)"
  shows "wf_store (upd_pool_for_port p (\<lambda>_. pa) s)" "port_ready (upd_pool_for_port p (\<lambda>_. pa) s) p"
proof -
  have wp: "wf_pools s" using wf by (simp add: wf_store_def)
  note w = pool_for_port_wf [OF wp, of p]
  have pa: "pa = (pool_for_port s p)\<lparr>pa_used := insert p (pa_used (pool_for_port s p))\<rparr>"
    and unused: "p \<notin> pa_used (pool_for_port s p)"
    using r by (auto simp: pa_reserve_def split: if_splits)
  have range: "in_range ((\<lambda>_. pa) (pool_for_port s p)) = in_range (pool_for_port s p)" by (simp add: pa)
  have held: "held_ports pa = insert p (held_ports (pool_for_port s p))"
    unfolding pa by (rule held_after_use(2) [OF w unused])
  note u = upd_pool_spec [where f = "\<lambda>_. pa" and s = s and p = p, OF range]
  have "wf_pools (upd_pool_for_port p (\<lambda>_. pa) s)" using u(4) wp reserve_wf [OF w r] by blast
  moreover have mono: "port_held (upd_pool_for_port p (\<lambda>_. pa) s) q" if "port_held s q" for q
    using u(2) [of q]
  proof
    assume "pool_for_port (upd_pool_for_port p (\<lambda>_. pa) s) q = pool_for_port s q"
    then show ?thesis using that by (simp add: port_held_def)
  next
    assume *: "pool_for_port s q = pool_for_port s p \<and> pool_for_port (upd_pool_for_port p (\<lambda>_. pa) s) q = pa"
    have "q \<in> held_ports (pool_for_port s p)" using that conjunct1 [OF *] unfolding port_held_def by simp
    then show ?thesis using conjunct2 [OF *] held unfolding port_held_def by simp
  qed
  ultimately show "wf_store (upd_pool_for_port p (\<lambda>_. pa) s)"
    using wf_store_held [OF wf] by (intro wf_store_pools [OF wf]) (auto simp: counters_of_def)
  have "\<not> port_held s p" using unused by (simp add: port_held_def held_ports_def)
  moreover have "port_held (upd_pool_for_port p (\<lambda>_. pa) s) p" using u(1) held by (simp add: port_held_def)
  ultimately show "port_ready (upd_pool_for_port p (\<lambda>_. pa) s) p"
    using wf_store_held [OF wf] by (auto simp: port_ready_def)
qed


lemma next_id_noop: "st_next_id x = n \<Longrightarrow> x\<lparr>st_next_id := n\<rparr> = x"
  by (cases x) simp

lemma rehydrate_cases:
  assumes "rehydrate ep now c rel u realm i e cr ex ps chans s = (r, s')"
  defines "t \<equiv> tenant_id_for_port s (sock_port rel)"
  defines "ef \<equiv> effective_for s realm t u"
  defines "rc \<equiv> reserve_counters realm t u (ef_max_allocations ef)
       (ef_allocations_disabled ef \<or> ef_lifetime_disabled ef) (rl_max_allocations (st_runtime s)) s"
  obtains (stale) "ex \<le> ep" "r = Ok False" "s' = s"
  | (refused) err s1 where "r = Err err" "s' = s1" "rc = (Err err, s1)"
  | (no_port) err g s1 where "r = Err err" "rc = (Ok g, s1)" "s' = CounterReservation_drop g s1"
  | (port) g s1 pa x i' n s2 where "rc = (Ok g, s1)" "pa_reserve (sock_port rel) (pool_for_port s1 (sock_port rel)) = (Ok x, pa)"
      "(i', n) = (if i = [] then (hex16 (st_next_id s), st_next_id s + 1) else (i, st_next_id s))"
      "s2 = (upd_pool_for_port (sock_port rel) (\<lambda>_. pa) s1)\<lparr>st_next_id := n\<rparr>"
      "fmlookup (st_allocations s) c \<noteq> None \<and> r = Err AllocationExists
          \<and> s' = CounterReservation_drop g (upd_pool_for_port (sock_port rel) (\<lambda>pa. pa_release pa (sock_port rel)) s2)
       \<or> fmlookup (st_allocations s) c = None \<and> r = Ok True
          \<and> s' = install (restored_allocation ep now i' c rel u realm t e cr ex ps chans) s2"
proof (cases "ex \<le> ep")
  case True
  then show thesis using assms(1) stale by (simp add: rehydrate_def)
next
  case False
  obtain q s1 where q: "rc = (q, s1)" by fastforce
  note sp = reserve_spec [OF q [unfolded rc_def]]
  have f: "st_allocations s1 = st_allocations s" "st_next_id s1 = st_next_id s"
    using sp same_but_counts_fields(2,7) by blast+
  note unf = assms(1) [unfolded rehydrate_def Let_def, folded t_def, folded ef_def, folded rc_def]
  show thesis
  proof (cases q)
    case (Err err)
    then show thesis using unf False q by (intro refused [of err s1]) simp_all
  next
    case Panic
    with sp show thesis by simp
  next
    case (Ok g)
    obtain v pa where v: "pa_reserve (sock_port rel) (pool_for_port s1 (sock_port rel)) = (v, pa)" by fastforce
    show thesis
    proof (cases v)
      case (Err err)
      then show thesis using unf False q Ok v by (intro no_port [of err g s1]) simp_all
    next
      case Panic
      then show thesis using v by (simp add: pa_reserve_def split: if_splits)
    next
      case v': (Ok x)
      let ?s2 = "(upd_pool_for_port (sock_port rel) (\<lambda>_. pa) s1)\<lparr>st_next_id := (if i = [] then st_next_id s + 1 else st_next_id s)\<rparr>"
      show thesis
        by (rule port [of g s1 x pa "if i = [] then hex16 (st_next_id s) else i"
              "if i = [] then st_next_id s + 1 else st_next_id s" ?s2])
           (use unf False q Ok v v' f in \<open>auto simp: mint_id_def next_id_noop split: if_splits\<close>)
    qed
  qed
qed


lemma same_but_counts_pool:
  assumes "same_but_counts s1 s"
  shows "same_but_counts (upd_pool_for_port p f s1) (upd_pool_for_port p f s)"
proof -
  obtain g tc uc where s1: "s1 = s\<lparr>st_global_count := g, st_tenant_counts := tc, st_user_counts := uc\<rparr>"
    using assms unfolding same_but_counts_def by blast
  show ?thesis unfolding s1 same_but_counts_def upd_pool_for_port_def Let_def by simp
qed

lemma counters_of_pool [simp]: "counters_of (upd_pool_for_port p f s) = counters_of s"
  by (simp add: counters_of_def)

lemma entries_present_pool [simp]:
  "entries_present r t u (upd_pool_for_port p f s) = entries_present r t u s"
  "entries_present r t u (s\<lparr>st_next_id := n\<rparr>) = entries_present r t u s"
  by (simp_all add: entries_present_def)

lemma upd_pool_next_id: "upd_pool_for_port p f (s\<lparr>st_next_id := n\<rparr>) = (upd_pool_for_port p f s)\<lparr>st_next_id := n\<rparr>"
  by (simp add: upd_pool_for_port_def Let_def)

lemma rehydrate_wf:
  assumes wf: "wf_store s" and id: "usable_id i s" and chans: "good_channels chans"
    and nx: "unat (st_next_id s) + 1 < 2 ^ 64"
    and r: "rehydrate ep now c rel u realm i e cr ex ps chans s = (r, s')"
  shows "wf_store s'"
  using r
proof (cases rule: rehydrate_cases)
  case stale
  then show ?thesis using wf by simp
next
  case (refused err s1)
  then show ?thesis using reserve_spec [OF refused(3)] same_but_counts_wf [of s1 s] wf by simp
next
  case (no_port err g s1)
  have "st_next_id s1 = st_next_id s" using reserve_spec [OF no_port(2)] same_but_counts_fields(7) by blast
  then show ?thesis
    using abandoned_wf [OF wf no_port(2), of "st_next_id s"] by (simp add: no_port(3) next_id_noop)
next
  case (port g s1 pa x i' n s2)
  let ?p = "sock_port rel" and ?t = "tenant_id_for_port s (sock_port rel)"
  let ?sp = "upd_pool_for_port ?p (\<lambda>_. pa) s" and ?s1 = "upd_pool_for_port ?p (\<lambda>_. pa) s1"
  let ?a = "restored_allocation ep now i' c rel u realm ?t e cr ex ps chans"
  from reserve_spec [OF port(1)] have sp: "same_but_counts s1 s" "g = full_guard realm ?t u"
    "counters_of s1 = bump realm ?t u (counters_of s)" "entries_present realm ?t u s1" by auto
  have res: "pa_reserve ?p (pool_for_port s ?p) = (Ok x, pa)"
    using port(2) same_pools_lookup(1) [OF same_but_counts_fields(1) [OF sp(1)]] by simp
  note rp = reserve_pool [OF wf res]
  have n: "unat (st_next_id s) \<le> unat n" using port(3) mint_next [OF nx] by (auto split: if_splits)
  have s1: "same_but_counts ?s1 ?sp" by (rule same_but_counts_pool [OF sp(1)])
  show ?thesis
  proof (cases "fmlookup (st_allocations s) c = None")
    case True
    have "wf_store (install ?a (?s1\<lparr>st_next_id := n\<rparr>))"
    proof (rule install_wf [OF rp(1) s1])
      show "al_allocation_id b \<noteq> al_allocation_id ?a" if "fmlookup (st_allocations ?sp) d = Some b" for d b
        using port(3) id that wf
        by (auto simp: usable_id_def wf_store_def ids_minted_def split: if_splits)
      show "al_allocation_id ?a \<noteq> hex16 k" if "unat n \<le> unat k" for k
        using port(3) id that mint_next [OF nx] by (auto simp: usable_id_def split: if_splits)
      show "port_ready ?sp (relay_port ?a)" using rp(2) by simp
    qed (use sp(3) n True restored_wf [OF chans] in simp_all)
    then show ?thesis using port(4,5) True by simp
  next
    case False
    let ?rel = "upd_pool_for_port ?p (\<lambda>pa. pa_release pa ?p)"
    have "wf_store (CounterReservation_drop (full_guard realm ?t u) ((?rel ?s1)\<lparr>st_next_id := n\<rparr>))"
      by (rule abandoned_gen [OF release_ready_wf [OF rp] same_but_counts_pool [OF s1]])
         (use sp n in simp_all)
    then show ?thesis using port(4,5) False sp(2) by (simp add: upd_pool_next_id)
  qed
qed


section \<open>The sweep\<close>

lemma sweep_pools_fields [simp]:
  "st_allocations (sweep_pools now s) = st_allocations s"
  "st_relay_to_client (sweep_pools now s) = st_relay_to_client s"
  "st_channel_to_client (sweep_pools now s) = st_channel_to_client s"
  "st_id_to_client (sweep_pools now s) = st_id_to_client s"
  "st_next_id (sweep_pools now s) = st_next_id s"
  "st_user_allocations (sweep_pools now s) = st_user_allocations s"
  "counters_of (sweep_pools now s) = counters_of s"
  by (simp_all add: sweep_pools_def counters_of_def)

lemma find_map: "List.find P (map f xs) = map_option f (List.find (P \<circ> f) xs)"
  by (induction xs) simp_all

lemma sweep_keeps:
  "wf_ports pa \<Longrightarrow> wf_ports (snd (sweep_expired_reservations now pa))"
  "wf_ports pa \<Longrightarrow> held_ports (snd (sweep_expired_reservations now pa)) = held_ports pa"
  "in_range (snd (sweep_expired_reservations now pa)) = in_range pa"
  using sweep_spec [of pa now "fst (sweep_expired_reservations now pa)" "snd (sweep_expired_reservations now pa)"]
  by (simp_all add: sweep_expired_reservations_def Let_def in_range_def pa_contains_def)

lemma sweep_pool_for_port:
  "pool_for_port (sweep_pools now s) q = snd (sweep_expired_reservations now (pool_for_port s q))"
  by (simp add: pool_for_port_def sweep_pools_def find_map comp_def pa_contains_range sweep_keeps(3)
      split: option.split)

lemma sweep_pools_wf:
  assumes wf: "wf_store s"
  shows "wf_store (sweep_pools now s)"
proof -
  have wp: "wf_pools s" using wf by (simp add: wf_store_def)
  then have "wf_pools (sweep_pools now s)"
    by (auto simp: wf_pools_def pool_ranges_def sweep_pools_def sweep_keeps comp_def)
  moreover have "port_held (sweep_pools now s) q = port_held s q" for q
    using sweep_keeps(2) [OF pool_for_port_wf [OF wp]] by (simp add: port_held_def sweep_pool_for_port)
  ultimately show ?thesis using wf_store_held [OF wf] by (intro wf_store_pools [OF wf]) auto
qed

lemma cleanup_identity:
  assumes "wf_alloc a"
  shows "same_identity (snd (cleanup_expired_entries now a)) a"
    "fmdom (al_channel_bindings (snd (cleanup_expired_entries now a))) |\<subseteq>| fmdom (al_channel_bindings a)"
    "al_expires_at (snd (cleanup_expired_entries now a)) = al_expires_at a"
proof -
  from cleanup_spec [OF assms, of now] obtain n chans rv where
    c: "cleanup_expired_entries now a = (n, a\<lparr>al_permissions := live_perms now (al_permissions a),
        al_channel_bindings := chans, al_channels_reverse := rv\<rparr>)"
    and look: "\<forall>ch. fmlookup chans ch = live_binding now (fmlookup (al_channel_bindings a) ch)"
    by (elim exE conjE)
  show "same_identity (snd (cleanup_expired_entries now a)) a"
    "al_expires_at (snd (cleanup_expired_entries now a)) = al_expires_at a"
    by (simp_all add: c same_identity_def user_key_of_def)
  show "fmdom (al_channel_bindings (snd (cleanup_expired_entries now a))) |\<subseteq>| fmdom (al_channel_bindings a)"
    by (auto simp: c fmlookup_dom_iff look live_binding_def split: option.splits)
qed

lemma clean_client_wf: "wf_store s \<Longrightarrow> wf_store (clean_client now c s)"
  using wf_store_alloc [of s c]
  by (auto simp: clean_client_def split: option.split
      intro!: upd_alloc_wf cleanup_wf cleanup_identity(1) elim: fsubsetD [OF cleanup_identity(2)])

text \<open>What a client's entry looks like to the rest of the sweep: its relay address and its expiry.\<close>

definition entry_view :: "allocation_store \<Rightarrow> socket_addr \<Rightarrow> (socket_addr \<times> instant) option" where
  "entry_view s c = map_option (\<lambda>a. (al_relay_addr a, al_expires_at a)) (fmlookup (st_allocations s) c)"

lemma clean_client_view: "wf_store s \<Longrightarrow> entry_view (clean_client now c s) d = entry_view s d"
  using wf_store_alloc [of s c] cleanup_identity(1,3)
  by (auto simp: clean_client_def entry_view_def upd_alloc_def same_identity_def split: option.split)

lemma clean_clients:
  "wf_store s \<Longrightarrow> wf_store (fold (clean_client now) cs s) \<and> entry_view (fold (clean_client now) cs s) d = entry_view s d"
  by (induction cs arbitrary: s) (simp_all add: clean_client_wf clean_client_view)

lemma remove_allocations:
  "st_allocations (snd (st_remove now ms c rel s)) = fmdrop c (st_allocations s)"
proof (cases "fmlookup (st_allocations s) c")
  case None
  then have "fmdrop c (st_allocations s) = st_allocations s" by (intro fmap_ext) auto
  with None show ?thesis by (simp add: st_remove_def)
qed (simp add: st_remove_def tear_down_fields)

definition expired_view :: "instant \<Rightarrow> allocation_store \<Rightarrow> socket_addr \<Rightarrow> bool" where
  "expired_view now s c \<longleftrightarrow> (\<exists>rel t. entry_view s c = Some (rel, t) \<and> now > t)"

lemma expire_client_view:
  assumes wf: "wf_store s" and rel: "\<And>r t. entry_view s c = Some (r, t) \<Longrightarrow> r = rel"
    and e: "expire_client now ms (c, rel) (n, s) = (n', s')"
  shows "wf_store s' \<and> entry_view s' d = (if d = c \<and> expired_view now s c then None else entry_view s d)"
proof (cases "fmlookup (st_allocations s) c")
  case None
  then show ?thesis using wf e by (auto simp: expire_client_def expired_view_def entry_view_def)
next
  case (Some a)
  have "wf_store (snd (st_remove now ms c rel s))"
    using rel Some by (intro remove_wf wf) (auto simp: entry_view_def)
  then show ?thesis
    using wf e Some by (auto simp: expire_client_def expired_view_def entry_view_def Allocation_is_expired_def
        remove_allocations split: if_splits)
qed

lemma expire_clients:
  assumes "wf_store s" and "distinct (map fst es)"
    and "\<And>c rel r t. (c, rel) \<in> set es \<Longrightarrow> entry_view s c = Some (r, t) \<Longrightarrow> r = rel"
    and "fold (expire_client now ms) es (n, s) = (n', s')"
  shows "wf_store s' \<and> (\<forall>d. entry_view s' d = (if d \<in> fst ` set es \<and> expired_view now s d then None else entry_view s d))"
  using assms
proof (induction es arbitrary: n s)
  case (Cons x es)
  obtain c rel where x: "x = (c, rel)" by (cases x)
  obtain n1 s1 where e: "expire_client now ms (c, rel) (n, s) = (n1, s1)" by fastforce
  have rel: "r = rel" if "entry_view s c = Some (r, t)" for r t
    using Cons.prems(3) [of c rel r t] that x by simp
  have v: "wf_store s1 \<and> entry_view s1 d = (if d = c \<and> expired_view now s c then None else entry_view s d)" for d
    by (rule expire_client_view [OF Cons.prems(1) _ e]) (rule rel)
  have ih: "wf_store s' \<and> (\<forall>d. entry_view s' d = (if d \<in> fst ` set es \<and> expired_view now s1 d then None else entry_view s1 d))"
  proof (rule Cons.IH)
    show "wf_store s1" using v by blast
    show "distinct (map fst es)" using Cons.prems(2) by simp
    show "r = rel'" if "(c', rel') \<in> set es" "entry_view s1 c' = Some (r, t)" for c' rel' r t
      using Cons.prems(3) [of c' rel' r t] that v by (auto split: if_splits)
    show "fold (expire_client now ms) es (n1, s1) = (n', s')" using Cons.prems(4) x e by simp
  qed
  have ev: "expired_view now s1 d = (expired_view now s d \<and> d \<noteq> c)" for d
  proof (cases "d = c \<and> expired_view now s c")
    case True
    then show ?thesis using v [of d] by (simp add: expired_view_def)
  next
    case False
    then have "entry_view s1 d = entry_view s d" using v [of d] by (simp only: if_False)
    then have "expired_view now s1 d = expired_view now s d" unfolding expired_view_def by simp
    then show ?thesis using False by blast
  qed
  have "entry_view s' d = (if d \<in> fst ` set (x # es) \<and> expired_view now s d then None else entry_view s d)" for d
  proof (cases "d = c")
    case True
    then have "d \<notin> fst ` set es" using Cons.prems(2) x by simp
    then have "entry_view s' d = entry_view s1 d" using ih by simp
    then show ?thesis using v [of d] True x by simp
  next
    case False
    then have "entry_view s1 d = entry_view s d" "expired_view now s1 d = expired_view now s d"
      using v [of d] ev [of d] by simp_all
    moreover have "entry_view s' d = (if d \<in> fst ` set es \<and> expired_view now s1 d then None else entry_view s1 d)"
      using ih by blast
    ultimately show ?thesis using False x by simp
  qed
  then show ?case using ih by blast
qed simp


lemma classify_spec:
  assumes "classify now k es ex cl = (ex', cl')"
  shows "\<exists>xs ys. ex' = ex @ xs \<and> cl' = cl @ ys
    \<and> set xs \<subseteq> (\<lambda>(c, a). (c, al_relay_addr a)) ` {x \<in> set es. Allocation_is_expired now (snd x)}
    \<and> subseq (map fst xs) (map fst es)
    \<and> (length ex + length cl + length es \<le> k \<longrightarrow>
         fst ` {x \<in> set es. Allocation_is_expired now (snd x)} \<subseteq> fst ` set xs)"
  using assms
proof (induction now k es ex cl arbitrary: rule: classify.induct)
  case (2 now k c a rest ex cl)
  consider "length ex + length cl \<ge> k"
    | "\<not> length ex + length cl \<ge> k" "Allocation_is_expired now a"
    | "\<not> length ex + length cl \<ge> k" "\<not> Allocation_is_expired now a" "has_stale_entries now a"
    | "\<not> length ex + length cl \<ge> k" "\<not> Allocation_is_expired now a" "\<not> has_stale_entries now a" by blast
  then show ?case
  proof cases
    case 1
    then show ?thesis using 2(4) by (intro exI [of _ "[]"]) simp
  next
    case c2: 2
    then have "classify now k rest (ex @ [(c, al_relay_addr a)]) cl = (ex', cl')" using 2(4) by simp
    from 2(1) [OF c2 this] obtain xs ys where
      "ex' = (ex @ [(c, al_relay_addr a)]) @ xs" "cl' = cl @ ys"
      "set xs \<subseteq> (\<lambda>(c, a). (c, al_relay_addr a)) ` {x \<in> set rest. Allocation_is_expired now (snd x)}"
      "subseq (map fst xs) (map fst rest)"
      "length (ex @ [(c, al_relay_addr a)]) + length cl + length rest \<le> k \<longrightarrow>
         fst ` {x \<in> set rest. Allocation_is_expired now (snd x)} \<subseteq> fst ` set xs"
      by blast
    with c2 show ?thesis
      by (intro exI [of _ "(c, al_relay_addr a) # xs"] exI [of _ ys]) (auto simp: image_iff)
  next
    case c3: 3
    then have "classify now k rest ex (cl @ [c]) = (ex', cl')" using 2(4) by simp
    from 2(2) [OF c3 this] obtain xs ys where
      "ex' = ex @ xs" "cl' = (cl @ [c]) @ ys"
      "set xs \<subseteq> (\<lambda>(c, a). (c, al_relay_addr a)) ` {x \<in> set rest. Allocation_is_expired now (snd x)}"
      "subseq (map fst xs) (map fst rest)"
      "length ex + length (cl @ [c]) + length rest \<le> k \<longrightarrow>
         fst ` {x \<in> set rest. Allocation_is_expired now (snd x)} \<subseteq> fst ` set xs"
      by blast
    with c3 show ?thesis
      by (intro exI [of _ xs] exI [of _ "c # ys"]) (auto simp: image_iff)
  next
    case c4: 4
    then have "classify now k rest ex cl = (ex', cl')" using 2(4) by simp
    from 2(3) [OF c4 this] obtain xs ys where
      "ex' = ex @ xs" "cl' = cl @ ys"
      "set xs \<subseteq> (\<lambda>(c, a). (c, al_relay_addr a)) ` {x \<in> set rest. Allocation_is_expired now (snd x)}"
      "subseq (map fst xs) (map fst rest)"
      "length ex + length cl + length rest \<le> k \<longrightarrow>
         fst ` {x \<in> set rest. Allocation_is_expired now (snd x)} \<subseteq> fst ` set xs"
      by blast
    with c4 show ?thesis
      by (intro exI [of _ xs] exI [of _ ys]) (auto simp: image_iff)
  qed
qed simp


lemma prune_wf:
  assumes wf: "wf_store s"
  shows "wf_store (s\<lparr>st_user_allocations :=
               fmfilter (\<lambda>k. fmlookup (st_user_allocations s) k \<noteq> Some []) (st_user_allocations s),
            st_user_counts := fmfilter (\<lambda>k. counter (st_user_counts s) k > 0) (st_user_counts s)\<rparr>)"
    (is "wf_store ?s")
proof -
  have l: "listed (st_user_allocations ?s) k = listed (st_user_allocations s) k" for k
    by (simp add: listed_def split: option.split)
  have "counter (st_user_counts ?s) k = counter (st_user_counts s) k" for k
    by (auto simp: counter_def word_gt_0 split: option.split)
  then have c: "counters_of ?s = counters_of s" by (auto simp: counters_of_def fun_eq_iff)
  have "same_pools ?s s" by (simp add: same_pools_def)
  note p = same_pools_lookup [OF this]
  show ?thesis
    using wf l by (simp add: wf_store_def c p group_exact_def)
qed

definition live_entries :: "allocation_store \<Rightarrow> socket_addr list \<Rightarrow> (socket_addr \<times> allocation) list" where
  "live_entries s order = List.map_filter (\<lambda>c. map_option (Pair c) (fmlookup (st_allocations s) c)) order"

lemma live_entries_iff: "(c, a) \<in> set (live_entries s order) \<longleftrightarrow> c \<in> set order \<and> fmlookup (st_allocations s) c = Some a"
  by (induction order) (auto simp: live_entries_def map_filter_simps split: option.splits)

lemma live_entries_keys: "map fst (live_entries s order) = filter (\<lambda>c. fmlookup (st_allocations s) c \<noteq> None) order"
  by (induction order) (auto simp: live_entries_def map_filter_simps split: option.split)

lemma length_live_entries: "length (live_entries s order) \<le> length order"
  using live_entries_keys [of s order] by (metis length_filter_le length_map)

lemma cleanup_budget_spec:
  assumes wf: "wf_store s" and d: "distinct order"
    and c: "cleanup_expired_budget order now ms k s = (n, s')"
  shows "wf_store s' \<and> (\<exists>X. X \<subseteq> set order
     \<and> (length order \<le> k \<longrightarrow> {c \<in> set order. expired_view now s c} \<subseteq> X)
     \<and> (\<forall>d. entry_view s' d = (if d \<in> X \<and> expired_view now s d then None else entry_view s d)))"
proof -
  let ?s = "sweep_pools now s"
  let ?es = "live_entries ?s order"
  have wf1: "wf_store ?s" by (rule sweep_pools_wf [OF wf])
  have view: "entry_view ?s d = entry_view s d" "expired_view now ?s d = expired_view now s d" for d
    by (simp_all add: entry_view_def expired_view_def)
  obtain ex cl where cf: "classify now k ?es [] [] = (ex, cl)" by fastforce
  let ?s2 = "fold (clean_client now) cl ?s"
  obtain n3 s3 where e: "fold (expire_client now ms) ex (0, ?s2) = (n3, s3)" by fastforce
  from classify_spec [OF cf] have
    ex1: "set ex \<subseteq> (\<lambda>(c, a). (c, al_relay_addr a)) ` {x \<in> set ?es. Allocation_is_expired now (snd x)}"
    and ex2: "subseq (map fst ex) (map fst ?es)"
    and ex3: "length ?es \<le> k \<longrightarrow> fst ` {x \<in> set ?es. Allocation_is_expired now (snd x)} \<subseteq> fst ` set ex"
    by auto
  have clean: "wf_store ?s2" "entry_view ?s2 c = entry_view s c" for c
    using clean_clients [OF wf1] view by simp_all
  have "distinct (map fst ?es)" using d by (simp add: live_entries_keys)
  with ex2 have dist: "distinct (map fst ex)" by (metis distinct_nthsI subseq_conv_nths)
  have rel: "r = rel" if "(c, rel) \<in> set ex" "entry_view ?s2 c = Some (r, t)" for c rel r t
  proof -
    from ex1 that(1) obtain a where "(c, a) \<in> set ?es" "rel = al_relay_addr a" by auto
    then have "entry_view s c = Some (rel, al_expires_at a)" by (simp add: live_entries_iff entry_view_def)
    with that(2) clean(2) show ?thesis by simp
  qed
  have x: "wf_store s3 \<and> (\<forall>d. entry_view s3 d =
      (if d \<in> fst ` set ex \<and> expired_view now ?s2 d then None else entry_view ?s2 d))"
    by (rule expire_clients [OF clean(1) dist _ e]) (rule rel)
  have ev: "expired_view now ?s2 c = expired_view now s c" for c by (simp add: expired_view_def clean(2))
  have s': "s' = s3\<lparr>st_user_allocations :=
               fmfilter (\<lambda>k. fmlookup (st_user_allocations s3) k \<noteq> Some []) (st_user_allocations s3),
            st_user_counts := fmfilter (\<lambda>k. counter (st_user_counts s3) k > 0) (st_user_counts s3)\<rparr>"
    using c cf e by (simp add: cleanup_expired_budget_def live_entries_def [symmetric] Let_def)
  have v3: "entry_view s' c = entry_view s3 c" for c by (simp add: s' entry_view_def)
  have wf3: "wf_store s'" unfolding s' using x by (intro prune_wf) blast
  have sub: "fst ` set ex \<subseteq> set order" using ex1 by (auto simp: live_entries_iff)
  have all: "{c \<in> set order. expired_view now s c} \<subseteq> fst ` set ex" if "length order \<le> k"
  proof
    fix c assume "c \<in> {c \<in> set order. expired_view now s c}"
    then obtain a where "fmlookup (st_allocations s) c = Some a" "Allocation_is_expired now a" "c \<in> set order"
      by (auto simp: expired_view_def entry_view_def Allocation_is_expired_def)
    then have "(c, a) \<in> {x \<in> set ?es. Allocation_is_expired now (snd x)}" by (simp add: live_entries_iff)
    then have "c \<in> fst ` {x \<in> set ?es. Allocation_is_expired now (snd x)}" by force
    with ex3 that length_live_entries [of ?s order] show "c \<in> fst ` set ex" by auto
  qed
  have "\<forall>c. entry_view s' c = (if c \<in> fst ` set ex \<and> expired_view now s c then None else entry_view s c)"
    using conjunct2 [OF x] unfolding v3 ev clean(2) by blast
  with wf3 sub all show ?thesis by blast
qed

end
