(* ===== verification/Store_Machine.thy ===== *)
theory Store_Machine
  imports Store_Lifecycle
begin

text \<open>
  The allocation store as a machine. A step is one call of the server on the store, with the port
  taken from the pool as \<^verbatim>\<open>relay/src/processor.rs\<close> takes it before it creates an allocation and given
  back when the creation fails. Every store reached from a new one keeps the indices, the counters
  and the port pools in agreement with the table of allocations.
\<close>

section \<open>The machine\<close>

definition acquired :: "port_allocator \<Rightarrow> u16 option \<Rightarrow> port_allocator \<Rightarrow> bool" where
  "acquired pa r pa' \<longleftrightarrow>
     (\<exists>bind family. acquire_udp bind family pa r pa') \<or> acquire_tcp pa r pa'
     \<or> (\<exists>bind rnd now reserve_next family. acquire_even bind rnd now reserve_next family pa r pa')
     \<or> (\<exists>bind token now family. acquire_claim bind token now family pa r pa')"

lemma acquired_source: "acquired pa r pa' \<Longrightarrow> \<exists>acq. port_source acq \<and> acq pa r pa'"
  unfolding acquired_def
  by (elim disjE exE) (rule exI, rule conjI, rule udp.port_source_axioms tcp.port_source_axioms
      even_port.port_source_axioms claim.port_source_axioms, assumption)+

interpretation any: port_source acquired
proof
  fix pa r pa'
  assume wf: "wf_ports pa" and a: "acquired pa r pa'"
  from acquired_source [OF a] obtain acq where acq: "port_source acq" "acq pa r pa'" by blast
  show "wf_ports pa'" by (rule port_source.acquire_wf [OF acq(1) wf acq(2)])
  show "in_range pa' = in_range pa" by (rule port_source.acquire_range [OF acq(1) wf acq(2)])
next
  fix pa pa'
  assume wf: "wf_ports pa" and a: "acquired pa None pa'"
  from acquired_source [OF a] obtain acq where acq: "port_source acq" "acq pa None pa'" by blast
  show "held_ports pa' = held_ports pa" by (rule port_source.acquire_none [OF acq(1) wf acq(2)])
next
  fix pa p pa'
  assume wf: "wf_ports pa" and a: "acquired pa (Some p) pa'"
  from acquired_source [OF a] obtain acq where acq: "port_source acq" "acq pa (Some p) pa'" by blast
  show "p \<in> in_range pa \<and> p \<notin> held_ports pa \<and> held_ports pa' = insert p (held_ports pa)"
    by (rule port_source.acquire_some [OF acq(1) wf acq(2)])
qed

text \<open>
  The end of an Allocate in \<^verbatim>\<open>handle_allocate\<close> of \<^verbatim>\<open>relay/src/processor.rs\<close>: when the allocation was
  not created, a reservation token just issued is cancelled and the guard of the port gives it back.
\<close>

definition finish_allocate :: "u16 \<Rightarrow> bytes option \<Rightarrow> unit session_res \<Rightarrow> allocation_store \<Rightarrow> allocation_store" where
  "finish_allocate port issued_token r s =
     (case r of
        Ok _ \<Rightarrow> s
      | _ \<Rightarrow>
          let s = (case issued_token of None \<Rightarrow> s
                   | Some t \<Rightarrow> upd_pool_for_port port (cancel_reservation t) s)
          in upd_pool_for_port port (\<lambda>pa. pa_release pa port) s)"

definition add_tenants ::
  "(u32 \<times> string \<times> u16 \<times> u16 \<times> usize \<times> bandwidth_quota) list \<Rightarrow> allocation_store \<Rightarrow> allocation_store" where
  "add_tenants ts s = fold (\<lambda>(rnd, tid, mn, mx, cap, q). with_tenant_pool rnd tid mn mx cap q) ts s"

definition store_init :: "allocation_store \<Rightarrow> bool" where
  "store_init s \<longleftrightarrow>
     (\<exists>rnd mn mx cap ts. s = add_tenants ts (AllocationStore_new rnd mn mx cap)
        \<and> mn \<le> mx \<and> (\<forall>(rnd, tid, mn, mx, cap, q) \<in> set ts. mn \<le> mx)
        \<and> sorted_wrt (\<lambda>A B. A \<inter> B = {}) (pool_ranges s))"

inductive store_step :: "allocation_store \<Rightarrow> allocation_store \<Rightarrow> bool" where
  ss_allocate: "acquired (pool s t) (Some (sock_port rel)) pa \<Longrightarrow> unat (st_next_id s) + 1 < 2 ^ 64 \<Longrightarrow>
     create_for_identity now ms ep c rel u key l realm t (upd_pool t (\<lambda>_. pa) s) = (r, s1) \<Longrightarrow>
     store_step s (finish_allocate (sock_port rel) tok r s1)"
| ss_no_port: "acquired (pool s t) None pa \<Longrightarrow> store_step s (upd_pool t (\<lambda>_. pa) s)"
| ss_abort: "acquired (pool s t) (Some p) pa \<Longrightarrow>
     store_step s (finish_allocate p tok (Err e) (upd_pool t (\<lambda>_. pa) s))"
| ss_rehydrate: "usable_id i s \<Longrightarrow> good_channels chans \<Longrightarrow> unat (st_next_id s) + 1 < 2 ^ 64 \<Longrightarrow>
     rehydrate ep now c rel u realm i e cr ex ps chans s = (rr, s') \<Longrightarrow> store_step s s'"
| ss_remove: "st_get s c = Some a \<Longrightarrow> store_step s (snd (st_remove now ms c (al_relay_addr a) s))"
| ss_force: "store_step s (force_remove ms c s)"
| ss_refresh: "store_step s (snd (st_refresh now ms c l s))"
| ss_re_key: "store_step s (snd (re_key ms id id old_addr new_addr s))"
| ss_transport: "store_step s (snd (set_transport c tr s))"
| ss_permission: "store_step s (snd (st_add_permission now ms c ip s))"
| ss_channel: "store_step s (snd (st_add_channel now ms c ch peer s))"
| ss_bandwidth: "store_step s (snd (st_check_bandwidth now c s))"
| ss_packet: "store_step s (st_count_packet d n c s)"
| ss_cleanup: "distinct order \<Longrightarrow> store_step s (snd (cleanup_expired_budget order now ms k s))"
| ss_resync: "store_step s (resync_all order po co now ms s)"
| ss_barrier: "store_step s (snd (emit_reconcile_barrier g s))"
| ss_runtime: "store_step s (publish_runtime rt s)"
| ss_limits: "store_step s (snd (store_publish_user_limits ul s))"

lemma finish_allocate_wf:
  assumes wf: "wf_store s" and ready: "\<And>x. r \<noteq> Ok x \<Longrightarrow> port_ready s p"
  shows "wf_store (finish_allocate p tok r s)"
proof (cases "\<exists>x. r = Ok x")
  case True
  then show ?thesis using wf by (auto simp: finish_allocate_def)
next
  case False
  then have rd: "port_ready s p" using ready by blast
  have "wf_store (upd_pool_for_port p (\<lambda>pa. pa_release pa p)
     (case tok of None \<Rightarrow> s | Some t \<Rightarrow> upd_pool_for_port p (cancel_reservation t) s))"
    using cancel_wf [OF wf] wf rd by (cases tok) (auto intro: release_ready_wf)
  then show ?thesis using False by (cases r) (auto simp: finish_allocate_def Let_def)
qed

lemma create_failed_ready:
  assumes "create_for_identity now ms ep c rel u key l realm t s = (r, s1)" and "r \<noteq> Ok ()"
  shows "port_ready s1 p = port_ready s p"
proof -
  have ready: "port_ready s1 p = port_ready s p" if "same_but_counts s1 s'" "same_but_counts s' s" for s' s1
    using same_but_counts_fields(1,2) [OF that(1)] same_but_counts_fields(1,2) [OF that(2)]
    unfolding port_ready_def by (metis same_pools_lookup(3))
  from assms(1) show ?thesis
  proof (cases rule: create_cases)
    case (refused e s2)
    then show ?thesis using reserve_spec [OF refused(3)] ready [of s2 s2]
      by (simp add: same_but_counts_def)
  next
    case (exists g s2)
    from reserve_spec [OF exists(3)] have sp: "same_but_counts s2 s" "g = full_guard realm t u"
      "entries_present realm t u s2" by auto
    have ep: "entries_present realm t u (s2\<lparr>st_next_id := st_next_id s2 + 1\<rparr>)"
      using sp(3) by (simp add: entries_present_def)
    note f = same_but_counts_fields(1,2) [OF drop_full(1) [OF ep]]
    have "port_ready s1 p = port_ready (s2\<lparr>st_next_id := st_next_id s2 + 1\<rparr>) p"
      unfolding exists(4) sp(2) port_ready_def f(2) same_pools_lookup(3) [OF f(1)] by simp
    also have "\<dots> = port_ready s2 p"
      using same_pools_lookup(3) [of "s2\<lparr>st_next_id := st_next_id s2 + 1\<rparr>" s2]
      by (simp add: port_ready_def same_pools_def)
    also have "\<dots> = port_ready s p" using ready [of s2 s2] sp(1) by (simp add: same_but_counts_def)
    finally show ?thesis .
  qed (use assms(2) in simp)
qed

lemma allocate_step_wf:
  assumes wf: "wf_store s" and a: "acquired (pool s t) (Some (sock_port rel)) pa"
    and nx: "unat (st_next_id s) + 1 < 2 ^ 64"
    and c: "create_for_identity now ms ep c rel u key l realm t (upd_pool t (\<lambda>_. pa) s) = (r, s1)"
  shows "wf_store (finish_allocate (sock_port rel) tok r s1)"
proof -
  note acq = any.acquire_store_some [OF wf a]
  have "wf_store s1" using nx by (intro create_wf [OF acq _ c]) simp
  moreover have "port_ready s1 (sock_port rel)" if "r \<noteq> Ok ()"
    using create_failed_ready [OF c that] acq(2) by simp
  ultimately show ?thesis by (intro finish_allocate_wf) auto
qed

lemma fold_emit_fields [simp]:
  "st_allocations (fold emit_write ops s) = st_allocations s"
  "st_relay_to_client (fold emit_write ops s) = st_relay_to_client s"
  "wf_store (fold emit_write ops s) = wf_store s"
  by (induction ops arbitrary: s) simp_all

lemma quiet_wf:
  "wf_store (resync_all order po co now ms s) = wf_store s"
  "wf_store (snd (emit_reconcile_barrier g s)) = wf_store s"
  "wf_store (publish_runtime rt s) = wf_store s"
  "wf_store (snd (store_publish_user_limits ul s)) = wf_store s"
  apply (simp add: resync_all_def)
  apply (rule wf_store_cong; simp add: emit_reconcile_barrier_def same_pools_def counters_of_def Let_def
      split: option.split prod.split)
  apply (rule wf_store_cong; simp add: publish_runtime_def same_pools_def counters_of_def)
  apply (rule wf_store_cong; simp add: store_publish_user_limits_def same_pools_def counters_of_def
      split: prod.split)
  done

lemma store_step_wf: "store_step s s' \<Longrightarrow> wf_store s \<Longrightarrow> wf_store s'"
proof (induction rule: store_step.induct)
  case (ss_abort s t p pa tok e)
  note acq = any.acquire_store_some [OF ss_abort(2,1)]
  show ?case using acq by (intro finish_allocate_wf) blast+
next
  case (ss_remove s c a now ms)
  then show ?case by (intro remove_wf) (auto simp: st_get_def)
next
  case (ss_cleanup order s now ms k)
  then show ?case using cleanup_budget_spec [of s order now ms k] by (metis prod.collapse)
qed (auto intro: allocate_step_wf any.acquire_store_none rehydrate_wf force_remove_wf refresh_wf re_key_wf
      set_transport_wf add_permission_store_wf add_channel_store_wf check_bandwidth_store_wf count_packet_wf
      simp: quiet_wf)

lemma add_tenants_fields:
  "st_allocations (add_tenants ts s) = st_allocations s"
  "st_relay_to_client (add_tenants ts s) = st_relay_to_client s"
  "st_channel_to_client (add_tenants ts s) = st_channel_to_client s"
  "st_id_to_client (add_tenants ts s) = st_id_to_client s"
  "st_user_allocations (add_tenants ts s) = st_user_allocations s"
  "counters_of (add_tenants ts s) = counters_of s" "st_ports (add_tenants ts s) = st_ports s"
  "st_next_id (add_tenants ts s) = st_next_id s"
  "st_tenant_pools (add_tenants ts s) = st_tenant_pools s @
     map (\<lambda>(rnd, tid, mn, mx, cap, q). \<lparr> tp_id = tid, tp_ports = PortAllocator_new rnd mn mx,
        tp_max_allocations = cap, tp_quota = q \<rparr>) ts"
  unfolding add_tenants_def
  by (induction ts arbitrary: s) (auto simp: with_tenant_pool_def counters_of_def)

lemma new_pool_wf: "mn \<le> mx \<Longrightarrow> wf_ports (PortAllocator_new rnd mn mx)"
  by (rule port_init_wf) (auto simp: port_init_def)

lemma empty_store_wf:
  assumes "st_allocations s = fmempty" "st_relay_to_client s = fmempty" "st_id_to_client s = fmempty"
    "st_user_allocations s = fmempty" "counters_of s = (0, (\<lambda>_. 0), (\<lambda>_. 0))" "wf_pools s"
  shows "wf_store s"
  using assms
  by (simp add: wf_store_def wf_entries_def index_exact_empty channels_indexed_def group_exact_empty
      ids_minted_def counts_exact_def count_exact_empty owns_ports_def)

lemma counters_of_new: "counters_of (AllocationStore_new rnd mn mx cap) = (0, (\<lambda>_. 0), (\<lambda>_. 0))"
  by (simp add: AllocationStore_new_def counters_of_def counter_def fun_eq_iff)

lemma store_init_wf: "store_init s \<Longrightarrow> wf_store s"
proof -
  assume "store_init s"
  then obtain rnd mn mx cap ts where s: "s = add_tenants ts (AllocationStore_new rnd mn mx cap)"
    and le: "mn \<le> mx" "\<forall>(rnd, tid, mn, mx, cap, q) \<in> set ts. mn \<le> mx"
    and dj: "sorted_wrt (\<lambda>A B. A \<inter> B = {}) (pool_ranges s)" unfolding store_init_def by blast
  have "wf_ports (st_ports s)" using le(1) by (simp add: s add_tenants_fields AllocationStore_new_def new_pool_wf)
  moreover have "\<forall>p \<in> set (st_tenant_pools s). wf_ports (tp_ports p)"
    using le(2) by (auto simp: s add_tenants_fields AllocationStore_new_def intro!: new_pool_wf)
  ultimately have "wf_pools s" using dj by (simp add: wf_pools_def)
  then show "wf_store s"
    by (intro empty_store_wf)
       (simp_all add: s add_tenants_fields counters_of_new, simp_all add: AllocationStore_new_def)
qed

interpretation store: invariant_system store_init store_step wf_store
  by unfold_locales (auto intro: store_init_wf store_step_wf)

end
