(* ===== verification/Store_Admission.thy ===== *)
theory Store_Admission
  imports Store_Machine
begin

text \<open>
  Creation of allocations (\<^verbatim>\<open>create_for_identity\<close> with \<^verbatim>\<open>reserve_counters\<close>): what it decides, what it
  changes, and the agreement of the indices and counters with the table in every reachable store.
\<close>

section \<open>Admission\<close>

definition admissible :: "string \<Rightarrow> string option \<Rightarrow> string \<Rightarrow> allocation_store \<Rightarrow> bool" where
  "admissible realm t u s \<longleftrightarrow>
     (let ef = effective_for s realm t u in
       \<not> ef_allocations_disabled ef \<and> \<not> ef_lifetime_disabled ef
       \<and> below_cap (ef_max_allocations ef) (current_user_usage s realm t u)
       \<and> (\<forall>tid. t = Some tid \<longrightarrow> below_cap (tenant_max_allocations s tid) (current_tenant_usage s tid))
       \<and> below_cap (rl_max_allocations (st_runtime s)) (st_global_count s))"

lemma below_cap_iff: "below_cap m n \<longleftrightarrow> \<not> (m > 0 \<and> n \<ge> m)"
  by (auto simp: below_cap_def word_gt_0)

lemma reserve_global_ok:
  "below_cap m (st_global_count s) \<Longrightarrow> \<exists>g' s1. reserve_global m g s = (Ok g', s1)"
  by (simp add: reserve_global_def below_cap_iff)

lemma reserve_ok:
  assumes "\<not> disabled" "below_cap max_per_user (counter (st_user_counts s) (realm, t, u))"
    and "\<And>tid. t = Some tid \<Longrightarrow> below_cap (tenant_max_allocations s tid) (counter (st_tenant_counts s) tid)"
    and "below_cap max_global (st_global_count s)"
  shows "\<exists>g s1. reserve_counters realm t u max_per_user disabled max_global s = (Ok g, s1)"
proof (cases t)
  case None
  then show ?thesis using assms(1,2,4)
    by (simp add: reserve_counters_def Let_def below_cap_iff reserve_global_ok)
next
  case (Some tid)
  then show ?thesis using assms(1,2,4) assms(3) [OF Some]
    by (simp add: reserve_counters_def Let_def below_cap_iff tenant_max_allocations_def reserve_global_ok)
qed

lemma reserve_iff:
  "(\<exists>g. fst (reserve_counters realm t u max_per_user disabled max_global s) = Ok g) \<longleftrightarrow>
     \<not> disabled \<and> below_cap max_per_user (counter (st_user_counts s) (realm, t, u))
     \<and> (\<forall>tid. t = Some tid \<longrightarrow> below_cap (tenant_max_allocations s tid) (counter (st_tenant_counts s) tid))
     \<and> below_cap max_global (st_global_count s)" (is "?L \<longleftrightarrow> ?R")
proof
  assume ?L
  then obtain g s1 where r: "reserve_counters realm t u max_per_user disabled max_global s = (Ok g, s1)"
    by (metis prod.collapse)
  show ?R using reserve_spec [OF r] by simp
next
  assume ?R
  then have "\<exists>g s1. reserve_counters realm t u max_per_user disabled max_global s = (Ok g, s1)"
    by (intro reserve_ok) blast+
  then show ?L by force
qed

lemma create_spec:
  assumes c: "create_for_identity now ms ep c rel u key l realm t s = (r, s')"
  shows "(r = Ok () \<longleftrightarrow> admissible realm t u s \<and> st_get s c = None)
    \<and> (admissible realm t u s \<and> st_get s c \<noteq> None \<longrightarrow> r = Err AllocationExists)
    \<and> st_allocations s' = (if r = Ok () then
          fmupd c (Allocation_new (hex16 (st_next_id s)) c rel u key l realm t now ms) (st_allocations s)
        else st_allocations s)
    \<and> counters_of s' = (if r = Ok () then bump realm t u (counters_of s) else counters_of s)
    \<and> same_pools s' s"
proof -
  let ?ef = "effective_for s realm t u"
  let ?res = "reserve_counters realm t u (ef_max_allocations ?ef) (ef_allocations_disabled ?ef \<or> ef_lifetime_disabled ?ef)
         (rl_max_allocations (st_runtime s)) s"
  have adm: "(\<exists>g. fst ?res = Ok g) \<longleftrightarrow> admissible realm t u s"
    unfolding reserve_iff admissible_def Let_def current_user_usage_def current_tenant_usage_def by blast
  from c show ?thesis
  proof (cases rule: create_cases)
    case (refused e s1)
    then have "\<not> admissible realm t u s" using adm by simp
    then show ?thesis using refused reserve_spec [OF refused(3)] same_but_counts_fields(1,2) [of s1 s] by simp
  next
    case (exists g s1)
    have a: "admissible realm t u s" using adm exists(3) by fastforce
    from reserve_spec [OF exists(3)] have sp: "same_but_counts s1 s" "g = full_guard realm t u"
      "counters_of s1 = bump realm t u (counters_of s)" "entries_present realm t u s1" by auto
    let ?s1 = "s1\<lparr>st_next_id := st_next_id s1 + 1\<rparr>"
    have ep: "entries_present realm t u ?s1" using sp(4) by (simp add: entries_present_def)
    note d = drop_full [OF ep]
    have "counters_of ?s1 = counters_of s1" by (simp add: counters_of_def)
    then have "counters_of s' = counters_of s" using d(2) sp(2,3) exists(4) by simp
    moreover have "st_allocations s' = st_allocations s" "same_pools s' s"
      using same_but_counts_fields(1,2) [OF d(1)] same_but_counts_fields(1,2) [OF sp(1)] sp(2) exists(4)
      by (simp_all add: same_pools_def)
    ultimately show ?thesis using a exists(1,2) by (simp add: st_get_def)
  next
    case (created g s1)
    have a: "admissible realm t u s" using adm created(3) by fastforce
    from reserve_spec [OF created(3)] have sp: "same_but_counts s1 s"
      "counters_of s1 = bump realm t u (counters_of s)" by auto
    note f = same_but_counts_fields [OF sp(1)]
    have "counters_of s' = counters_of s1"
      unfolding created(4) by (simp add: counters_of_def install_def Let_def)
    moreover have "same_pools s' s"
      using f(1) unfolding created(4) by (simp add: same_pools_def install_def Let_def)
    ultimately show ?thesis
      using a created(1,2) sp(2) f(2,7) unfolding created(4)
      by (simp add: st_get_def install_def Let_def Allocation_new_def)
  qed
qed

section \<open>A sample store\<close>

definition sample_empty :: allocation_store where
  "sample_empty = AllocationStore_new 0 49152 49155 10"

definition sample_client :: socket_addr where
  "sample_client = SockV4 0x0A000001 5000"

definition sample_relay :: socket_addr where
  "sample_relay = SockV4 0xCB007101 49152"

definition sample_pool :: port_allocator where
  "sample_pool = (st_ports sample_empty)\<lparr>pa_next_port := 49153, pa_used := {49152}\<rparr>"

definition sample_store :: allocation_store where
  "sample_store = snd (create_for_identity 0 1 1 sample_client sample_relay ''alice'' [] 600 '''' None
     (upd_pool None (\<lambda>_. sample_pool) sample_empty))"

lemma sample_empty_init: "store_init sample_empty"
  unfolding store_init_def sample_empty_def
  by (intro exI [of _ 0] exI [of _ 49152] exI [of _ 49155] exI [of _ 10] exI [of _ "[]"])
     (simp add: add_tenants_def pool_ranges_def AllocationStore_new_def)

lemma sample_port: "pa_allocate (st_ports sample_empty) = Some (Ok 49152, sample_pool)"
  by (simp add: pa_allocate_def sample_pool_def sample_empty_def AllocationStore_new_def PortAllocator_new_def
      random_start_port_def alloc_loop.simps advance_def)

lemma effective_none:
  fixes runtime :: runtime_limits and realm t u
  defines "ef \<equiv> effective_limits runtime UserLimitsSnapshot_empty None realm t u"
  shows "ef_max_allocations ef = rl_max_per_user runtime" "\<not> ef_allocations_disabled ef" "\<not> ef_lifetime_disabled ef"
  by (simp_all add: ef_def effective_limits_def UserLimitsSnapshot_empty_def override_default_def
      Let_def split: prod.split)

lemma sample_admissible: "admissible '''' None u (upd_pool None (\<lambda>_. sample_pool) sample_empty)"
  by (simp add: admissible_def Let_def effective_for_def upd_pool_def sample_empty_def AllocationStore_new_def
      below_cap_def current_user_usage_def counter_def tenant_quota_def effective_none BandwidthQuota_default_def
      word_gt_0)

lemma sample_create:
  "create_for_identity 0 1 1 sample_client sample_relay ''alice'' [] 600 '''' None
     (upd_pool None (\<lambda>_. sample_pool) sample_empty) = (Ok (), sample_store)"
proof -
  obtain r s where c: "create_for_identity 0 1 1 sample_client sample_relay ''alice'' [] 600 '''' None
     (upd_pool None (\<lambda>_. sample_pool) sample_empty) = (r, s)" by fastforce
  have "st_get (upd_pool None (\<lambda>_. sample_pool) sample_empty) sample_client = None"
    by (simp add: st_get_def upd_pool_def sample_empty_def AllocationStore_new_def)
  with create_spec [OF c] sample_admissible have "r = Ok ()" by simp
  with c show ?thesis by (simp add: sample_store_def)
qed

lemma sample_store_get:
  "st_get sample_store c = (if c = sample_client then Some (Allocation_new ''0000000000000001'' sample_client sample_relay
      ''alice'' [] 600 '''' None 0 1) else None)"
proof -
  have "hex16 1 = ''0000000000000001''"
    by code_simp
  then show ?thesis
    using create_spec [OF sample_create]
    by (simp add: st_get_def upd_pool_def sample_empty_def AllocationStore_new_def)
qed

lemma sample_store_reached: "store_step\<^sup>*\<^sup>* sample_empty sample_store"
proof -
  have "acquired (pool sample_empty None) (Some (sock_port sample_relay)) sample_pool"
    using sample_port by (simp add: acquired_def acquire_tcp_def pool_def sample_relay_def)
  moreover have "unat (st_next_id sample_empty) + 1 < 2 ^ 64"
    by (simp add: sample_empty_def AllocationStore_new_def)
  ultimately have "store_step sample_empty (finish_allocate (sock_port sample_relay) None (Ok ()) sample_store)"
    using sample_create by (rule ss_allocate)
  then show ?thesis by (simp add: finish_allocate_def)
qed

lemma sample_store_wf: "wf_store sample_store"
  by (rule store.reachable_inv [OF sample_empty_init sample_store_reached])


section \<open>Agreement of the tables\<close>

lemma wf_store_index:
  assumes "wf_store s"
  shows "get_by_relay s r = Some c \<longleftrightarrow> (\<exists>a. st_get s c = Some a \<and> al_relay_addr a = r)"
    and "get_by_id s i = Some c \<longleftrightarrow> (\<exists>a. st_get s c = Some a \<and> al_allocation_id a = i)"
  using assms by (auto simp: wf_store_def index_exact_def get_by_relay_def get_by_id_def st_get_def)

lemma wf_store_ports:
  assumes wf: "wf_store s" and a: "st_get s c = Some a"
  shows "is_allocated (pool_for_port s (relay_port a)) (relay_port a)"
    and "st_get s d = Some b \<Longrightarrow> relay_port a = relay_port b \<Longrightarrow> c = d"
proof -
  have own: "owns_ports (st_allocations s) (port_held s)" using wf by (simp add: wf_store_def)
  then have "port_held s (relay_port a)" using a by (auto simp: owns_ports_def st_get_def)
  then show "is_allocated (pool_for_port s (relay_port a)) (relay_port a)"
    by (simp add: port_held_def is_allocated_def held_ports_def)
  show "st_get s d = Some b \<Longrightarrow> relay_port a = relay_port b \<Longrightarrow> c = d"
    using own a unfolding owns_ports_def st_get_def by blast
qed

lemma wf_store_channel:
  assumes wf: "wf_store s" and a: "st_get s c = Some a" and "get_channel_peer t a ch = Some p"
  shows "get_by_channel s (relay_port a) ch = Some c"
proof -
  have "ch |\<in>| fmdom (al_channel_bindings a)"
    using assms(3) by (auto simp: get_channel_peer_def fmdom_notD split: option.splits if_splits intro: fmdomI)
  then show ?thesis
    using wf a by (auto simp: wf_store_def channels_indexed_def get_by_channel_def st_get_def)
qed



text \<open>The numbers of live allocations the admission counters stand for.\<close>

definition user_live :: "allocation_store \<Rightarrow> user_key \<Rightarrow> nat" where
  "user_live s k = card {c. \<exists>a. st_get s c = Some a \<and> user_key_of a = k}"

definition tenant_live :: "allocation_store \<Rightarrow> string \<Rightarrow> nat" where
  "tenant_live s t = card {c. \<exists>a. st_get s c = Some a \<and> al_tenant_id a = Some t}"

lemma counter_nat:
  assumes "count_exact key m cnt" "owns_ports m held"
  shows "unat (cnt k) = card (members key m k)"
  using assms(1) owns_ports_card [OF assms(2), of key k]
  by (simp add: count_exact_def unat_of_nat take_bit_eq_mod)

lemma wf_store_counts:
  assumes "wf_store s"
  shows "unat (st_global_count s) = st_len s"
    and "unat (current_tenant_usage s t) = tenant_live s t"
    and "unat (current_user_usage s realm t' u) = user_live s (realm, t', u)"
proof -
  have own: "owns_ports (st_allocations s) (port_held s)"
    and cnt: "count_exact (\<lambda>a. Some ()) (st_allocations s) (\<lambda>_. st_global_count s)"
      "count_exact al_tenant_id (st_allocations s) (counter (st_tenant_counts s))"
      "count_exact (\<lambda>a. Some (user_key_of a)) (st_allocations s) (counter (st_user_counts s))"
    using assms by (simp_all add: wf_store_def counts_exact_def counters_of_def)
  have dom: "members (\<lambda>a. Some ()) m () = fset (fmdom m)" for m :: "(socket_addr, allocation) fmap"
    by (auto simp: members_def fmlookup_dom_iff)
  show "unat (st_global_count s) = st_len s"
    using counter_nat [OF cnt(1) own, of "()"] by (simp add: dom st_len_def fcard.rep_eq)
  show "unat (current_tenant_usage s t) = tenant_live s t"
    using counter_nat [OF cnt(2) own, of t] by (simp add: current_tenant_usage_def tenant_live_def members_def st_get_def)
  show "unat (current_user_usage s realm t' u) = user_live s (realm, t', u)"
    using counter_nat [OF cnt(3) own, of "(realm, t', u)"]
    by (simp add: current_user_usage_def user_live_def members_def st_get_def)
qed

definition room :: "usize \<Rightarrow> nat \<Rightarrow> bool" where
  "room cap n \<longleftrightarrow> cap = 0 \<or> n < unat cap"

lemma below_cap_room: "below_cap cap n \<longleftrightarrow> room cap (unat n)"
  by (simp add: below_cap_def room_def word_less_nat_alt)

text \<open>
  C14. Admission is exact. In every reachable store an allocation is created if and only if neither
  allocations nor lifetimes are disabled for the identity, the numbers of live allocations of the
  user, of the tenant and of the node are below their limits (0 meaning unlimited), and the client
  has no allocation yet. A created allocation is the only change of the table; a refused one leaves
  the table and every counter as they were.
\<close>

theorem create_admission:
  assumes "store_init s0" and "store_step\<^sup>*\<^sup>* s0 s"
    and c: "create_for_identity now ms ep c rel u key l realm t s = (r, s')"
  shows "(r = Ok () \<longleftrightarrow>
           \<not> ef_allocations_disabled (effective_for s realm t u)
           \<and> \<not> ef_lifetime_disabled (effective_for s realm t u)
           \<and> room (ef_max_allocations (effective_for s realm t u)) (user_live s (realm, t, u))
           \<and> (case t of None \<Rightarrow> True | Some tid \<Rightarrow> room (tenant_max_allocations s tid) (tenant_live s tid))
           \<and> room (rl_max_allocations (st_runtime s)) (st_len s)
           \<and> st_get s c = None)
    \<and> st_get s' d = (if d = c \<and> r = Ok ()
          then Some (Allocation_new (hex16 (st_next_id s)) c rel u key l realm t now ms) else st_get s d)
    \<and> (r \<noteq> Ok () \<longrightarrow> st_len s' = st_len s \<and> st_global_count s' = st_global_count s
          \<and> current_user_usage s' rr tt uu = current_user_usage s rr tt uu
          \<and> current_tenant_usage s' tt' = current_tenant_usage s tt')"
proof -
  have wf: "wf_store s" by (rule store.reachable_inv [OF assms(1,2)])
  note sp = create_spec [OF c]
  have "admissible realm t u s \<longleftrightarrow>
           \<not> ef_allocations_disabled (effective_for s realm t u)
           \<and> \<not> ef_lifetime_disabled (effective_for s realm t u)
           \<and> room (ef_max_allocations (effective_for s realm t u)) (user_live s (realm, t, u))
           \<and> (case t of None \<Rightarrow> True | Some tid \<Rightarrow> room (tenant_max_allocations s tid) (tenant_live s tid))
           \<and> room (rl_max_allocations (st_runtime s)) (st_len s)"
    unfolding admissible_def Let_def below_cap_room wf_store_counts [OF wf] by (cases t) auto
  moreover have "st_get s' d = (if d = c \<and> r = Ok ()
      then Some (Allocation_new (hex16 (st_next_id s)) c rel u key l realm t now ms) else st_get s d)"
    using sp by (simp add: st_get_def)
  moreover have "r \<noteq> Ok () \<longrightarrow> st_len s' = st_len s \<and> st_global_count s' = st_global_count s
      \<and> current_user_usage s' rr tt uu = current_user_usage s rr tt uu
      \<and> current_tenant_usage s' tt' = current_tenant_usage s tt'"
    using sp by (auto simp: st_len_def counters_of_def current_user_usage_def current_tenant_usage_def)
  ultimately show ?thesis using sp by blast
qed


theorem create_admission_witness:
  "fst (create_for_identity 0 1 1 sample_client sample_relay ''alice'' [] 600 '''' None sample_empty) = Ok ()
   \<and> fst (create_for_identity 0 1 1 sample_client sample_relay ''alice'' [] 600 '''' None sample_store) \<noteq> Ok ()"
proof -
  obtain r s where 1: "create_for_identity 0 1 1 sample_client sample_relay ''alice'' [] 600 '''' None sample_empty = (r, s)"
    by fastforce
  obtain r' s' where 2: "create_for_identity 0 1 1 sample_client sample_relay ''alice'' [] 600 '''' None sample_store = (r', s')"
    by fastforce
  have "r = Ok ()"
    using create_admission [OF sample_empty_init rtranclp.rtrancl_refl 1]
    by (simp add: effective_for_def tenant_quota_def sample_empty_def AllocationStore_new_def effective_none
        room_def user_live_def st_get_def st_len_def fcard.rep_eq BandwidthQuota_default_def)
  moreover have "r' \<noteq> Ok ()"
    using create_admission [OF sample_empty_init sample_store_reached 2] by (simp add: sample_store_get)
  ultimately show ?thesis using 1 2 by simp
qed

end
