(* ===== verification/Store_Sweep.thy ===== *)
theory Store_Sweep
  imports Store_Admission
begin

text \<open>
  The periodic sweep (\<^verbatim>\<open>cleanup_expired_budget\<close>): the exact set of allocations one sweep settles, the
  progress of repeated sweeps and the result of an unbudgeted one.
\<close>

section \<open>What one sweep does\<close>

definition pending :: "instant \<Rightarrow> allocation \<Rightarrow> bool" where
  "pending now a \<longleftrightarrow> Allocation_is_expired now a \<or> has_stale_entries now a"

definition settle :: "instant \<Rightarrow> allocation \<Rightarrow> allocation option" where
  "settle now a = (if Allocation_is_expired now a then None else Some (snd (cleanup_expired_entries now a)))"

text \<open>The entries a sweep with the budget \<open>k\<close> takes up: the first \<open>k\<close> pending ones in the order of iteration.\<close>

definition taken :: "instant \<Rightarrow> nat \<Rightarrow> (socket_addr \<times> allocation) list \<Rightarrow> (socket_addr \<times> allocation) list" where
  "taken now k es = take k (filter (\<lambda>x. pending now (snd x)) es)"

lemma classify_taken:
  "classify now k es ex cl =
     (ex @ map (\<lambda>(c, a). (c, al_relay_addr a))
        (filter (\<lambda>x. Allocation_is_expired now (snd x)) (taken now (k - (length ex + length cl)) es)),
      cl @ map fst (filter (\<lambda>x. \<not> Allocation_is_expired now (snd x)) (taken now (k - (length ex + length cl)) es)))"
proof (induction now k es ex cl rule: classify.induct)
  case (2 now k c a rest ex cl)
  show ?case
  proof (cases "length ex + length cl \<ge> k")
    case False
    then obtain m where m: "k - (length ex + length cl) = Suc m" by (metis Suc_diff_Suc not_le)
    then have m': "k - (length ex + 1 + length cl) = m" "k - (length ex + (length cl + 1)) = m" by simp_all
    show ?thesis using 2 False m m' by (auto simp: taken_def pending_def)
  qed (simp add: taken_def)
qed (simp add: taken_def)

lemma clean_clients_lookup:
  assumes "distinct cs"
  shows "fmlookup (st_allocations (fold (clean_client now) cs s)) d =
    (if d \<in> set cs then map_option (\<lambda>a. snd (cleanup_expired_entries now a)) (fmlookup (st_allocations s) d)
     else fmlookup (st_allocations s) d)"
  using assms
proof (induction cs arbitrary: s)
  case (Cons c cs)
  have "fmlookup (st_allocations (clean_client now c s)) d =
    (if d = c then map_option (\<lambda>a. snd (cleanup_expired_entries now a)) (fmlookup (st_allocations s) d)
     else fmlookup (st_allocations s) d)" for d
    by (simp add: clean_client_def upd_alloc_def split: option.split)
  then show ?case using Cons by auto
qed simp

lemma expire_clients_lookup:
  assumes "distinct (map fst es)"
    and "\<forall>c \<in> fst ` set es. \<exists>a. fmlookup (st_allocations s) c = Some a \<and> Allocation_is_expired now a"
    and "fold (expire_client now ms) es (n, s) = (n', s')"
  shows "n' = n + length es \<and> (\<forall>d. fmlookup (st_allocations s') d =
     (if d \<in> fst ` set es then None else fmlookup (st_allocations s) d))"
  using assms
proof (induction es arbitrary: n s)
  case (Cons x es)
  obtain c rel where x: "x = (c, rel)" by (cases x)
  let ?s = "snd (st_remove now ms c rel s)"
  from Cons.prems(2) x obtain a where a: "fmlookup (st_allocations s) c = Some a" "Allocation_is_expired now a" by auto
  have look: "fmlookup (st_allocations ?s) d = (if d = c then None else fmlookup (st_allocations s) d)" for d
    by (simp add: remove_allocations)
  have "n' = (n + 1) + length es \<and> (\<forall>d. fmlookup (st_allocations s') d =
     (if d \<in> fst ` set es then None else fmlookup (st_allocations ?s) d))"
  proof (rule Cons.IH)
    show "distinct (map fst es)" using Cons.prems(1) by simp
    show "\<forall>c \<in> fst ` set es. \<exists>a. fmlookup (st_allocations ?s) c = Some a \<and> Allocation_is_expired now a"
      using Cons.prems(1,2) x by (auto simp: look)
    show "fold (expire_client now ms) es (n + 1, ?s) = (n', s')"
      using Cons.prems(3) a by (simp add: x expire_client_def)
  qed
  then show ?case by (auto simp: x look)
qed simp

lemma sweep_effect:
  assumes "distinct order" and "cleanup_expired_budget order now ms k s = (n, s')"
  defines "T \<equiv> taken now k (live_entries s order)"
  shows "n = length (filter (\<lambda>x. Allocation_is_expired now (snd x)) T)"
    and "fmlookup (st_allocations s') d =
      (if d \<in> fst ` set T then Option.bind (fmlookup (st_allocations s) d) (settle now)
       else fmlookup (st_allocations s) d)"
proof -
  let ?s = "sweep_pools now s"
  let ?X = "filter (\<lambda>x. Allocation_is_expired now (snd x)) T"
    and ?L = "filter (\<lambda>x. \<not> Allocation_is_expired now (snd x)) T"
  let ?ex = "map (\<lambda>(c, a). (c, al_relay_addr a)) ?X" and ?cl = "map fst ?L"
  let ?s2 = "fold (clean_client now) ?cl ?s"
  have alls: "st_allocations ?s = st_allocations s" by (simp add: sweep_pools_def)
  have ent: "live_entries ?s order = live_entries s order" by (simp add: live_entries_def alls)
  have cf: "classify now k (live_entries s order) [] [] = (?ex, ?cl)"
    by (simp add: classify_taken T_def)
  obtain n3 s3 where e: "fold (expire_client now ms) ?ex (0, ?s2) = (n3, s3)" by fastforce
  have res: "n = n3" "st_allocations s' = st_allocations s3"
    using assms(2) cf e unfolding cleanup_expired_budget_def Let_def live_entries_def [symmetric] ent by auto
  have dT: "distinct (map fst T)"
  proof -
    have "distinct (map fst (live_entries s order))" using assms(1) by (simp add: live_entries_keys)
    then show ?thesis
      unfolding T_def taken_def by (intro distinct_map_filter [THEN distinct_take] | simp add: take_map [symmetric] distinct_map_filter)+
  qed
  have mem: "fmlookup (st_allocations s) c = Some a" if "(c, a) \<in> set T" for c a
    using that unfolding T_def taken_def by (auto dest!: in_set_takeD simp: live_entries_iff)
  have exf: "map fst ?ex = map fst ?X" by (simp add: case_prod_beta comp_def)
  have exs: "fst ` set ?ex = fst ` set ?X" using exf by (metis list.set_map)
  have dis: "c \<notin> set ?cl" if "c \<in> fst ` set ?X" for c
    using that by (auto dest!: mem)
  have look2: "fmlookup (st_allocations ?s2) d =
    (if d \<in> set ?cl then map_option (\<lambda>a. snd (cleanup_expired_entries now a)) (fmlookup (st_allocations s) d)
     else fmlookup (st_allocations s) d)" for d
    using clean_clients_lookup [of ?cl now ?s d] dT by (simp add: alls distinct_map_filter)
  have "n3 = 0 + length ?ex \<and> (\<forall>d. fmlookup (st_allocations s3) d =
     (if d \<in> fst ` set ?ex then None else fmlookup (st_allocations ?s2) d))"
  proof (rule expire_clients_lookup [OF _ _ e])
    show "distinct (map fst ?ex)" unfolding exf using dT by (simp add: distinct_map_filter)
    show "\<forall>c \<in> fst ` set ?ex. \<exists>a. fmlookup (st_allocations ?s2) c = Some a \<and> Allocation_is_expired now a"
      unfolding exs using dis mem by (auto simp: look2)
  qed
  then have n3: "n3 = length ?X" and look3: "fmlookup (st_allocations s3) d =
     (if d \<in> fst ` set ?X then None else fmlookup (st_allocations ?s2) d)" for d
    unfolding exs by simp_all
  show "n = length ?X" using res n3 by simp
  show "fmlookup (st_allocations s') d =
      (if d \<in> fst ` set T then Option.bind (fmlookup (st_allocations s) d) (settle now)
       else fmlookup (st_allocations s) d)"
  proof (cases "d \<in> fst ` set T")
    case True
    then obtain a where a: "(d, a) \<in> set T" by force
    note m = mem [OF a]
    show ?thesis
    proof (cases "Allocation_is_expired now a")
      case True
      then have "d \<in> fst ` set ?X" using a by force
      then show ?thesis using a m True by (force simp: res look3 settle_def)
    next
      case False
      then have "d \<in> set ?cl" using a by force
      moreover have "d \<notin> fst ` set ?X" using False m by (auto dest: mem)
      ultimately have "d \<in> set ?cl" "d \<notin> fst ` set ?X" by blast+
      then show ?thesis using \<open>d \<in> fst ` set T\<close> m False unfolding res look3 look2 by (simp add: settle_def)
    qed
  next
    case False
    then have "d \<notin> set ?cl" "d \<notin> fst ` set ?X" by auto
    then show ?thesis using False unfolding res look3 look2 by simp
  qed
qed


section \<open>Progress of the sweep\<close>

definition backlog :: "instant \<Rightarrow> allocation_store \<Rightarrow> socket_addr set" where
  "backlog now s = {c. \<exists>a. st_get s c = Some a \<and> pending now a}"

lemma settle_done:
  assumes "wf_alloc a" and "settle now a = Some a'"
  shows "\<not> pending now a'"
proof -
  have a': "a' = snd (cleanup_expired_entries now a)" "\<not> Allocation_is_expired now a"
    using assms(2) by (auto simp: settle_def split: if_splits)
  then show ?thesis
    using cleanup_fresh [OF assms(1)] cleanup_identity(3) [OF assms(1)]
    by (simp add: pending_def Allocation_is_expired_def)
qed

lemma sweep_backlog:
  assumes wf: "wf_store s" and d: "distinct order" and all: "set order = fset (fmdom (st_allocations s))"
    and c: "cleanup_expired_budget order now ms k s = (n, s')"
  shows "backlog now s' \<subseteq> backlog now s" and "card (backlog now s') = card (backlog now s) - k"
    and "set order \<supseteq> fset (fmdom (st_allocations s'))"
proof -
  let ?T = "taken now k (live_entries s order)"
  let ?P = "filter (\<lambda>x. pending now (snd x)) (live_entries s order)"
  note look = sweep_effect(2) [OF d c]
  have dist: "distinct (map fst (live_entries s order))" using d by (simp add: live_entries_keys)
  have P: "fst ` set ?P = backlog now s"
  proof (intro set_eqI iffI)
    fix x assume "x \<in> backlog now s"
    then obtain a where "fmlookup (st_allocations s) x = Some a" "pending now a" by (auto simp: backlog_def st_get_def)
    then have "(x, a) \<in> set ?P" using all by (simp add: live_entries_iff fmdomI)
    then show "x \<in> fst ` set ?P" by force
  qed (auto simp: live_entries_iff backlog_def st_get_def)
  have T: "set ?T \<subseteq> set ?P" unfolding taken_def by (rule set_take_subset)
  have "backlog now s' = backlog now s - fst ` set ?T"
  proof (intro set_eqI iffI)
    fix x assume x: "x \<in> backlog now s'"
    then obtain a' where a': "fmlookup (st_allocations s') x = Some a'" "pending now a'"
      by (auto simp: backlog_def st_get_def)
    have "x \<notin> fst ` set ?T"
    proof
      assume "x \<in> fst ` set ?T"
      then have "Option.bind (fmlookup (st_allocations s) x) (settle now) = Some a'"
        using look [of x] a' by simp
      then obtain a where "fmlookup (st_allocations s) x = Some a" "settle now a = Some a'"
        by (auto simp: bind_eq_Some_conv)
      with settle_done wf_store_alloc [OF wf] a'(2) show False by blast
    qed
    with look [of x] a' show "x \<in> backlog now s - fst ` set ?T" by (auto simp: backlog_def st_get_def)
  next
    fix x assume "x \<in> backlog now s - fst ` set ?T"
    then show "x \<in> backlog now s'" using look [of x] by (simp add: backlog_def st_get_def)
  qed
  moreover have "card (fst ` set ?T) = min k (card (backlog now s))"
  proof -
    have dP: "distinct (map fst ?P)" using dist by (simp add: distinct_map_filter)
    then have "distinct (map fst ?T)" unfolding taken_def take_map [symmetric] by (rule distinct_take)
    then have "card (fst ` set ?T) = length ?T" by (metis distinct_card length_map list.set_map)
    moreover have "card (fst ` set ?P) = length ?P" using dP by (metis distinct_card length_map list.set_map)
    ultimately show ?thesis by (simp add: taken_def P [symmetric] min.commute)
  qed
  moreover have "fst ` set ?T \<subseteq> backlog now s" using T P by blast
  moreover have "finite (backlog now s)" unfolding P [symmetric] by simp
  ultimately show "backlog now s' \<subseteq> backlog now s" "card (backlog now s') = card (backlog now s) - k"
    by (auto simp: card_Diff_subset finite_subset)
  show "set order \<supseteq> fset (fmdom (st_allocations s'))"
    unfolding all using look by (force simp: fmlookup_dom_iff bind_eq_Some_conv split: if_splits)
qed

inductive sweeps :: "instant \<Rightarrow> nat \<Rightarrow> nat \<Rightarrow> allocation_store \<Rightarrow> allocation_store \<Rightarrow> bool" where
  sweeps_0: "sweeps now k 0 s s"
| sweeps_Suc: "distinct order \<Longrightarrow> set order = fset (fmdom (st_allocations s)) \<Longrightarrow>
     cleanup_expired_budget order now ms k s = (n, s1) \<Longrightarrow> sweeps now k m s1 s' \<Longrightarrow> sweeps now k (Suc m) s s'"

lemma sweeps_backlog:
  "sweeps now k m s s' \<Longrightarrow> wf_store s \<Longrightarrow> card (backlog now s') = card (backlog now s) - m * k \<and> wf_store s'"
proof (induction rule: sweeps.induct)
  case (sweeps_Suc order s now ms k n s1 m s')
  have "wf_store s1" using cleanup_budget_spec [OF sweeps_Suc(6,1,3)] by blast
  with sweeps_Suc sweep_backlog(2) [OF sweeps_Suc(6,1,2,3)] show ?case by simp
qed simp

lemma sweeps_exist: "\<exists>s'. sweeps now k m s s'"
proof (induction m arbitrary: s)
  case (Suc m)
  obtain order where o: "set order = fset (fmdom (st_allocations s))" "distinct order"
    using finite_distinct_list [of "fset (fmdom (st_allocations s))"] by auto
  obtain n s1 where "cleanup_expired_budget order now 0 k s = (n, s1)" by fastforce
  with Suc [of s1] o show ?case by (blast intro: sweeps_Suc)
qed (blast intro: sweeps_0)

lemma backlog_len: "card (backlog now s) \<le> st_len s"
  unfolding st_len_def fcard.rep_eq
  by (rule card_mono) (auto simp: backlog_def st_get_def intro: fmdomI)

text \<open>
  C18. The budgeted sweep starves nobody. In every reachable store, each sweep with the budget \<open>k\<close>
  settles \<open>k\<close> of the allocations that are expired or hold expired entries (all of them when there are
  fewer), in whatever order the table is iterated, so \<open>m\<close> sweeps with \<open>m * k\<close> at least the number of
  allocations always run and leave neither an expired allocation nor an expired entry.
\<close>

theorem sweep_liveness:
  assumes "store_init s0" and "store_step\<^sup>*\<^sup>* s0 s" and "st_len s \<le> m * k"
  shows "(\<exists>s'. sweeps now k m s s')
    \<and> (\<forall>s' c a. sweeps now k m s s' \<longrightarrow> st_get s' c = Some a \<longrightarrow>
          \<not> Allocation_is_expired now a \<and> \<not> has_stale_entries now a)"
proof -
  have wf: "wf_store s" by (rule store.reachable_inv [OF assms(1,2)])
  have "\<not> pending now a" if "sweeps now k m s s'" "st_get s' c = Some a" for s' c a
  proof
    assume "pending now a"
    then have c: "c \<in> backlog now s'" using that by (auto simp: backlog_def)
    have "card (backlog now s') = 0"
      using sweeps_backlog [OF that(1) wf] backlog_len [of now s] assms(3) by simp
    moreover have "finite (backlog now s')"
      by (rule finite_subset [of _ "fset (fmdom (st_allocations s'))"]) (auto simp: backlog_def st_get_def intro: fmdomI)
    ultimately show False using c by simp
  qed
  then show ?thesis using sweeps_exist by (auto simp: pending_def)
qed

text \<open>
  The unbudgeted sweep is exact: in every reachable store it removes the allocations that have
  expired and no other, reports their number, and changes the others only by pruning expired
  entries.
\<close>

theorem cleanup_expired_exact:
  assumes "store_init s0" and "store_step\<^sup>*\<^sup>* s0 s"
    and d: "distinct order" and all: "set order = fset (fmdom (st_allocations s))"
    and c: "cleanup_expired order now ms s = (n, s')"
  shows "n = card {c. \<exists>a. st_get s c = Some a \<and> Allocation_is_expired now a}
    \<and> st_get s' x = (case st_get s x of
          None \<Rightarrow> None
        | Some a \<Rightarrow> if Allocation_is_expired now a then None
                    else if has_stale_entries now a then Some (snd (cleanup_expired_entries now a))
                    else Some a)"
proof -
  have wf: "wf_store s" by (rule store.reachable_inv [OF assms(1,2)])
  let ?E = "live_entries s order"
  have own: "owns_ports (st_allocations s) (port_held s)" using wf by (simp add: wf_store_def)
  have "members (\<lambda>a. Some ()) (st_allocations s) () = set order"
    unfolding all by (auto simp: members_def fmlookup_dom_iff)
  then have "length order \<le> 65536"
    using owns_ports_card [OF own, of "\<lambda>a. Some ()" "()"] distinct_card [OF d] by simp
  moreover have "length (filter (\<lambda>x. pending now (snd x)) ?E) \<le> length order"
    by (rule order_trans [OF length_filter_le length_live_entries])
  ultimately have "length (filter (\<lambda>x. pending now (snd x)) ?E) \<le> 2 ^ 64 - 1" by simp
  then have T: "taken now (2 ^ 64 - 1) ?E = filter (\<lambda>x. pending now (snd x)) ?E" by (simp add: taken_def)
  note eff = sweep_effect [OF d c [unfolded cleanup_expired_def], unfolded T]
  have mem: "(z, a) \<in> set ?E \<longleftrightarrow> st_get s z = Some a" for z a
    using all by (auto simp: live_entries_iff st_get_def intro: fmdomI)
  have iff: "x \<in> fst ` set (filter (\<lambda>x. P (snd x)) ?E) \<longleftrightarrow> (\<exists>a. st_get s x = Some a \<and> P a)" for x P
    by (simp add: image_iff Bex_def split_paired_Ex mem)
  let ?X = "filter (\<lambda>x. Allocation_is_expired now (snd x)) ?E"
  have X: "filter (\<lambda>x. Allocation_is_expired now (snd x)) (filter (\<lambda>x. pending now (snd x)) ?E) = ?X"
    by (auto simp: pending_def intro: filter_cong)
  have "distinct (map fst ?X)" using d by (intro distinct_map_filter) (simp add: live_entries_keys)
  then have "length ?X = card (fst ` set ?X)" by (metis distinct_card length_map list.set_map)
  also have "fst ` set ?X = {c. \<exists>a. st_get s c = Some a \<and> Allocation_is_expired now a}"
    using iff by blast
  finally have "n = card {c. \<exists>a. st_get s c = Some a \<and> Allocation_is_expired now a}" using eff(1) X by simp
  moreover have "st_get s' x = (case st_get s x of
          None \<Rightarrow> None
        | Some a \<Rightarrow> if Allocation_is_expired now a then None
                    else if has_stale_entries now a then Some (snd (cleanup_expired_entries now a))
                    else Some a)"
    using eff(2) [of x] iff [of x "pending now"] unfolding st_get_def [symmetric]
    by (auto simp: pending_def settle_def split: option.split)
  ultimately show ?thesis by blast
qed


text \<open>At 700 s the sample allocation, granted for 600 s, has expired.\<close>

lemma sample_store_dom: "fset (fmdom (st_allocations sample_store)) = {sample_client}"
  using sample_store_get by (auto simp: st_get_def fmlookup_dom_iff split: if_splits)

theorem sweep_liveness_witness:
  "st_len sample_store = 1 \<and> (\<exists>s'. sweeps (from_secs 700) 1 1 sample_store s'
     \<and> (\<forall>c a. st_get s' c = Some a \<longrightarrow> \<not> Allocation_is_expired (from_secs 700) a))"
proof -
  have "st_len sample_store = 1" by (simp add: st_len_def fcard.rep_eq sample_store_dom)
  with sweep_liveness [OF sample_empty_init sample_store_reached, of 1 1 "from_secs 700"] show ?thesis by auto
qed

theorem cleanup_expired_exact_witness:
  "fst (cleanup_expired [sample_client] (from_secs 700) 0 sample_store) = 1
   \<and> fst (cleanup_expired [sample_client] (from_secs 500) 0 sample_store) = 0"
proof -
  have one: "fst (cleanup_expired [sample_client] now 0 sample_store) =
     card {c. \<exists>a. st_get sample_store c = Some a \<and> Allocation_is_expired now a}" for now
    using cleanup_expired_exact [OF sample_empty_init sample_store_reached, of "[sample_client]" now 0]
      sample_store_dom by (metis (no_types, lifting) distinct_singleton list.set(1) list.simps(15) prod.collapse)
  have 1: "{c. \<exists>a. st_get sample_store c = Some a \<and> Allocation_is_expired (from_secs 700) a} = {sample_client}"
    by (auto simp: sample_store_get Allocation_new_def Allocation_is_expired_def from_secs_def split: if_splits)
  have 0: "{c. \<exists>a. st_get sample_store c = Some a \<and> Allocation_is_expired (from_secs 500) a} = {}"
    by (auto simp: sample_store_get Allocation_new_def Allocation_is_expired_def from_secs_def split: if_splits)
  show ?thesis unfolding one 0 1 by simp
qed

end
