(* ===== verification/Store_Migration.thy ===== *)
theory Store_Migration
  imports Store_Sweep
begin

text \<open>
  Migration (\<^verbatim>\<open>re_key\<close>), alone and with other threads at its unlocked points, the removal paths, and
  the ids of allocations restored by \<^verbatim>\<open>rehydrate\<close>.
\<close>

lemma released_free: "\<not> is_allocated (pool_for_port (upd_pool_for_port p (\<lambda>pa. pa_release pa p) s) p) p"
  using upd_pool_spec(1) [of "\<lambda>pa. pa_release pa p" s p]
  by (simp add: in_range_def pa_contains_def pa_release_def is_allocated_def)

section \<open>Migration\<close>

lemma st_allocations_move [simp]:
  "st_allocations (move_indices old a s) = fmupd (al_client_addr a) a (st_allocations s)"
  by (simp add: move_indices_def Let_def)






section \<open>Removal\<close>

lemma card_remove_user:
  assumes "st_get s c = Some a" and "\<And>d. st_get s' d = (if d = c then None else st_get s d)"
  shows "user_live s (user_key_of a) = Suc (user_live s' (user_key_of a))"
proof -
  have "{d. \<exists>b. st_get s d = Some b \<and> user_key_of b = user_key_of a} =
      insert c {d. \<exists>b. st_get s' d = Some b \<and> user_key_of b = user_key_of a}"
    using assms by auto
  moreover have "finite {d. \<exists>b. st_get s' d = Some b \<and> user_key_of b = user_key_of a}"
    by (rule finite_subset [of _ "fset (fmdom (st_allocations s'))"]) (auto simp: st_get_def intro: fmdomI)
  ultimately show ?thesis using assms(2) [of c] by (simp add: user_live_def)
qed




section \<open>Ids of restored allocations\<close>

lemma hex16_nonempty: "hex16 n \<noteq> []"
proof -
  have "be_bytes 8 n \<noteq> []" using length_be_bytes [of 8 n] by force
  then show ?thesis by (cases "be_bytes 8 n") (simp_all add: hex16_def hex_byte_def)
qed

lemma rehydrate_installed:
  assumes "rehydrate ep now c rel u realm i e cr ex ps chans s = (Ok True, s')" and "i \<noteq> []"
  shows "st_next_id s' = st_next_id s \<and> (\<exists>a. st_get s' c = Some a \<and> al_allocation_id a = i)"
  using assms(1)
proof (cases rule: rehydrate_cases)
  case (port g s1 pa x i' n s2)
  from port(3) assms(2) have "i' = i" "n = st_next_id s" by simp_all
  with port(4,5) show ?thesis
    by (auto simp: install_def Let_def st_get_def restored_allocation_def split: prod.split)
qed auto

text \<open>
  C33. Restoring a persisted allocation does not advance the id counter. When the restored id is the
  one the counter mints next, the next allocation of another client gets the same id, and the id
  index then leads to that client only: two live allocations share an id.
\<close>

theorem rehydrated_id_collides:
  assumes "rehydrate ep now c rel u realm (hex16 (st_next_id s)) e cr ex ps chans s = (Ok True, s1)"
    and "c2 \<noteq> c"
    and "create_for_identity now2 ms ep2 c2 rel2 u2 key l realm2 t s1 = (Ok (), s2)"
  shows "\<exists>a b. st_get s2 c = Some a \<and> st_get s2 c2 = Some b \<and> al_allocation_id a = al_allocation_id b
    \<and> get_by_id s2 (al_allocation_id a) = Some c2"
proof -
  from rehydrate_installed [OF assms(1) hex16_nonempty] obtain a where
    nx: "st_next_id s1 = st_next_id s" and a: "st_get s1 c = Some a" "al_allocation_id a = hex16 (st_next_id s)" by blast
  from create_spec [OF assms(3)] have al: "st_allocations s2 =
      fmupd c2 (Allocation_new (hex16 (st_next_id s1)) c2 rel2 u2 key l realm2 t now2 ms) (st_allocations s1)" by simp
  from assms(3) have "get_by_id s2 (hex16 (st_next_id s1)) = Some c2"
  proof (cases rule: create_cases)
    case (created g s3)
    have "st_next_id s3 = st_next_id s1" using reserve_spec [OF created(3)] same_but_counts_fields(7) by blast
    then show ?thesis unfolding created(4)
      by (simp add: get_by_id_def install_def Let_def Allocation_new_def)
  qed simp_all
  then show ?thesis using al a nx assms(2) by (simp add: st_get_def Allocation_new_def)
qed

lemma sample_rehydrate:
  "\<exists>s1. rehydrate 0 0 sample_client sample_relay ''alice'' '''' ''0000000000000001'' 0 0 1000 [] [] sample_empty = (Ok True, s1)
     \<and> admissible '''' None ''bob'' s1 \<and> st_get s1 sample_peer = None"
  by (simp add: rehydrate_def Let_def sample_empty_def AllocationStore_new_def tenant_id_for_port_def effective_for_def
      tenant_quota_def effective_none reserve_counters_def reserve_global_def counter_def BandwidthQuota_default_def
      pool_for_port_def pa_reserve_def PortAllocator_new_def upd_pool_for_port_def sample_relay_def sample_client_def sample_peer_def
      install_def restored_allocation_def restore_channels_def admissible_def current_user_usage_def below_cap_def st_get_def
      user_key_of_def pa_contains_def)

theorem rehydrated_id_collides_witness:
  "\<exists>s1 s2 a b. rehydrate 0 0 sample_client sample_relay ''alice'' '''' ''0000000000000001'' 0 0 1000 [] [] sample_empty
       = (Ok True, s1)
     \<and> create_for_identity 0 1 1 sample_peer (SockV4 0xCB007101 49153) ''bob'' [] 600 '''' None s1 = (Ok (), s2)
     \<and> st_get s2 sample_client = Some a \<and> st_get s2 sample_peer = Some b
     \<and> al_allocation_id a = al_allocation_id b \<and> get_by_id s2 (al_allocation_id a) = Some sample_peer"
proof -
  from sample_rehydrate obtain s1 where s1:
    "rehydrate 0 0 sample_client sample_relay ''alice'' '''' ''0000000000000001'' 0 0 1000 [] [] sample_empty = (Ok True, s1)"
    "admissible '''' None ''bob'' s1" "st_get s1 sample_peer = None" by blast
  obtain r s2 where c: "create_for_identity 0 1 1 sample_peer (SockV4 0xCB007101 49153) ''bob'' [] 600 '''' None s1 = (r, s2)"
    by fastforce
  have r: "r = Ok ()" using create_spec [OF c] s1(2,3) by simp
  have id: "''0000000000000001'' = hex16 (st_next_id sample_empty)"
    unfolding sample_empty_def AllocationStore_new_def by code_simp
  have ne: "sample_peer \<noteq> sample_client" by (simp add: sample_client_def sample_peer_def)
  show ?thesis
    using rehydrated_id_collides [OF s1(1) [unfolded id] ne c [unfolded r]] s1(1) c r by blast
qed

end
