(* ===== verification/Store_Refinement.thy ===== *)
theory Store_Refinement
  imports Store_Migration
begin

text \<open>
  What the allocation store promises, as a book of leases: an abstract machine over a map from client
  addresses to leases, and the proof that the store, with its indices, counters, pools and event
  channels, refines it.
\<close>

section \<open>The specification\<close>

record lease =
  le_relay :: socket_addr
  le_id :: string
  le_user :: user_key
  le_epoch :: u64
  le_expires :: instant

type_synonym book = "socket_addr \<Rightarrow> lease option"

inductive book_step :: "book \<Rightarrow> book \<Rightarrow> bool" where
  bk_grant: "m c = None \<Longrightarrow>
     (\<And>d e. m d = Some e \<Longrightarrow> sock_port (le_relay e) \<noteq> sock_port (le_relay l) \<and> le_id e \<noteq> le_id l) \<Longrightarrow>
     book_step m (m(c \<mapsto> l))"
| bk_extend: "m c = Some l \<Longrightarrow> book_step m (m(c \<mapsto> l\<lparr>le_expires := t\<rparr>))"
| bk_release: "m c = Some l \<Longrightarrow> book_step m (m(c := None))"
| bk_move: "m old = Some l \<Longrightarrow> m new = None \<Longrightarrow>
     book_step m (m(old := None, new \<mapsto> l\<lparr>le_epoch := le_epoch l + 1\<rparr>))"
| bk_expire: "(\<And>c. c \<in> X \<Longrightarrow> \<exists>l. m c = Some l \<and> le_expires l < now) \<Longrightarrow>
     book_step m (\<lambda>c. if c \<in> X then None else m c)"
| bk_idle: "book_step m m"

section \<open>The abstraction\<close>

definition lease_of :: "allocation \<Rightarrow> lease" where
  "lease_of a = \<lparr> le_relay = al_relay_addr a, le_id = al_allocation_id a, le_user = user_key_of a,
     le_epoch = al_migration_epoch a, le_expires = al_expires_at a \<rparr>"

definition book_of :: "allocation_store \<Rightarrow> book" where
  "book_of s = (\<lambda>c. map_option lease_of (fmlookup (st_allocations s) c))"

lemma book_of_cong: "st_allocations s' = st_allocations s \<Longrightarrow> book_of s' = book_of s"
  by (simp add: book_of_def)

lemma book_of_upd: "st_allocations s' = fmupd c a (st_allocations s) \<Longrightarrow> book_of s' = (book_of s)(c \<mapsto> lease_of a)"
  by (auto simp: book_of_def)

lemma book_of_drop: "st_allocations s' = fmdrop c (st_allocations s) \<Longrightarrow> book_of s' = (book_of s)(c := None)"
  by (auto simp: book_of_def)

lemma book_of_touch:
  "fmlookup (st_allocations s) c = Some a \<Longrightarrow> lease_of a' = lease_of a \<Longrightarrow>
   st_allocations s' = fmupd c a' (st_allocations s) \<Longrightarrow> book_of s' = book_of s"
  by (auto simp: book_of_def fun_eq_iff)

lemma book_idle: "book_of s' = book_of s \<Longrightarrow> book_step (book_of s) (book_of s')"
  by (simp add: bk_idle)

lemma book_granted:
  assumes wf': "wf_store s'" and none: "fmlookup (st_allocations s) c = None"
    and s': "st_allocations s' = fmupd c a (st_allocations s)"
  shows "book_step (book_of s) (book_of s')"
  unfolding book_of_upd [OF s']
proof (rule bk_grant)
  show "book_of s c = None" using none by (simp add: book_of_def)
  fix d e
  assume "book_of s d = Some e"
  then obtain b where b: "fmlookup (st_allocations s) d = Some b" "e = lease_of b" by (auto simp: book_of_def)
  then have "d \<noteq> c" using none by auto
  then have d: "st_get s' d = Some b" and c: "st_get s' c = Some a" using b(1) by (simp_all add: s' st_get_def)
  show "sock_port (le_relay e) \<noteq> sock_port (le_relay (lease_of a)) \<and> le_id e \<noteq> le_id (lease_of a)"
  proof
    show "sock_port (le_relay e) \<noteq> sock_port (le_relay (lease_of a))"
      using wf_store_ports(2) [OF wf' d c] \<open>d \<noteq> c\<close> by (auto simp: b(2) lease_of_def)
    show "le_id e \<noteq> le_id (lease_of a)"
    proof
      assume "le_id e = le_id (lease_of a)"
      then have "al_allocation_id b = al_allocation_id a" by (simp add: b(2) lease_of_def)
      then have "get_by_id s' (al_allocation_id a) = Some d" "get_by_id s' (al_allocation_id a) = Some c"
        unfolding wf_store_index(2) [OF wf'] using c d by simp_all
      then show False using \<open>d \<noteq> c\<close> by simp
    qed
  qed
qed

section \<open>The simulation\<close>

lemma finish_allocate_allocations [simp]: "st_allocations (finish_allocate p tok r s) = st_allocations s"
  by (cases r) (auto simp: finish_allocate_def Let_def upd_pool_for_port_def split: option.split)

lemma upd_pool_allocations [simp]: "st_allocations (upd_pool t f s) = st_allocations s"
  by (auto simp: upd_pool_def split: option.split)

lemma book_of_pools [simp]:
  "book_of (upd_pool t f s) = book_of s" "book_of (finish_allocate p tok r s) = book_of s"
  "book_of (publish_runtime rt s) = book_of s"
  by (simp_all add: book_of_def publish_runtime_def)

lemma sim_create:
  assumes "create_for_identity now ms ep c rel u key l realm t s = (r, s1)" and "wf_store s2"
    and "st_allocations s2 = st_allocations s1"
  shows "book_step (book_of s) (book_of s2)"
proof (cases "r = Ok ()")
  case True
  with create_spec [OF assms(1)] assms(3) show ?thesis
    by (intro book_granted [OF assms(2)]) (simp_all add: st_get_def)
next
  case False
  with create_spec [OF assms(1)] assms(3) show ?thesis by (intro book_idle book_of_cong) simp
qed

lemma sim_rehydrate:
  assumes "rehydrate ep now c rel u realm i e cr ex ps chans s = (r, s')" and "wf_store s'"
  shows "book_step (book_of s) (book_of s')"
  using assms(1)
proof (cases rule: rehydrate_cases)
  case stale
  then show ?thesis by (simp add: bk_idle)
next
  case (refused err s1)
  then show ?thesis
    using reserve_spec [OF refused(3)] same_but_counts_fields(2) [of s1 s] by (intro book_idle book_of_cong) simp
next
  case (no_port err g s1)
  from reserve_spec [OF no_port(2)] have sp: "same_but_counts s1 s" "g = full_guard realm (tenant_id_for_port s (sock_port rel)) u"
    "entries_present realm (tenant_id_for_port s (sock_port rel)) u s1" by auto
  then show ?thesis
    using same_but_counts_fields(2) [OF drop_full(1) [OF sp(3)]] same_but_counts_fields(2) [OF sp(1)]
    by (intro book_idle book_of_cong) (simp add: no_port(3))
next
  case (port g s1 pa x i' n s2)
  from reserve_spec [OF port(1)] have sp: "same_but_counts s1 s" by auto
  have s2: "st_allocations s2 = st_allocations s"
    using same_but_counts_fields(2) [OF sp] by (simp add: port(4) upd_pool_for_port_def Let_def)
  have drop: "st_allocations (CounterReservation_drop g z) = st_allocations z" for z
    by (simp add: CounterReservation_drop_def Let_def split: option.split)
  from port(5) show ?thesis
  proof (elim disjE conjE)
    assume "s' = CounterReservation_drop g (upd_pool_for_port (sock_port rel) (\<lambda>pa. pa_release pa (sock_port rel)) s2)"
    then show ?thesis by (intro book_idle book_of_cong) (simp add: drop s2 upd_pool_for_port_def Let_def)
  next
    assume "fmlookup (st_allocations s) c = None"
      "s' = install (restored_allocation ep now i' c rel u realm (tenant_id_for_port s (sock_port rel)) e cr ex ps chans) s2"
    then show ?thesis
      by (intro book_granted [OF assms(2)])
         (auto simp: install_def Let_def s2 restored_allocation_def split: prod.split)
  qed
qed

lemma sim_removed:
  assumes "st_allocations s' = fmdrop c (st_allocations s)"
  shows "book_step (book_of s) (book_of s')"
proof (cases "book_of s c")
  case None
  then have "book_of s' = book_of s" using book_of_drop [OF assms] by auto
  then show ?thesis by (rule book_idle)
next
  case (Some l)
  then show ?thesis unfolding book_of_drop [OF assms] by (rule bk_release)
qed

lemma force_remove_allocations: "st_allocations (force_remove ms c s) = fmdrop c (st_allocations s)"
proof (cases "fmlookup (st_allocations s) c")
  case None
  then have "fmdrop c (st_allocations s) = st_allocations s" by (intro fmap_ext) auto
  with None show ?thesis by (simp add: force_remove_def)
qed (simp add: force_remove_def tear_down_fields(1))

lemma sim_refresh: "book_step (book_of s) (book_of (snd (st_refresh now ms c l s)))"
proof (cases "fmlookup (st_allocations s) c")
  case (Some a)
  show ?thesis
  proof (cases "l = 0")
    case True
    then show ?thesis using Some by (intro sim_removed [of _ c]) (simp add: st_refresh_def remove_allocations)
  next
    case False
    let ?s = "snd (st_refresh now ms c l s)" and ?t = "now + from_secs (unat l)"
    have "st_allocations ?s = fmupd c (a\<lparr>al_expires_at := ?t\<rparr>) (st_allocations s)"
      using False Some by (simp add: st_refresh_def upd_alloc_def)
    from book_of_upd [OF this] have "book_of ?s = (book_of s)(c \<mapsto> (lease_of a)\<lparr>le_expires := ?t\<rparr>)"
      by (simp add: lease_of_def user_key_of_def)
    then show ?thesis using Some by (simp add: bk_extend book_of_def)
  qed
qed (simp add: st_refresh_def bk_idle)

lemma sim_re_key:
  assumes wf: "wf_store s"
  shows "book_step (book_of s) (book_of (snd (re_key ms id id old new s)))"
proof -
  consider "old = new" | "fmlookup (st_allocations s) old = None"
    | (taken) a where "fmlookup (st_allocations s) old = Some a" "old \<noteq> new" "fmlookup (st_allocations s) new \<noteq> None"
    | (free) a where "fmlookup (st_allocations s) old = Some a" "old \<noteq> new" "fmlookup (st_allocations s) new = None" by blast
  then show ?thesis
  proof cases
    case (taken a)
    then show ?thesis using re_key_rollback [OF wf, of old a new ms] by (simp add: bk_idle)
  next
    case (free a)
    let ?a = "a\<lparr>al_client_addr := new, al_migration_epoch := al_migration_epoch a + 1\<rparr>"
    let ?s = "snd (re_key ms id id old new s)"
    have "st_allocations ?s = fmupd new ?a (fmdrop old (st_allocations s))" by (simp add: re_key_ok [OF free(1,3)])
    then have "book_of ?s = (book_of s)(old := None, new \<mapsto> (lease_of a)\<lparr>le_epoch := le_epoch (lease_of a) + 1\<rparr>)"
      using free(2) by (auto simp: book_of_def lease_of_def user_key_of_def)
    then show ?thesis using free by (simp add: bk_move book_of_def)
  qed (auto simp: re_key_def bk_idle split: option.split)
qed

lemma lease_clean: "lease_of (snd (cleanup_expired_entries now a)) = lease_of a"
  by (simp add: cleanup_expired_entries_def Let_def lease_of_def user_key_of_def split: prod.split)

lemma sim_sweep:
  assumes "distinct order"
  shows "book_step (book_of s) (book_of (snd (cleanup_expired_budget order now ms k s)))"
proof -
  obtain n s' where c: "cleanup_expired_budget order now ms k s = (n, s')" by fastforce
  let ?T = "fst ` set (taken now k (live_entries s order))"
  let ?X = "{c \<in> ?T. \<exists>a. fmlookup (st_allocations s) c = Some a \<and> Allocation_is_expired now a}"
  have "book_of s' c = (if c \<in> ?X then None else book_of s c)" for c
    using sweep_effect(2) [OF assms c, of c] lease_clean
    by (cases "fmlookup (st_allocations s) c") (auto simp: book_of_def settle_def)
  then have "book_of s' = (\<lambda>c. if c \<in> ?X then None else book_of s c)" by auto
  moreover have "book_step (book_of s) (\<lambda>c. if c \<in> ?X then None else book_of s c)"
    by (rule bk_expire [of _ _ now]) (auto simp: book_of_def lease_of_def Allocation_is_expired_def)
  ultimately show ?thesis by (simp add: c)
qed


lemma book_of_upd_alloc:
  "fmlookup (st_allocations s) c = Some a \<Longrightarrow> lease_of a' = lease_of a \<Longrightarrow> book_of (upd_alloc c a' s) = book_of s"
  by (rule book_of_touch) (simp_all add: upd_alloc_def)

lemma book_of_quiet [simp]:
  "book_of (emit_write op s) = book_of s" "book_of (s\<lparr>st_channel_to_client := ix\<rparr>) = book_of s"
  by (simp_all add: book_of_def)

lemma lease_permission: "alloc_add_permission now ip a = Ok a' \<Longrightarrow> lease_of a' = lease_of a"
  by (auto simp: alloc_add_permission_def lease_of_def user_key_of_def split: option.splits if_splits)

lemma lease_channel: "alloc_add_channel now ch peer a = Ok a' \<Longrightarrow> lease_of a' = lease_of a"
  by (auto simp: alloc_add_channel_def lease_of_def user_key_of_def Let_def split: option.splits if_splits)

lemma lease_bandwidth: "alloc_check_bandwidth now l a = (r, a') \<Longrightarrow> lease_of a' = lease_of a"
  by (auto simp: alloc_check_bandwidth_def lease_of_def user_key_of_def Let_def split: if_splits)

lemma lease_details:
  "lease_of (a\<lparr>al_transport := tr\<rparr>) = lease_of a" "lease_of (add_bytes n a) = lease_of a"
  "lease_of (add_bytes_to_client n a) = lease_of a"
  by (simp_all add: lease_of_def user_key_of_def add_bytes_def add_bytes_to_client_def Let_def)

lemma sim_details:
  "book_of (snd (set_transport c tr s)) = book_of s"
  "book_of (snd (st_add_permission now ms c ip s)) = book_of s"
  "book_of (snd (st_add_channel now ms c ch peer s)) = book_of s"
  "book_of (snd (st_check_bandwidth now c s)) = book_of s"
  "book_of (st_count_packet d n c s) = book_of s"
  by (auto simp: set_transport_def st_add_permission_def st_add_channel_def st_check_bandwidth_def st_count_packet_def Let_def
      lease_details
      split: option.split res.split prod.split intro!: book_of_upd_alloc
      intro: lease_permission lease_channel lease_bandwidth)

lemma store_step_book: "store_step s s' \<Longrightarrow> wf_store s \<Longrightarrow> wf_store s' \<Longrightarrow> book_step (book_of s) (book_of s')"
proof (induction rule: store_step.induct)
  case (ss_allocate s t rel pa now ms ep c u key l realm r s1 tok)
  have "book_step (book_of (upd_pool t (\<lambda>_. pa) s)) (book_of (finish_allocate (sock_port rel) tok r s1))"
    by (rule sim_create [OF ss_allocate(3,5)]) simp
  then show ?case by simp
next
  case (ss_remove s c a now ms)
  show ?case by (intro sim_removed) (rule remove_allocations)
next
  case (ss_resync s order po co now ms)
  show ?case by (intro book_idle book_of_cong) (simp add: resync_all_def)
next
  case (ss_barrier s g)
  show ?case
    by (intro book_idle book_of_cong) (simp add: emit_reconcile_barrier_def Let_def split: option.split prod.split)
next
  case (ss_limits s ul)
  show ?case by (intro book_idle book_of_cong) (simp add: store_publish_user_limits_def split: prod.split)
qed (auto intro: sim_rehydrate sim_refresh sim_re_key sim_sweep sim_removed force_remove_allocations
      bk_idle simp: sim_details)


interpretation store_book: refinement store_init store_step wf_store book_of "\<lambda>m. m = Map.empty" book_step
proof
  fix s
  assume "store_init s"
  then show "book_of s = Map.empty"
    by (auto simp: store_init_def add_tenants_fields AllocationStore_new_def book_of_def)
next
  fix s t
  assume "wf_store s" "wf_store t" "store_step s t"
  then show "book_step (book_of s) (book_of t)" by (blast intro: store_step_book)
qed



end
