(* ===== verification/Ip_Text.thy ===== *)
theory Ip_Text
  imports Net
begin

text \<open>
  Text forms the sources read and write with the standard library: trimming, unsigned numbers in a
  radix, splitting at a separator, and IP addresses (\<^verbatim>\<open>IpAddr::from_str\<close>: dotted IPv4, IPv6 groups with
  one \<^verbatim>\<open>::\<close> and an optional embedded IPv4 tail). Strings are their UTF-8 bytes, so the white space that
  \<^verbatim>\<open>str::trim\<close> removes is given by its encodings.
\<close>

section \<open>Splitting and trimming\<close>

fun split_once :: "char \<Rightarrow> string \<Rightarrow> (string \<times> string) option" where
  "split_once c [] = None"
| "split_once c (x # xs) =
     (if x = c then Some ([], xs) else map_option (\<lambda>(a, b). (x # a, b)) (split_once c xs))"

definition rsplit_once :: "char \<Rightarrow> string \<Rightarrow> (string \<times> string) option" where
  "rsplit_once c s = map_option (\<lambda>(a, b). (rev b, rev a)) (split_once c (rev s))"

definition white_space :: "nat list list" where
  "white_space = map (\<lambda>b. [b]) [9, 10, 11, 12, 13, 32]
     @ [[0xC2, 0x85], [0xC2, 0xA0], [0xE1, 0x9A, 0x80]]
     @ map (\<lambda>b. [0xE2, 0x80, b]) ([0x80..<0x8B] @ [0xA8, 0xA9, 0xAF])
     @ [[0xE2, 0x81, 0x9F], [0xE3, 0x80, 0x80]]"

definition starts_with :: "nat list \<Rightarrow> string \<Rightarrow> bool" where
  "starts_with bs s \<longleftrightarrow> take (length bs) (map of_char s) = bs"

function trim_with :: "nat list list \<Rightarrow> string \<Rightarrow> string" where
  "trim_with ws s =
     (case List.find (\<lambda>bs. bs \<noteq> [] \<and> starts_with bs s) ws of
        None \<Rightarrow> s | Some bs \<Rightarrow> trim_with ws (drop (length bs) s))"
  by pat_completeness auto
termination
proof (relation "measure (length \<circ> snd)")
  fix ws s bs
  assume "List.find (\<lambda>bs. bs \<noteq> [] \<and> starts_with bs s) ws = Some bs"
  then have "bs \<noteq> []" "starts_with bs s" by (auto simp: find_Some_iff)
  then have "s \<noteq> []" "bs \<noteq> []" by (auto simp: starts_with_def)
  then show "((ws, drop (length bs) s), (ws, s)) \<in> measure (length \<circ> snd)" by (cases s; cases bs) auto
qed simp

declare trim_with.simps [simp del]

definition trim :: "string \<Rightarrow> string" where
  "trim s = rev (trim_with (map rev white_space) (rev (trim_with white_space s)))"

section \<open>Numbers\<close>

definition to_digit :: "nat \<Rightarrow> char \<Rightarrow> nat option" where
  "to_digit radix c =
     (let n = of_char c;
          d = (if 48 \<le> n \<and> n \<le> 57 then Some (n - 48)
               else if 97 \<le> n \<and> n \<le> 122 then Some (n - 87)
               else if 65 \<le> n \<and> n \<le> 90 then Some (n - 55) else None)
      in case d of Some k \<Rightarrow> if k < radix then Some k else None | None \<Rightarrow> None)"

fun radix_value :: "nat \<Rightarrow> nat \<Rightarrow> string \<Rightarrow> nat option" where
  "radix_value radix acc [] = Some acc"
| "radix_value radix acc (c # cs) =
     (case to_digit radix c of None \<Rightarrow> None | Some d \<Rightarrow> radix_value radix (acc * radix + d) cs)"

text \<open>
  \<^verbatim>\<open>from_str_radix\<close> and, with radix 10, \<^verbatim>\<open>parse\<close> of an unsigned type with \<open>bound\<close> values: one leading
  plus sign is accepted, an empty rest is not, and a value outside the type is an error.
\<close>

definition parse_radix :: "nat \<Rightarrow> nat \<Rightarrow> string \<Rightarrow> nat option" where
  "parse_radix radix bound s =
     (let ds = (case s of c # cs \<Rightarrow> if c = CHR ''+'' then cs else s | [] \<Rightarrow> [])
      in if ds = [] then None
         else case radix_value radix 0 ds of
                None \<Rightarrow> None | Some n \<Rightarrow> if n < bound then Some n else None)"

section \<open>IP addresses\<close>

fun digits_loop :: "nat \<Rightarrow> nat \<Rightarrow> nat \<Rightarrow> nat \<Rightarrow> string \<Rightarrow> (nat \<times> nat \<times> string) option" where
  "digits_loop radix max_digits k acc [] = Some (k, acc, [])"
| "digits_loop radix max_digits k acc (c # cs) =
     (case to_digit radix c of
        None \<Rightarrow> Some (k, acc, c # cs)
      | Some d \<Rightarrow> if k + 1 > max_digits then None
                  else digits_loop radix max_digits (k + 1) (acc * radix + d) cs)"

definition read_number :: "nat \<Rightarrow> nat \<Rightarrow> nat \<Rightarrow> bool \<Rightarrow> string \<Rightarrow> (nat \<times> string) option" where
  "read_number radix max_digits bound allow_zero_prefix s =
     (case digits_loop radix max_digits 0 0 s of
        None \<Rightarrow> None
      | Some (k, n, rest) \<Rightarrow>
          if k = 0 then None
          else if \<not> allow_zero_prefix \<and> hd s = CHR ''0'' \<and> k > 1 then None
          else if n < bound then Some (n, rest) else None)"

definition read_separator :: "char \<Rightarrow> nat \<Rightarrow> (string \<Rightarrow> ('a \<times> string) option) \<Rightarrow> string \<Rightarrow> ('a \<times> string) option" where
  "read_separator sep i inner s =
     (if i > 0 then (case s of c # cs \<Rightarrow> if c = sep then inner cs else None | [] \<Rightarrow> None) else inner s)"

definition read_octet :: "nat \<Rightarrow> string \<Rightarrow> (nat \<times> string) option" where
  "read_octet i s = read_separator CHR ''.'' i (read_number 10 3 256 False) s"

definition read_ipv4 :: "string \<Rightarrow> (nat list \<times> string) option" where
  "read_ipv4 s =
     Option.bind (read_octet 0 s) (\<lambda>(a, s). Option.bind (read_octet 1 s) (\<lambda>(b, s).
     Option.bind (read_octet 2 s) (\<lambda>(c, s). Option.bind (read_octet 3 s) (\<lambda>(d, s). Some ([a, b, c, d], s)))))"

fun read_groups :: "nat \<Rightarrow> nat \<Rightarrow> string \<Rightarrow> nat list \<times> bool \<times> string" where
  "read_groups limit 0 s = ([], False, s)"
| "read_groups limit (Suc n) s =
     (let i = limit - Suc n in
      case (if i < limit - 1 then read_separator CHR '':'' i read_ipv4 s else None) of
        Some (v4, rest) \<Rightarrow> ([v4 ! 0 * 256 + v4 ! 1, v4 ! 2 * 256 + v4 ! 3], True, rest)
      | None \<Rightarrow>
          (case read_separator CHR '':'' i (read_number 16 4 65536 True) s of
             None \<Rightarrow> ([], False, s)
           | Some (g, rest) \<Rightarrow> let (gs, v4, rest) = read_groups limit n rest in (g # gs, v4, rest)))"

definition read_ipv6 :: "string \<Rightarrow> (nat list \<times> string) option" where
  "read_ipv6 s =
     (let (head, head_ipv4, rest) = read_groups 8 8 s in
      if length head = 8 then Some (head, rest)
      else if head_ipv4 then None
      else case rest of
             c1 # c2 # rest \<Rightarrow>
               if c1 = CHR '':'' \<and> c2 = CHR '':'' then
                 let limit = 8 - (length head + 1);
                     (tail, _, rest) = read_groups limit limit rest
                 in Some (head @ replicate (8 - length head - length tail) 0 @ tail, rest)
               else None
           | _ \<Rightarrow> None)"

definition be_value :: "'a::len word \<Rightarrow> nat list \<Rightarrow> 'a word" where
  "be_value base ds = foldl (\<lambda>acc d. acc * base + of_nat d) 0 ds"

definition IpAddr_parse :: "string \<Rightarrow> ip_addr option" where
  "IpAddr_parse s =
     (case read_ipv4 s of
        Some (ds, rest) \<Rightarrow> if rest = [] then Some (IpV4 (be_value 256 ds)) else None
      | None \<Rightarrow>
          (case read_ipv6 s of
             Some (gs, rest) \<Rightarrow> if rest = [] then Some (IpV6 (be_value 65536 gs)) else None
           | None \<Rightarrow> None))"

section \<open>Printing\<close>

text \<open>
  \<^verbatim>\<open>format!("{:x}")\<close> of an unsigned number and \<^verbatim>\<open>to_string\<close> of addresses: IPv4 in dotted decimal, IPv6 with
  its first longest run of two or more zero segments written as \<^verbatim>\<open>::\<close>, an IPv4-mapped address with
  its dotted tail, a socket address with the port and, when it is set, the scope id.
\<close>

fun fmt_hex :: "nat \<Rightarrow> string" where
  "fmt_hex n = (if n < 16 then [hex_digit n] else fmt_hex (n div 16) @ [hex_digit (n mod 16)])"

declare fmt_hex.simps [simp del]

fun join_with :: "string \<Rightarrow> string list \<Rightarrow> string" where
  "join_with sep [] = []"
| "join_with sep [x] = x"
| "join_with sep (x # y # ys) = x @ sep @ join_with sep (y # ys)"

definition segments :: "u128 \<Rightarrow> u16 list" where
  "segments a = map (\<lambda>i. ucast (drop_bit (112 - 16 * i) a)) [0..<8]"

definition to_ipv4_mapped :: "u128 \<Rightarrow> u32 option" where
  "to_ipv4_mapped a =
     (if take 6 (segments a) = [0, 0, 0, 0, 0, 0xFFFF] then Some (ucast a) else None)"

definition fmt_ipv4 :: "u32 \<Rightarrow> string" where
  "fmt_ipv4 a = join_with ''.'' (map (fmt_nat \<circ> unat) (octets4 a))"

fun longest_zeros :: "nat \<Rightarrow> nat \<times> nat \<Rightarrow> nat \<times> nat \<Rightarrow> u16 list \<Rightarrow> nat \<times> nat" where
  "longest_zeros i current longest [] = longest"
| "longest_zeros i (start, len) longest (s # ss) =
     (if s = 0 then
        let current = (if len = 0 then i else start, len + 1)
        in longest_zeros (i + 1) current (if snd current > snd longest then current else longest) ss
      else longest_zeros (i + 1) (0, 0) longest ss)"

definition fmt_segments :: "u16 list \<Rightarrow> string" where
  "fmt_segments ss = join_with '':'' (map (fmt_hex \<circ> unat) ss)"

definition fmt_ipv6 :: "u128 \<Rightarrow> string" where
  "fmt_ipv6 a =
     (case to_ipv4_mapped a of
        Some v4 \<Rightarrow> ''::ffff:'' @ fmt_ipv4 v4
      | None \<Rightarrow>
          let ss = segments a; (start, len) = longest_zeros 0 (0, 0) (0, 0) ss
          in if len > 1 then fmt_segments (take start ss) @ ''::'' @ fmt_segments (drop (start + len) ss)
             else fmt_segments ss)"

fun addr_to_string :: "socket_addr \<Rightarrow> string" where
  "addr_to_string (SockV4 a p) = fmt_ipv4 a @ '':'' @ fmt_nat (unat p)"
| "addr_to_string (SockV6 a p flow scope) =
     (if scope = 0 then ''['' @ fmt_ipv6 a @ '']:'' @ fmt_nat (unat p)
      else ''['' @ fmt_ipv6 a @ ''%'' @ fmt_nat (unat scope) @ '']:'' @ fmt_nat (unat p))"

section \<open>Lemmas\<close>

lemma to_digit_dec: "d < 10 \<Longrightarrow> to_digit 10 (char_of (48 + d)) = Some d"
  by (simp add: to_digit_def)

lemma to_digit_hex: "d < 16 \<Longrightarrow> to_digit 16 (hex_digit d) = Some d"
  by (simp add: to_digit_def hex_digit_def)

lemma radix_value_snoc:
  "radix_value r acc (xs @ [c]) = Option.bind (radix_value r acc xs) (\<lambda>a. map_option (\<lambda>d. a * r + d) (to_digit r c))"
  by (induction xs arbitrary: acc) (auto split: option.splits)

lemma radix_value_fmt_nat: "radix_value 10 0 (fmt_nat n) = Some n"
proof (induction n rule: fmt_nat.induct)
  case (1 n)
  then show ?case
    by (subst fmt_nat.simps) (simp add: radix_value_snoc to_digit_dec div_mult_mod_eq)
qed

lemma radix_value_fmt_hex: "radix_value 16 0 (fmt_hex n) = Some n"
proof (induction n rule: fmt_hex.induct)
  case (1 n)
  then show ?case
    by (subst fmt_hex.simps) (simp add: radix_value_snoc to_digit_hex div_mult_mod_eq)
qed

lemma fmt_nat_digits: "c \<in> set (fmt_nat n) \<Longrightarrow> \<exists>d :: nat. d < 10 \<and> c = char_of (48 + d)"
proof (induction n rule: fmt_nat.induct)
  case (1 n)
  show ?case
  proof (cases "n < 10")
    case True
    with 1(2) show ?thesis by (auto simp: fmt_nat.simps [of n])
  next
    case False
    then have "c \<in> set (fmt_nat (n div 10)) \<or> c = char_of (48 + n mod 10)" using 1(2) by (auto simp: fmt_nat.simps [of n])
    with 1(1) [OF False] show ?thesis by (metis mod_less_divisor zero_less_numeral)
  qed
qed

lemma fmt_hex_digits: "c \<in> set (fmt_hex n) \<Longrightarrow> \<exists>d. d < 16 \<and> c = hex_digit d"
proof (induction n rule: fmt_hex.induct)
  case (1 n)
  show ?case
  proof (cases "n < 16")
    case True
    with 1(2) show ?thesis by (auto simp: fmt_hex.simps [of n])
  next
    case False
    then have "c \<in> set (fmt_hex (n div 16)) \<or> c = hex_digit (n mod 16)" using 1(2) by (auto simp: fmt_hex.simps [of n])
    with 1(1) [OF False] show ?thesis by (metis mod_less_divisor zero_less_numeral)
  qed
qed

lemma char_of_digit_neq:
  "d < 10 \<Longrightarrow> char_of (48 + d) \<noteq> CHR '':''" "d < 10 \<Longrightarrow> char_of (48 + d) \<noteq> CHR ''+''"
  "d < 16 \<Longrightarrow> hex_digit d \<noteq> CHR '':''" "d < 16 \<Longrightarrow> hex_digit d \<noteq> CHR ''+''"
proof -
  have none: "to_digit 10 CHR '':'' = None" "to_digit 10 CHR ''+'' = None" "to_digit 16 CHR '':'' = None" "to_digit 16 CHR ''+'' = None"
    by code_simp+
  show "d < 10 \<Longrightarrow> char_of (48 + d) \<noteq> CHR '':''" "d < 10 \<Longrightarrow> char_of (48 + d) \<noteq> CHR ''+''"
    using to_digit_dec [of d] none by force+
  show "d < 16 \<Longrightarrow> hex_digit d \<noteq> CHR '':''" "d < 16 \<Longrightarrow> hex_digit d \<noteq> CHR ''+''"
    using to_digit_hex [of d] none by force+
qed

lemma fmt_nonempty [simp]: "fmt_nat n \<noteq> []" "fmt_hex n \<noteq> []"
  by (subst fmt_nat.simps, simp) (subst fmt_hex.simps, simp)

lemma fmt_no_sep [simp]:
  "CHR '':'' \<notin> set (fmt_nat n)" "CHR ''+'' \<notin> set (fmt_nat n)"
  "CHR '':'' \<notin> set (fmt_hex n)" "CHR ''+'' \<notin> set (fmt_hex n)"
  using fmt_nat_digits fmt_hex_digits char_of_digit_neq by metis+

lemma parse_radix_plain:
  assumes "s \<noteq> []" "CHR ''+'' \<notin> set s" "radix_value r 0 s = Some n" "n < bound"
  shows "parse_radix r bound s = Some n"
  using assms by (cases s) (auto simp: parse_radix_def)

lemma parse_fmt_nat: "n < bound \<Longrightarrow> parse_radix 10 bound (fmt_nat n) = Some n"
  by (rule parse_radix_plain) (simp_all add: radix_value_fmt_nat)

lemma parse_fmt_hex: "n < bound \<Longrightarrow> parse_radix 16 bound (fmt_hex n) = Some n"
  by (rule parse_radix_plain) (simp_all add: radix_value_fmt_hex)

lemma parse_radix_less: "parse_radix r bound s = Some n \<Longrightarrow> n < bound"
  by (auto simp: parse_radix_def Let_def split: if_splits option.splits)

lemma split_once_append: "c \<notin> set a \<Longrightarrow> split_once c (a @ c # b) = Some (a, b)"
  by (induction a) auto

lemma split_once_SomeD: "split_once c s = Some (a, b) \<Longrightarrow> s = a @ c # b \<and> c \<notin> set a"
  by (induction s arbitrary: a) (auto split: if_splits)

lemma rsplit_once_append: "c \<notin> set b \<Longrightarrow> rsplit_once c (a @ c # b) = Some (a, b)"
  by (simp add: rsplit_once_def split_once_append)

lemma rsplit_once_SomeD: "rsplit_once c s = Some (a, b) \<Longrightarrow> s = a @ c # b \<and> c \<notin> set b"
proof -
  assume "rsplit_once c s = Some (a, b)"
  then have "split_once c (rev s) = Some (rev b, rev a)" by (auto simp: rsplit_once_def)
  from split_once_SomeD [OF this] show ?thesis by (metis append.assoc append_Cons append_Nil rev_append rev_rev_ident rev.simps(2) set_rev)
qed

end
