(* ===== verification/Utf8.thy ===== *)
theory Utf8
  imports Prelude
begin

text \<open>
  The two standard-library conversions the attribute parser uses on text values:
  \<^verbatim>\<open>std::str::from_utf8\<close> (accept or reject) and \<^verbatim>\<open>String::from_utf8_lossy\<close> (replace every
  maximal ill-formed run by U+FFFD). Both walk the input one encoded character at a time;
  \<open>utf8_step\<close> is that walk's single step.
\<close>

definition safe_get :: "bytes \<Rightarrow> nat \<Rightarrow> u8" where
  "safe_get bs i = (if i < length bs then bs ! i else 0)"

definition is_cont :: "u8 \<Rightarrow> bool" where
  "is_cont b \<longleftrightarrow> b AND 192 = 128"

definition between :: "u8 \<Rightarrow> u8 \<Rightarrow> u8 \<Rightarrow> bool" where
  "between lo b hi \<longleftrightarrow> lo \<le> b \<and> b \<le> hi"

definition is_ascii :: "u8 \<Rightarrow> bool" where
  "is_ascii b \<longleftrightarrow> b < 128"

text \<open>
  \<open>utf8_char b c d e\<close> classifies the four bytes at the front of the input (absent ones read as
  0): whether a well-formed character starts there, and how many bytes it (or the ill-formed
  run) takes.
\<close>

definition utf8_char :: "u8 \<Rightarrow> u8 \<Rightarrow> u8 \<Rightarrow> u8 \<Rightarrow> bool \<times> nat" where
  "utf8_char b c d e =
     (if is_ascii b then (True, 1)
      else if between 0xC2 b 0xDF then
        (if is_cont c then (True, 2) else (False, 1))
      else if between 0xE0 b 0xEF then
        (if (b = 0xE0 \<and> between 0xA0 c 0xBF) \<or> (between 0xE1 b 0xEC \<and> between 0x80 c 0xBF)
            \<or> (b = 0xED \<and> between 0x80 c 0x9F) \<or> (between 0xEE b 0xEF \<and> between 0x80 c 0xBF)
         then (if is_cont d then (True, 3) else (False, 2))
         else (False, 1))
      else if between 0xF0 b 0xF4 then
        (if (b = 0xF0 \<and> between 0x90 c 0xBF) \<or> (between 0xF1 b 0xF3 \<and> between 0x80 c 0xBF)
            \<or> (b = 0xF4 \<and> between 0x80 c 0x8F)
         then (if is_cont d then (if is_cont e then (True, 4) else (False, 3)) else (False, 2))
         else (False, 1))
      else (False, 1))"

definition utf8_step :: "bytes \<Rightarrow> bool \<times> nat" where
  "utf8_step bs = utf8_char (safe_get bs 0) (safe_get bs 1) (safe_get bs 2) (safe_get bs 3)"

lemma utf8_step_pos: "0 < snd (utf8_step bs)"
  by (simp add: utf8_step_def utf8_char_def)

function utf8_valid :: "bytes \<Rightarrow> bool" where
  "utf8_valid bs =
     (if bs = [] then True
      else fst (utf8_step bs) \<and> utf8_valid (drop (snd (utf8_step bs)) bs))"
  by pat_completeness auto
termination
  by (relation "measure length") (simp_all add: utf8_step_pos)

definition replacement :: bytes where
  "replacement = [0xEF, 0xBF, 0xBD]"

function utf8_lossy :: "bytes \<Rightarrow> bytes" where
  "utf8_lossy bs =
     (if bs = [] then []
      else (if fst (utf8_step bs) then take (snd (utf8_step bs)) bs else replacement)
           @ utf8_lossy (drop (snd (utf8_step bs)) bs))"
  by pat_completeness auto
termination
  by (relation "measure length") (simp_all add: utf8_step_pos)

declare utf8_valid.simps [simp del] utf8_lossy.simps [simp del]

definition from_utf8 :: "bytes \<Rightarrow> string option" where
  "from_utf8 bs = (if utf8_valid bs then Some (of_bytes bs) else None)"

definition from_utf8_lossy :: "bytes \<Rightarrow> string" where
  "from_utf8_lossy bs = of_bytes (utf8_lossy bs)"

subsection \<open>Valid text is kept, and lossy output is always valid\<close>

lemma utf8_valid_Nil [simp]: "utf8_valid []"
  by (subst utf8_valid.simps) simp

lemma utf8_lossy_Nil [simp]: "utf8_lossy [] = []"
  by (subst utf8_lossy.simps) simp

lemma utf8_lossy_valid: "utf8_valid bs \<Longrightarrow> utf8_lossy bs = bs"
proof (induction bs rule: utf8_lossy.induct)
  case (1 bs)
  show ?case
  proof (cases "bs = []")
    case False
    with 1 have "utf8_lossy (drop (snd (utf8_step bs)) bs) = drop (snd (utf8_step bs)) bs"
      and "fst (utf8_step bs)"
      by (auto simp: utf8_valid.simps [of bs])
    with False show ?thesis by (simp add: utf8_lossy.simps [of bs])
  qed simp
qed

lemma is_cont_0 [simp]: "\<not> is_cont 0"
  by (simp add: is_cont_def)

text \<open>
  A well-formed character is recognised from its own bytes alone, and its last byte is a
  continuation byte, so it ends inside the input.
\<close>

lemma utf8_char_cases:
  assumes "utf8_char b c d e = (True, n)"
  obtains "n = 1" "\<And>c' d' e'. utf8_char b c' d' e' = (True, 1)"
  | "n = 2" "is_cont c" "\<And>d' e'. utf8_char b c d' e' = (True, 2)"
  | "n = 3" "is_cont d" "\<And>e'. utf8_char b c d e' = (True, 3)"
  | "n = 4" "is_cont e"
  using assms unfolding utf8_char_def by (simp split: if_splits)

lemma safe_get_Some: "safe_get bs i \<noteq> 0 \<Longrightarrow> i < length bs"
  by (auto simp: safe_get_def split: if_splits)

lemma is_cont_safe_get: "is_cont (safe_get bs i) \<Longrightarrow> i < length bs"
  by (rule safe_get_Some) auto

lemma utf8_step_len: "fst (utf8_step bs) \<Longrightarrow> bs \<noteq> [] \<Longrightarrow> snd (utf8_step bs) \<le> length bs"
proof -
  assume ok: "fst (utf8_step bs)" and ne: "bs \<noteq> []"
  then have "utf8_char (safe_get bs 0) (safe_get bs 1) (safe_get bs 2) (safe_get bs 3)
      = (True, snd (utf8_step bs))"
    by (simp add: utf8_step_def prod_eq_iff)
  then show ?thesis
    by (rule utf8_char_cases) (use ne in \<open>auto simp: Suc_le_eq dest!: is_cont_safe_get\<close>)
qed

lemma safe_get_take:
  "n \<le> length bs \<Longrightarrow> i < n \<Longrightarrow> safe_get (take n bs @ rest) i = safe_get bs i"
  by (simp add: safe_get_def nth_append)

lemma utf8_step_prefix:
  assumes "fst (utf8_step bs)" and "bs \<noteq> []"
  shows "utf8_step (take (snd (utf8_step bs)) bs @ rest) = utf8_step bs"
proof -
  let ?n = "snd (utf8_step bs)"
  have n: "?n \<le> length bs" by (rule utf8_step_len [OF assms])
  have eq: "utf8_step bs = (True, ?n)" using assms(1) by (simp add: prod_eq_iff)
  then have "utf8_char (safe_get bs 0) (safe_get bs 1) (safe_get bs 2) (safe_get bs 3) = (True, ?n)"
    by (simp add: utf8_step_def)
  then have "utf8_step (take ?n bs @ rest) = (True, ?n)"
    by (rule utf8_char_cases) (use n eq in \<open>simp_all add: utf8_step_def safe_get_take\<close>)
  with eq show ?thesis by simp
qed

lemma utf8_valid_step:
  assumes "fst (utf8_step bs)" and "bs \<noteq> []" and "utf8_valid rest"
  shows "utf8_valid (take (snd (utf8_step bs)) bs @ rest)"
proof -
  let ?cs = "take (snd (utf8_step bs)) bs @ rest"
  have "utf8_step ?cs = utf8_step bs" by (rule utf8_step_prefix [OF assms(1,2)])
  with utf8_step_len [OF assms(1,2)] assms show ?thesis
    by (simp add: utf8_valid.simps [of ?cs])
qed

lemma utf8_valid_replacement: "utf8_valid rest \<Longrightarrow> utf8_valid (replacement @ rest)"
  by (subst utf8_valid.simps)
     (simp add: replacement_def utf8_step_def utf8_char_def safe_get_def between_def is_ascii_def
                is_cont_def)

theorem utf8_lossy_is_valid: "utf8_valid (utf8_lossy bs)"
proof (induction bs rule: utf8_lossy.induct)
  case (1 bs)
  show ?case
  proof (cases "bs = []")
    case False
    with 1 have "utf8_valid (utf8_lossy (drop (snd (utf8_step bs)) bs))" by simp
    with False show ?thesis
      by (subst utf8_lossy.simps) (simp add: utf8_valid_step utf8_valid_replacement)
  qed simp
qed

lemma unat_lt2p_u8: "unat (b :: u8) < 256"
  using unsigned_less [of b] by simp

lemma of_char_char_of_unat: "of_char (char_of (unat b)) = (b :: u8)"
proof -
  have "of_char (char_of (unat b)) = (of_nat (of_char (char_of (unat b)) :: nat) :: u8)"
    by (simp only: of_nat_of_char)
  also have "\<dots> = of_nat (unat b mod 256)"
    by (simp only: of_char_of)
  also have "\<dots> = b"
    using unat_lt2p_u8 [of b] by simp
  finally show ?thesis .
qed

lemma char_of_unat_of_char: "char_of (unat (of_char c :: u8)) = c"
proof -
  have "unat (of_nat (of_char c :: nat) :: u8) = of_char c"
    by (simp add: unat_of_nat take_bit_eq_mod)
  then show ?thesis
    by (simp only: of_nat_of_char char_of_char)
qed

lemma as_bytes_of_bytes [simp]: "as_bytes (of_bytes bs) = bs"
  by (simp add: as_bytes_def of_bytes_def o_def of_char_char_of_unat)

lemma of_bytes_as_bytes [simp]: "of_bytes (as_bytes s) = s"
  by (simp add: as_bytes_def of_bytes_def o_def char_of_unat_of_char)

lemma length_as_bytes [simp]: "length (as_bytes s) = length s"
  by (simp add: as_bytes_def)

lemma length_of_bytes [simp]: "length (of_bytes bs) = length bs"
  by (simp add: of_bytes_def)

lemma as_bytes_inject [simp]: "as_bytes s = as_bytes t \<longleftrightarrow> s = t"
  by (metis of_bytes_as_bytes)

text \<open>A Rust \<^verbatim>\<open>String\<close> holds valid UTF-8: the type invariant of every text field.\<close>

definition is_string :: "string \<Rightarrow> bool" where
  "is_string s \<longleftrightarrow> utf8_valid (as_bytes s)"

lemma from_utf8_as_bytes: "is_string s \<Longrightarrow> from_utf8 (as_bytes s) = Some s"
  by (simp add: is_string_def from_utf8_def)

lemma from_utf8_lossy_as_bytes: "is_string s \<Longrightarrow> from_utf8_lossy (as_bytes s) = s"
  by (simp add: is_string_def from_utf8_lossy_def utf8_lossy_valid)

lemma from_utf8_is_string: "from_utf8 bs = Some s \<Longrightarrow> is_string s \<and> as_bytes s = bs"
  by (auto simp: from_utf8_def is_string_def split: if_splits)

lemma from_utf8_lossy_is_string: "is_string (from_utf8_lossy bs)"
  by (simp add: is_string_def from_utf8_lossy_def utf8_lossy_is_valid)

lemma is_string_ascii: "\<forall>c \<in> set s. (of_char c :: u8) < 128 \<Longrightarrow> is_string s"
proof (induction s)
  case Nil
  then show ?case by (simp add: is_string_def as_bytes_def)
next
  case (Cons c s)
  then show ?case
    by (auto simp: is_string_def as_bytes_def utf8_valid.simps [of "of_char c # _"]
                   utf8_step_def utf8_char_def is_ascii_def safe_get_def)
qed

end
