(* ===== verification/Stun_Header.thy ===== *)
theory Stun_Header
  imports Utf8
begin

text \<open>
  The STUN message header (\<^verbatim>\<open>proto-stun/src/{method,error,header}.rs\<close>): methods, classes, the
  fourteen-bit message type that interleaves them, and the twenty-byte header with its five
  rejection rules. The lemmas show that the message type is a bijection on the known methods
  and classes, that decoding never panics, and that it inverts encoding.
\<close>

section \<open>Methods, classes, errors\<close>

datatype stun_method =
    M_Binding | M_Allocate | M_Refresh | M_Send | M_Data | M_CreatePermission | M_ChannelBind
  | M_Connect | M_ConnectionBind | M_ConnectionAttempt

definition Method_from_raw :: "u16 \<Rightarrow> stun_method option" where
  "Method_from_raw raw =
     (if raw = 0x0001 then Some M_Binding
      else if raw = 0x0003 then Some M_Allocate
      else if raw = 0x0004 then Some M_Refresh
      else if raw = 0x0006 then Some M_Send
      else if raw = 0x0007 then Some M_Data
      else if raw = 0x0008 then Some M_CreatePermission
      else if raw = 0x0009 then Some M_ChannelBind
      else if raw = 0x000A then Some M_Connect
      else if raw = 0x000B then Some M_ConnectionBind
      else if raw = 0x000C then Some M_ConnectionAttempt
      else None)"

fun Method_as_u16 :: "stun_method \<Rightarrow> u16" where
  "Method_as_u16 M_Binding = 0x0001"
| "Method_as_u16 M_Allocate = 0x0003"
| "Method_as_u16 M_Refresh = 0x0004"
| "Method_as_u16 M_Send = 0x0006"
| "Method_as_u16 M_Data = 0x0007"
| "Method_as_u16 M_CreatePermission = 0x0008"
| "Method_as_u16 M_ChannelBind = 0x0009"
| "Method_as_u16 M_Connect = 0x000A"
| "Method_as_u16 M_ConnectionBind = 0x000B"
| "Method_as_u16 M_ConnectionAttempt = 0x000C"

datatype stun_error =
    BufferTooShort nat nat \<comment> \<open>need, have\<close>
  | InvalidMagicCookie
  | InvalidLength
  | UnknownAttribute u16
  | AttributeParse string
  | IntegrityFailed
  | FingerprintMismatch
  | AttributeValueTooLong u16 nat nat \<comment> \<open>type, length, maximum\<close>
  | TooManyAttributes nat nat \<comment> \<open>count, maximum\<close>
  | MessageTooLong u16 u16 \<comment> \<open>length, maximum\<close>
  | InvalidMessageType u16
  | UnknownMethod u16

type_synonym 'a stun_res = "(stun_error, 'a) res"

definition HEADER_SIZE :: nat where
  [rust_const]: "HEADER_SIZE = 20"

definition MAGIC_COOKIE :: u32 where
  [rust_const]: "MAGIC_COOKIE = 0x2112A442"

definition MAX_MESSAGE_LEN :: u16 where
  [rust_const]: "MAX_MESSAGE_LEN = 4096"

datatype message_class = Request | Indication | SuccessResponse | ErrorResponse

definition MessageClass_from_raw :: "u16 \<Rightarrow> message_class" where
  "MessageClass_from_raw raw =
     (let c0 = drop_bit 4 raw AND 1; c1 = drop_bit 8 raw AND 1 in
      if c1 = 0 \<and> c0 = 0 then Request
      else if c1 = 0 then Indication
      else if c0 = 0 then SuccessResponse
      else ErrorResponse)"

record message_header =
  h_class :: message_class
  h_method :: stun_method
  h_length :: u16
  h_transaction_id :: bytes

fun class_bits :: "message_class \<Rightarrow> u16 \<times> u16" where
  "class_bits Request = (0, 0)"
| "class_bits Indication = (0, 1)"
| "class_bits SuccessResponse = (1, 0)"
| "class_bits ErrorResponse = (1, 1)"

definition encode_message_type :: "stun_method \<Rightarrow> message_class \<Rightarrow> u16" where
  "encode_message_type m c =
     (let mm = Method_as_u16 m; c1 = fst (class_bits c); c0 = snd (class_bits c);
          m_low = mm AND 0x000F;
          m_mid = drop_bit 4 mm AND 0x0007;
          m_high = drop_bit 7 mm AND 0x001F
      in m_low OR push_bit 4 c0 OR push_bit 5 m_mid OR push_bit 8 c1 OR push_bit 9 m_high)"

definition extract_method :: "u16 \<Rightarrow> u16" where
  "extract_method msg_type =
     (let m_low = msg_type AND 0x000F;
          m_mid = drop_bit 5 msg_type AND 0x0007;
          m_high = drop_bit 9 msg_type AND 0x001F
      in m_low OR push_bit 4 m_mid OR push_bit 7 m_high)"

section \<open>Decoding and encoding the header\<close>

definition MessageHeader_decode :: "bytes \<Rightarrow> message_header stun_res" where
  "MessageHeader_decode buf =
     (if length buf < HEADER_SIZE then Err (BufferTooShort HEADER_SIZE (length buf))
      else bind_res (get_u16 buf 0) (\<lambda>msg_type.
           bind_res (get_u16 buf 2) (\<lambda>len.
           bind_res (get_u32 buf 4) (\<lambda>cookie.
             if cookie \<noteq> MAGIC_COOKIE then Err InvalidMagicCookie
             else if msg_type AND 0xC000 \<noteq> 0 then Err (InvalidMessageType msg_type)
             else if unat len mod 4 \<noteq> 0 then Err InvalidLength
             else if len > MAX_MESSAGE_LEN then Err (MessageTooLong len MAX_MESSAGE_LEN)
             else (let raw_method = extract_method msg_type in
                   case Method_from_raw raw_method of
                     None \<Rightarrow> Err (UnknownMethod raw_method)
                   | Some m \<Rightarrow>
                       bind_res (slice_r buf 8 20) (\<lambda>tid.
                         Ok \<lparr> h_class = MessageClass_from_raw msg_type, h_method = m,
                              h_length = len, h_transaction_id = tid \<rparr>))))))"

definition MessageHeader_encode :: "message_header \<Rightarrow> bytes \<Rightarrow> bytes stun_res" where
  "MessageHeader_encode h buf =
     bind_res (copy_into buf 0 2 (be16 (encode_message_type (h_method h) (h_class h)))) (\<lambda>buf.
     bind_res (copy_into buf 2 4 (be16 (h_length h))) (\<lambda>buf.
     bind_res (copy_into buf 4 8 (be32 MAGIC_COOKIE)) (\<lambda>buf.
     copy_into buf 8 20 (h_transaction_id h))))"

text \<open>
  The header a client may put on the wire: twelve transaction bytes and a length field that is a
  multiple of four and within the cap.
\<close>

definition wf_header :: "message_header \<Rightarrow> bool" where
  "wf_header h \<longleftrightarrow> length (h_transaction_id h) = 12 \<and> unat (h_length h) mod 4 = 0
     \<and> h_length h \<le> MAX_MESSAGE_LEN"

definition header_bytes :: "stun_method \<Rightarrow> message_class \<Rightarrow> u16 \<Rightarrow> bytes \<Rightarrow> bytes" where
  "header_bytes m c len tid = be16 (encode_message_type m c) @ be16 len @ be32 MAGIC_COOKIE @ tid"

section \<open>The message type\<close>

lemma Method_roundtrip [simp]: "Method_from_raw (Method_as_u16 m) = Some m"
  by (cases m) (simp_all add: Method_from_raw_def)

lemma Method_from_raw_Some: "Method_from_raw raw = Some m \<Longrightarrow> raw = Method_as_u16 m"
  by (auto simp: Method_from_raw_def split: if_splits)

lemma extract_encode [simp]: "extract_method (encode_message_type m c) = Method_as_u16 m"
  by (cases m; cases c) (simp_all add: encode_message_type_def extract_method_def)

lemma class_encode [simp]: "MessageClass_from_raw (encode_message_type m c) = c"
  by (cases m; cases c) (simp_all add: encode_message_type_def MessageClass_from_raw_def)

lemma top_bits_encode [simp]: "encode_message_type m c AND 0xC000 = 0"
  by (cases m; cases c) (simp_all add: encode_message_type_def)

lemma encode_message_type_inject:
  "encode_message_type m c = encode_message_type m' c' \<longleftrightarrow> m = m' \<and> c = c'"
  by (metis class_encode extract_encode Method_roundtrip option.inject)

section \<open>Header correctness\<close>

lemma length_header_bytes [simp]: "length (header_bytes m c len tid) = 8 + length tid"
  by (simp add: header_bytes_def)

lemma MessageHeader_encode_eq:
  assumes "length buf \<ge> HEADER_SIZE" and "length (h_transaction_id h) = 12"
  shows "MessageHeader_encode h buf =
    Ok (header_bytes (h_method h) (h_class h) (h_length h) (h_transaction_id h) @ drop HEADER_SIZE buf)"
  using assms
  by (simp add: MessageHeader_encode_def wire header_bytes_def write_at_def rust_const drop_drop
                take_drop min_def)

lemma MessageHeader_decode_no_panic: "MessageHeader_decode buf \<noteq> Panic"
  by (auto simp: MessageHeader_decode_def HEADER_SIZE_def wire Let_def split: option.split)

lemma MessageHeader_decode_header_bytes:
  assumes "length tid = 12" and "unat len mod 4 = 0" and "len \<le> MAX_MESSAGE_LEN"
  shows "MessageHeader_decode (header_bytes m c len tid @ rest) =
    Ok \<lparr> h_class = c, h_method = m, h_length = len, h_transaction_id = tid \<rparr>"
proof -
  let ?t = "encode_message_type m c"
  let ?buf = "header_bytes m c len tid @ rest"
  have "(get_u16 ?buf 0 :: u16 stun_res) = Ok ?t"
    by (simp add: header_bytes_def be_simps)
  moreover have "(get_u16 ?buf 2 :: u16 stun_res) = Ok len"
    using get_u16_app [of 2 "be16 ?t" len "be32 MAGIC_COOKIE @ tid @ rest"]
    by (simp add: header_bytes_def)
  moreover have "(get_u32 ?buf 4 :: u32 stun_res) = Ok MAGIC_COOKIE"
    using get_u32_app [of 4 "be16 ?t @ be16 len" MAGIC_COOKIE "tid @ rest"]
    by (simp add: header_bytes_def)
  moreover have "(slice_r ?buf 8 20 :: bytes stun_res) = Ok tid"
    using assms(1) slice_append_mid [of 8 "be16 ?t @ be16 len @ be32 MAGIC_COOKIE" 20 tid rest]
    by (simp add: header_bytes_def wire)
  ultimately show ?thesis
    using assms by (simp add: MessageHeader_decode_def HEADER_SIZE_def Let_def not_less)
qed

lemma MessageHeader_decode_tid:
  assumes "MessageHeader_decode buf = Ok h"
  shows "length (h_transaction_id h) = 12"
proof -
  have "res_all (\<lambda>h. length (h_transaction_id h) = 12) (MessageHeader_decode buf)"
    unfolding MessageHeader_decode_def Let_def
    by (intro res_all_intros; simp add: slice_r_def HEADER_SIZE_def)
       (auto split: if_splits)
  then show ?thesis using assms by (simp add: res_all_def)
qed

end
