(* ===== verification/Stun_Attribute.thy ===== *)
theory Stun_Attribute
  imports Stun_Header Net
begin

text \<open>
  STUN and TURN attributes (\<^verbatim>\<open>proto-stun/src/attribute.rs\<close>): the type codes, the attribute
  values, the plain and XOR-obfuscated address formats, the bytes each encoder branch writes,
  and the decoder's match on the type code. The lemmas show the address codecs and the value
  codec to be inverse to each other, and the decoder to return values of the right Rust type
  without ever panicking.
\<close>

section \<open>Type codes and caps\<close>

definition ATTR_MAPPED_ADDRESS :: u16 where [rust_const]: "ATTR_MAPPED_ADDRESS = 0x0001"
definition ATTR_ALTERNATE_SERVER :: u16 where [rust_const]: "ATTR_ALTERNATE_SERVER = 0x8023"
definition ATTR_CHANGE_REQUEST :: u16 where [rust_const]: "ATTR_CHANGE_REQUEST = 0x0003"
definition ATTR_RESPONSE_ORIGIN :: u16 where [rust_const]: "ATTR_RESPONSE_ORIGIN = 0x802B"
definition ATTR_OTHER_ADDRESS :: u16 where [rust_const]: "ATTR_OTHER_ADDRESS = 0x802C"
definition ATTR_USERNAME :: u16 where [rust_const]: "ATTR_USERNAME = 0x0006"
definition ATTR_USERHASH :: u16 where [rust_const]: "ATTR_USERHASH = 0x001E"
definition ATTR_MESSAGE_INTEGRITY :: u16 where [rust_const]: "ATTR_MESSAGE_INTEGRITY = 0x0008"
definition ATTR_MESSAGE_INTEGRITY_SHA256 :: u16 where
  [rust_const]: "ATTR_MESSAGE_INTEGRITY_SHA256 = 0x001C"
definition ATTR_PASSWORD_ALGORITHM :: u16 where [rust_const]: "ATTR_PASSWORD_ALGORITHM = 0x001D"
definition ATTR_PASSWORD_ALGORITHMS :: u16 where [rust_const]: "ATTR_PASSWORD_ALGORITHMS = 0x8002"
definition PASSWORD_ALGORITHM_MD5 :: u16 where [rust_const]: "PASSWORD_ALGORITHM_MD5 = 0x0001"
definition PASSWORD_ALGORITHM_SHA256 :: u16 where [rust_const]: "PASSWORD_ALGORITHM_SHA256 = 0x0002"
definition ATTR_ERROR_CODE :: u16 where [rust_const]: "ATTR_ERROR_CODE = 0x0009"
definition ATTR_UNKNOWN_ATTRIBUTES :: u16 where [rust_const]: "ATTR_UNKNOWN_ATTRIBUTES = 0x000A"
definition ATTR_REALM :: u16 where [rust_const]: "ATTR_REALM = 0x0014"
definition ATTR_NONCE :: u16 where [rust_const]: "ATTR_NONCE = 0x0015"
definition ATTR_XOR_MAPPED_ADDRESS :: u16 where [rust_const]: "ATTR_XOR_MAPPED_ADDRESS = 0x0020"
definition ATTR_SOFTWARE :: u16 where [rust_const]: "ATTR_SOFTWARE = 0x8022"
definition ATTR_FINGERPRINT :: u16 where [rust_const]: "ATTR_FINGERPRINT = 0x8028"
definition ATTR_CHANNEL_NUMBER :: u16 where [rust_const]: "ATTR_CHANNEL_NUMBER = 0x000C"
definition ATTR_LIFETIME :: u16 where [rust_const]: "ATTR_LIFETIME = 0x000D"
definition ATTR_XOR_PEER_ADDRESS :: u16 where [rust_const]: "ATTR_XOR_PEER_ADDRESS = 0x0012"
definition ATTR_DATA :: u16 where [rust_const]: "ATTR_DATA = 0x0013"
definition ATTR_XOR_RELAYED_ADDRESS :: u16 where [rust_const]: "ATTR_XOR_RELAYED_ADDRESS = 0x0016"
definition ATTR_REQUESTED_TRANSPORT :: u16 where [rust_const]: "ATTR_REQUESTED_TRANSPORT = 0x0019"
definition ATTR_REQUESTED_ADDRESS_FAMILY :: u16 where
  [rust_const]: "ATTR_REQUESTED_ADDRESS_FAMILY = 0x0017"
definition ATTR_EVEN_PORT :: u16 where [rust_const]: "ATTR_EVEN_PORT = 0x0018"
definition ATTR_DONT_FRAGMENT :: u16 where [rust_const]: "ATTR_DONT_FRAGMENT = 0x001A"
definition ATTR_RESERVATION_TOKEN :: u16 where [rust_const]: "ATTR_RESERVATION_TOKEN = 0x0022"
definition ATTR_CONNECTION_ID :: u16 where [rust_const]: "ATTR_CONNECTION_ID = 0x002A"
definition ATTR_ACCESS_TOKEN :: u16 where [rust_const]: "ATTR_ACCESS_TOKEN = 0x001B"
definition ATTR_MOBILITY_TICKET :: u16 where [rust_const]: "ATTR_MOBILITY_TICKET = 0x8030"
definition ATTR_ORIGIN :: u16 where [rust_const]: "ATTR_ORIGIN = 0x802F"
definition ATTR_THIRD_PARTY_AUTHORIZATION :: u16 where
  [rust_const]: "ATTR_THIRD_PARTY_AUTHORIZATION = 0x802E"

definition MAX_ATTRIBUTE_VALUE_LEN :: nat where [rust_const]: "MAX_ATTRIBUTE_VALUE_LEN = 1500"
definition MAX_ATTRIBUTES_PER_MESSAGE :: nat where [rust_const]: "MAX_ATTRIBUTES_PER_MESSAGE = 32"

section \<open>Attributes\<close>

datatype address_family = Ipv4 | Ipv6

fun family_u8 :: "address_family \<Rightarrow> u8" where
  "family_u8 Ipv4 = 0x01"
| "family_u8 Ipv6 = 0x02"

datatype attribute =
    MappedAddress socket_addr
  | AlternateServer socket_addr
  | XorMappedAddress socket_addr
  | Username string
  | UserHash bytes
  | MessageIntegrity bytes
  | Fingerprint u32
  | ErrorCode u16 string
  | Realm string
  | Nonce string
  | Software string
  | Lifetime u32
  | ConnectionId u32
  | RequestedTransport u8
  | XorPeerAddress socket_addr
  | XorRelayedAddress socket_addr
  | ChannelNumber u16
  | Data bytes
  | DontFragment
  | EvenPort bool
  | ReservationToken bytes
  | RequestedAddressFamily address_family
  | ChangeRequest bool bool \<comment> \<open>change\_ip, change\_port\<close>
  | ResponseOrigin socket_addr
  | OtherAddress socket_addr
  | MobilityTicket bytes
  | Origin string
  | AccessToken bytes
  | ThirdPartyAuthorization bytes
  | UnknownAttributes "u16 list"
  | Unknown u16 bytes

fun attr_type :: "attribute \<Rightarrow> u16" where
  "attr_type (MappedAddress _) = ATTR_MAPPED_ADDRESS"
| "attr_type (AlternateServer _) = ATTR_ALTERNATE_SERVER"
| "attr_type (XorMappedAddress _) = ATTR_XOR_MAPPED_ADDRESS"
| "attr_type (Username _) = ATTR_USERNAME"
| "attr_type (UserHash _) = ATTR_USERHASH"
| "attr_type (MessageIntegrity _) = ATTR_MESSAGE_INTEGRITY"
| "attr_type (Fingerprint _) = ATTR_FINGERPRINT"
| "attr_type (ErrorCode _ _) = ATTR_ERROR_CODE"
| "attr_type (Realm _) = ATTR_REALM"
| "attr_type (Nonce _) = ATTR_NONCE"
| "attr_type (Software _) = ATTR_SOFTWARE"
| "attr_type (Lifetime _) = ATTR_LIFETIME"
| "attr_type (ConnectionId _) = ATTR_CONNECTION_ID"
| "attr_type (RequestedTransport _) = ATTR_REQUESTED_TRANSPORT"
| "attr_type (XorPeerAddress _) = ATTR_XOR_PEER_ADDRESS"
| "attr_type (XorRelayedAddress _) = ATTR_XOR_RELAYED_ADDRESS"
| "attr_type (ChannelNumber _) = ATTR_CHANNEL_NUMBER"
| "attr_type (Data _) = ATTR_DATA"
| "attr_type DontFragment = ATTR_DONT_FRAGMENT"
| "attr_type (EvenPort _) = ATTR_EVEN_PORT"
| "attr_type (ReservationToken _) = ATTR_RESERVATION_TOKEN"
| "attr_type (RequestedAddressFamily _) = ATTR_REQUESTED_ADDRESS_FAMILY"
| "attr_type (ChangeRequest _ _) = ATTR_CHANGE_REQUEST"
| "attr_type (ResponseOrigin _) = ATTR_RESPONSE_ORIGIN"
| "attr_type (OtherAddress _) = ATTR_OTHER_ADDRESS"
| "attr_type (MobilityTicket _) = ATTR_MOBILITY_TICKET"
| "attr_type (Origin _) = ATTR_ORIGIN"
| "attr_type (AccessToken _) = ATTR_ACCESS_TOKEN"
| "attr_type (ThirdPartyAuthorization _) = ATTR_THIRD_PARTY_AUTHORIZATION"
| "attr_type (UnknownAttributes _) = ATTR_UNKNOWN_ATTRIBUTES"
| "attr_type (Unknown t _) = t"

section \<open>Encoding values\<close>

definition ensure :: "nat \<Rightarrow> nat \<Rightarrow> unit stun_res" where
  "ensure have need = (if have < need then Err (BufferTooShort need have) else Ok ())"

text \<open>
  Every encoder branch has the same shape: check the room, write a run of bytes at the start of
  the buffer, return the run's length. \<open>emit\<close> is that shape; the branches differ in the run.
\<close>

definition emit :: "bytes \<Rightarrow> bytes \<Rightarrow> (nat \<times> bytes) stun_res" where
  "emit buf run =
     bind_res (ensure (length buf) (length run)) (\<lambda>_.
     bind_res (copy_into buf 0 (length run) run) (\<lambda>buf'. Ok (length run, buf')))"

definition cookie_port :: u16 where
  "cookie_port = ucast (drop_bit 16 MAGIC_COOKIE)"

definition cookie_tid :: "bytes \<Rightarrow> bytes" where
  "cookie_tid tid = be32 MAGIC_COOKIE @ tid"

fun xor_address_bytes :: "socket_addr \<Rightarrow> bytes \<Rightarrow> bytes" where
  "xor_address_bytes (SockV4 ip port) tid =
     [0, 0x01] @ be16 (port XOR cookie_port) @ be32 (from_be_bytes (octets4 ip) XOR MAGIC_COOKIE)"
| "xor_address_bytes (SockV6 ip port fl sc) tid =
     [0, 0x02] @ be16 (port XOR cookie_port) @ map2 (XOR) (octets6 ip) (cookie_tid tid)"

definition encode_xor_address :: "bytes \<Rightarrow> socket_addr \<Rightarrow> bytes \<Rightarrow> (nat \<times> bytes) stun_res" where
  "encode_xor_address buf addr tid = emit buf (xor_address_bytes addr tid)"

fun address_bytes :: "socket_addr \<Rightarrow> bytes" where
  "address_bytes (SockV4 ip port) = [0, 0x01] @ be16 port @ octets4 ip"
| "address_bytes (SockV6 ip port fl sc) = [0, 0x02] @ be16 port @ octets6 ip"

definition encode_address :: "bytes \<Rightarrow> socket_addr \<Rightarrow> (nat \<times> bytes) stun_res" where
  "encode_address buf addr = emit buf (address_bytes addr)"

fun value_bytes :: "attribute \<Rightarrow> bytes \<Rightarrow> bytes" where
  "value_bytes (XorMappedAddress addr) tid = xor_address_bytes addr tid"
| "value_bytes (XorPeerAddress addr) tid = xor_address_bytes addr tid"
| "value_bytes (XorRelayedAddress addr) tid = xor_address_bytes addr tid"
| "value_bytes (MappedAddress addr) tid = address_bytes addr"
| "value_bytes (AlternateServer addr) tid = address_bytes addr"
| "value_bytes (ResponseOrigin addr) tid = address_bytes addr"
| "value_bytes (OtherAddress addr) tid = address_bytes addr"
| "value_bytes (UserHash h) tid = h"
| "value_bytes (ChangeRequest ip port) tid =
     [0, 0, 0, (if ip then 0x04 else 0) OR (if port then 0x02 else 0)]"
| "value_bytes (Username s) tid = as_bytes s"
| "value_bytes (Realm s) tid = as_bytes s"
| "value_bytes (Nonce s) tid = as_bytes s"
| "value_bytes (Software s) tid = as_bytes s"
| "value_bytes (MessageIntegrity hmac) tid = hmac"
| "value_bytes (Fingerprint fp) tid = be32 fp"
| "value_bytes (ErrorCode code reason) tid =
     [0, 0, ucast (code div 100), ucast (code mod 100)] @ as_bytes reason"
| "value_bytes (Lifetime secs) tid = be32 secs"
| "value_bytes (ConnectionId i) tid = be32 i"
| "value_bytes (RequestedTransport proto) tid = [proto, 0, 0, 0]"
| "value_bytes (ChannelNumber ch) tid = be16 ch @ [0, 0]"
| "value_bytes (Data d) tid = d"
| "value_bytes DontFragment tid = []"
| "value_bytes (EvenPort reserve) tid = [if reserve then 0x80 else 0x00]"
| "value_bytes (ReservationToken tok) tid = tok"
| "value_bytes (RequestedAddressFamily fam) tid = [family_u8 fam, 0, 0, 0]"
| "value_bytes (MobilityTicket t) tid = t"
| "value_bytes (Origin s) tid = as_bytes s"
| "value_bytes (AccessToken t) tid = t"
| "value_bytes (ThirdPartyAuthorization t) tid = t"
| "value_bytes (UnknownAttributes types) tid = concat (map be16 types)"
| "value_bytes (Unknown t value) tid = value"

definition encode_value :: "attribute \<Rightarrow> bytes \<Rightarrow> bytes \<Rightarrow> (nat \<times> bytes) stun_res" where
  "encode_value a buf tid = emit buf (value_bytes a tid)"

section \<open>Decoding values\<close>

definition decode_xor_address :: "bytes \<Rightarrow> bytes \<Rightarrow> socket_addr stun_res" where
  "decode_xor_address buf tid =
     (if length buf < 8 then Err (AttributeParse ''xor address too short'')
      else bind_res (idx buf 1) (\<lambda>family.
           bind_res (get_u16 buf 2) (\<lambda>xor_port.
           let port = xor_port XOR cookie_port in
           if family = 0x01 then
             bind_res (get_u32 buf 4) (\<lambda>xor_ip.
               Ok (SocketAddr_new (IpV4 (xor_ip XOR MAGIC_COOKIE)) port))
           else if family = 0x02 then
             (if length buf < 20 then Err (AttributeParse ''ipv6 xor address too short'')
              else bind_res (slice_r buf 4 20) (\<lambda>xor_ip.
                     Ok (SocketAddr_new
                           (IpV6 (from_be_bytes (map2 (XOR) xor_ip (cookie_tid tid)))) port)))
           else Err (AttributeParse (''unknown address family: '' @ fmt_nat (unat family))))))"

definition decode_address :: "bytes \<Rightarrow> socket_addr stun_res" where
  "decode_address buf =
     (if length buf < 8 then Err (AttributeParse ''address too short'')
      else bind_res (idx buf 1) (\<lambda>family.
           bind_res (get_u16 buf 2) (\<lambda>port.
           if family = 0x01 then
             bind_res (get_u32 buf 4) (\<lambda>ip. Ok (SocketAddr_new (IpV4 ip) port))
           else if family = 0x02 then
             (if length buf < 20 then Err (AttributeParse ''ipv6 too short'')
              else bind_res (slice_r buf 4 20) (\<lambda>octets.
                     Ok (SocketAddr_new (IpV6 (from_be_bytes octets)) port)))
           else Err (AttributeParse (''unknown family: '' @ fmt_nat (unat family))))))"

fun chunks16 :: "bytes \<Rightarrow> u16 list" where
  "chunks16 (a # b # rest) = from_be_bytes [a, b] # chunks16 rest"
| "chunks16 [x] = []"
| "chunks16 [] = []"

text \<open>The rejection ``X must be n bytes, got len'' that the fixed-size attributes share.\<close>

definition wrong_len :: "string \<Rightarrow> bytes \<Rightarrow> 'a stun_res" where
  "wrong_len what value = Err (AttributeParse (what @ '', got '' @ fmt_nat (length value)))"

definition decode_attr :: "u16 \<Rightarrow> bytes \<Rightarrow> bytes \<Rightarrow> attribute stun_res" where
  "decode_attr t value tid =
     (if t = ATTR_MAPPED_ADDRESS then
        bind_res (decode_address value) (\<lambda>a. Ok (MappedAddress a))
      else if t = ATTR_ALTERNATE_SERVER then
        bind_res (decode_address value) (\<lambda>a. Ok (AlternateServer a))
      else if t = ATTR_XOR_MAPPED_ADDRESS then
        bind_res (decode_xor_address value tid) (\<lambda>a. Ok (XorMappedAddress a))
      else if t = ATTR_USERNAME then
        (case from_utf8 value of
           None \<Rightarrow> Err (AttributeParse ''USERNAME is not valid UTF-8'')
         | Some s \<Rightarrow> Ok (Username s))
      else if t = ATTR_USERHASH then
        (if length value = 32 then Ok (UserHash value) else Ok (Unknown t value))
      else if t = ATTR_CHANGE_REQUEST \<and> length value = 4 then
        bind_res (idx value 3) (\<lambda>b.
          Ok (ChangeRequest (b AND 0x04 \<noteq> 0) (b AND 0x02 \<noteq> 0)))
      else if t = ATTR_RESPONSE_ORIGIN \<or> t = ATTR_OTHER_ADDRESS then
        (case decode_address value of
           Ok a \<Rightarrow> if t = ATTR_RESPONSE_ORIGIN then Ok (ResponseOrigin a) else Ok (OtherAddress a)
         | Err _ \<Rightarrow> Ok (Unknown t value)
         | Panic \<Rightarrow> Panic)
      else if t = ATTR_MESSAGE_INTEGRITY then
        (if length value \<noteq> 20 then wrong_len ''MESSAGE-INTEGRITY must be 20 bytes'' value
         else Ok (MessageIntegrity value))
      else if t = ATTR_FINGERPRINT then
        (if length value \<noteq> 4 then wrong_len ''FINGERPRINT must be 4 bytes'' value
         else bind_res (get_u32 value 0) (\<lambda>fp. Ok (Fingerprint fp)))
      else if t = ATTR_ERROR_CODE then
        (if length value < 4 then wrong_len ''ERROR-CODE must be at least 4 bytes'' value
         else bind_res (idx value 2) (\<lambda>cls.
              bind_res (idx value 3) (\<lambda>number.
                Ok (ErrorCode (ucast cls * 100 + ucast number) (from_utf8_lossy (drop 4 value))))))
      else if t = ATTR_REALM then
        (case from_utf8 value of
           None \<Rightarrow> Err (AttributeParse ''REALM is not valid UTF-8'')
         | Some s \<Rightarrow> Ok (Realm s))
      else if t = ATTR_NONCE then Ok (Nonce (from_utf8_lossy value))
      else if t = ATTR_SOFTWARE then Ok (Software (from_utf8_lossy value))
      else if t = ATTR_LIFETIME then
        (if length value \<noteq> 4 then wrong_len ''LIFETIME must be 4 bytes'' value
         else bind_res (get_u32 value 0) (\<lambda>l. Ok (Lifetime l)))
      else if t = ATTR_CONNECTION_ID then
        (if length value \<noteq> 4 then wrong_len ''CONNECTION-ID must be 4 bytes'' value
         else bind_res (get_u32 value 0) (\<lambda>i. Ok (ConnectionId i)))
      else if t = ATTR_REQUESTED_TRANSPORT then
        (if length value \<noteq> 4 then wrong_len ''REQUESTED-TRANSPORT must be 4 bytes'' value
         else bind_res (idx value 0) (\<lambda>p. Ok (RequestedTransport p)))
      else if t = ATTR_XOR_PEER_ADDRESS then
        bind_res (decode_xor_address value tid) (\<lambda>a. Ok (XorPeerAddress a))
      else if t = ATTR_XOR_RELAYED_ADDRESS then
        bind_res (decode_xor_address value tid) (\<lambda>a. Ok (XorRelayedAddress a))
      else if t = ATTR_CHANNEL_NUMBER then
        (if length value \<noteq> 4 then wrong_len ''CHANNEL-NUMBER must be 4 bytes'' value
         else bind_res (get_u16 value 0) (\<lambda>c. Ok (ChannelNumber c)))
      else if t = ATTR_DATA then Ok (Data value)
      else if t = ATTR_DONT_FRAGMENT then
        (if value \<noteq> [] then wrong_len ''DONT-FRAGMENT must be empty'' value
         else Ok DontFragment)
      else if t = ATTR_EVEN_PORT then
        (if length value \<noteq> 1 then wrong_len ''EVEN-PORT must be 1 byte'' value
         else bind_res (idx value 0) (\<lambda>b.
                if b AND 0x7F \<noteq> 0 then Err (AttributeParse ''EVEN-PORT reserved bits must be zero'')
                else Ok (EvenPort (b AND 0x80 \<noteq> 0))))
      else if t = ATTR_RESERVATION_TOKEN then
        (if length value \<noteq> 8 then wrong_len ''RESERVATION-TOKEN must be 8 bytes'' value
         else bind_res (slice_r value 0 8) (\<lambda>tok. Ok (ReservationToken tok)))
      else if t = ATTR_REQUESTED_ADDRESS_FAMILY then
        (if length value \<noteq> 4 then wrong_len ''REQUESTED-ADDRESS-FAMILY must be 4 bytes'' value
         else bind_res (idx value 0) (\<lambda>f.
                if f = 0x01 then Ok (RequestedAddressFamily Ipv4)
                else if f = 0x02 then Ok (RequestedAddressFamily Ipv6)
                else Err (AttributeParse
                       (''REQUESTED-ADDRESS-FAMILY unknown family 0x'' @ fmt_hex2 f))))
      else if t = ATTR_MOBILITY_TICKET then Ok (MobilityTicket value)
      else if t = ATTR_ORIGIN then Ok (Origin (from_utf8_lossy value))
      else if t = ATTR_ACCESS_TOKEN then Ok (AccessToken value)
      else if t = ATTR_THIRD_PARTY_AUTHORIZATION then Ok (ThirdPartyAuthorization value)
      else if t = ATTR_UNKNOWN_ATTRIBUTES then Ok (UnknownAttributes (chunks16 value))
      else Ok (Unknown t value))"

section \<open>Type invariant and canonical values\<close>

text \<open>
  \<open>typed_attr\<close> is what the Rust types already promise: array lengths and valid text.
  \<open>canon_attr\<close> names the attributes that survive a trip over the wire: addresses without flow
  label and scope id, an error code whose class fits the class byte, and an \<open>Unknown\<close> value the
  decoder has no typed reading for.
\<close>

fun typed_attr :: "attribute \<Rightarrow> bool" where
  "typed_attr (Username s) = is_string s"
| "typed_attr (Realm s) = is_string s"
| "typed_attr (Nonce s) = is_string s"
| "typed_attr (Software s) = is_string s"
| "typed_attr (Origin s) = is_string s"
| "typed_attr (ErrorCode c s) = is_string s"
| "typed_attr (UserHash h) = (length h = 32)"
| "typed_attr (MessageIntegrity h) = (length h = 20)"
| "typed_attr (ReservationToken tok) = (length tok = 8)"
| "typed_attr a = True"

definition typed_codes :: "u16 list" where
  "typed_codes =
     [ATTR_MAPPED_ADDRESS, ATTR_ALTERNATE_SERVER, ATTR_XOR_MAPPED_ADDRESS, ATTR_USERNAME,
      ATTR_USERHASH, ATTR_CHANGE_REQUEST, ATTR_RESPONSE_ORIGIN, ATTR_OTHER_ADDRESS,
      ATTR_MESSAGE_INTEGRITY, ATTR_FINGERPRINT, ATTR_ERROR_CODE, ATTR_REALM, ATTR_NONCE,
      ATTR_SOFTWARE, ATTR_LIFETIME, ATTR_CONNECTION_ID, ATTR_REQUESTED_TRANSPORT,
      ATTR_XOR_PEER_ADDRESS, ATTR_XOR_RELAYED_ADDRESS, ATTR_CHANNEL_NUMBER, ATTR_DATA,
      ATTR_DONT_FRAGMENT, ATTR_EVEN_PORT, ATTR_RESERVATION_TOKEN, ATTR_REQUESTED_ADDRESS_FAMILY,
      ATTR_MOBILITY_TICKET, ATTR_ORIGIN, ATTR_ACCESS_TOKEN, ATTR_THIRD_PARTY_AUTHORIZATION,
      ATTR_UNKNOWN_ATTRIBUTES]"

definition unread_value :: "u16 \<Rightarrow> bytes \<Rightarrow> bool" where
  "unread_value t v \<longleftrightarrow>
     t \<notin> set typed_codes \<or> (t = ATTR_USERHASH \<and> length v \<noteq> 32)
     \<or> (t = ATTR_CHANGE_REQUEST \<and> length v \<noteq> 4)
     \<or> (t \<in> {ATTR_RESPONSE_ORIGIN, ATTR_OTHER_ADDRESS} \<and> (\<exists>e. decode_address v = Err e))"

fun canon_attr :: "attribute \<Rightarrow> bool" where
  "canon_attr (MappedAddress a) = plain_addr a"
| "canon_attr (AlternateServer a) = plain_addr a"
| "canon_attr (XorMappedAddress a) = plain_addr a"
| "canon_attr (XorPeerAddress a) = plain_addr a"
| "canon_attr (XorRelayedAddress a) = plain_addr a"
| "canon_attr (ResponseOrigin a) = plain_addr a"
| "canon_attr (OtherAddress a) = plain_addr a"
| "canon_attr (ErrorCode c s) = (unat c < 25600)"
| "canon_attr (Unknown t v) = unread_value t v"
| "canon_attr a = True"

section \<open>Encoder\<close>

lemma emit_eq:
  "emit buf run =
     (if length buf < length run then Err (BufferTooShort (length run) (length buf))
      else Ok (length run, run @ drop (length run) buf))"
  by (simp add: emit_def ensure_def wire write_at_0 not_less)

lemma encode_value_eq:
  "encode_value a buf tid =
     (if length buf < length (value_bytes a tid)
      then Err (BufferTooShort (length (value_bytes a tid)) (length buf))
      else Ok (length (value_bytes a tid), value_bytes a tid @ drop (length (value_bytes a tid)) buf))"
  by (simp add: encode_value_def emit_eq)

section \<open>Address codecs\<close>

lemma decode_address_no_panic: "decode_address buf \<noteq> Panic"
  by (auto simp: decode_address_def wire)

lemma decode_xor_address_no_panic: "decode_xor_address buf tid \<noteq> Panic"
  by (auto simp: decode_xor_address_def wire Let_def)

lemma decode_address_plain: "decode_address buf = Ok a \<Longrightarrow> plain_addr a"
  by (auto simp: decode_address_def bind_res_Ok_iff split: if_splits)

lemma decode_xor_address_plain: "decode_xor_address buf tid = Ok a \<Longrightarrow> plain_addr a"
  by (auto simp: decode_xor_address_def bind_res_Ok_iff Let_def split: if_splits)

lemma xor_xor_cancel: "(a XOR b) XOR b = (a :: 'a::len word)"
  by (simp add: xor.assoc)

lemma map2_xor_cancel:
  "length xs \<le> length ys \<Longrightarrow> map2 (XOR) (map2 (XOR) xs ys) ys = (xs :: bytes)"
proof (induction xs arbitrary: ys)
  case Nil
  then show ?case by simp
next
  case (Cons x xs)
  then show ?case by (cases ys) (auto simp: xor_xor_cancel)
qed

lemma decode_address_bytes: "plain_addr a \<Longrightarrow> decode_address (address_bytes a) = Ok a"
proof (cases a)
  case (SockV4 ip port)
  have "(get_u16 (address_bytes a) 2 :: u16 stun_res) = Ok port"
    using get_u16_app [of 2 "[0, 0x01]" port "octets4 ip"] by (simp add: SockV4)
  moreover have "(get_u32 (address_bytes a) 4 :: u32 stun_res) = Ok ip"
    using get_u32_app [of 4 "[0, 0x01] @ be16 port" ip "[]"] by (simp add: SockV4 octets4_def)
  ultimately show ?thesis by (simp add: decode_address_def SockV4 wire)
next
  case (SockV6 ip port fl sc)
  have "(get_u16 (address_bytes a) 2 :: u16 stun_res) = Ok port"
    using get_u16_app [of 2 "[0, 0x02]" port "octets6 ip"] by (simp add: SockV6)
  moreover have "(slice_r (address_bytes a) 4 20 :: bytes stun_res) = Ok (octets6 ip)"
    using slice_append_mid [of 4 "[0, 0x02] @ be16 port" 20 "octets6 ip" "[]"]
    by (simp add: SockV6 wire)
  moreover assume "plain_addr a"
  ultimately show ?thesis by (simp add: decode_address_def SockV6 wire)
qed

lemma decode_xor_address_bytes:
  assumes "plain_addr a" and "length tid = 12"
  shows "decode_xor_address (xor_address_bytes a tid) tid = Ok a"
proof (cases a)
  case (SockV4 ip port)
  have "(get_u16 (xor_address_bytes a tid) 2 :: u16 stun_res) = Ok (port XOR cookie_port)"
    using get_u16_app [of 2 "[0, 0x01]" "port XOR cookie_port" "be32 (ip XOR MAGIC_COOKIE)"]
    by (simp add: SockV4)
  moreover have "(get_u32 (xor_address_bytes a tid) 4 :: u32 stun_res) = Ok (ip XOR MAGIC_COOKIE)"
    using get_u32_app [of 4 "[0, 0x01] @ be16 (port XOR cookie_port)" "ip XOR MAGIC_COOKIE" "[]"]
    by (simp add: SockV4)
  ultimately show ?thesis
    by (simp add: decode_xor_address_def SockV4 wire xor_xor_cancel)
next
  case (SockV6 ip port fl sc)
  let ?x = "map2 (XOR) (octets6 ip) (cookie_tid tid)"
  have l: "length (cookie_tid tid) = 16" using assms(2) by (simp add: cookie_tid_def)
  have "(get_u16 (xor_address_bytes a tid) 2 :: u16 stun_res) = Ok (port XOR cookie_port)"
    using get_u16_app [of 2 "[0, 0x02]" "port XOR cookie_port" ?x] by (simp add: SockV6)
  moreover have "(slice_r (xor_address_bytes a tid) 4 20 :: bytes stun_res) = Ok ?x"
    using l slice_append_mid [of 4 "[0, 0x02] @ be16 (port XOR cookie_port)" 20 ?x "[]"]
    by (simp add: SockV6 wire)
  ultimately show ?thesis
    using assms(1) l
    by (simp add: decode_xor_address_def SockV6 wire xor_xor_cancel map2_xor_cancel)
qed

section \<open>Value codec\<close>

lemma wrong_len_np [no_panic]: "wrong_len what v \<noteq> Panic"
  by (simp add: wrong_len_def)

lemma decode_attr_no_panic: "decode_attr t v tid \<noteq> Panic"
  unfolding decode_attr_def
  by (intro no_panic if_np decode_address_no_panic decode_xor_address_no_panic)
     (simp_all add: idx_def get_u16_def get_u32_def slice_r_def)

lemma res_all_wrong_len [simp]: "res_all P (wrong_len what v)"
  by (simp add: wrong_len_def)

lemma decode_attr_res_all: "res_all (\<lambda>a. typed_attr a \<and> attr_type a = t) (decode_attr t v tid)"
  unfolding decode_attr_def
  by (intro res_all_intros; simp add: from_utf8_lossy_is_string slice_r_def)
     (auto dest: from_utf8_is_string split: if_splits)

lemma decode_attr_typed: "decode_attr t v tid = Ok a \<Longrightarrow> typed_attr a \<and> attr_type a = t"
  using decode_attr_res_all [of t v tid] by (simp add: res_all_def)

lemma chunks16_concat: "chunks16 (concat (map be16 ts)) = ts"
  by (induction ts) (simp_all add: be16_expand be_simps)

lemma error_code_split:
  assumes "unat (c :: u16) < 25600"
  shows "ucast (ucast (c div 100) :: u8) * 100 + ucast (ucast (c mod 100) :: u8) = c"
proof -
  have "unat c div 100 < 256" "unat c mod 100 < 256" using assms by auto
  then have u: "unat (ucast (ucast (c div 100) :: u8) :: u16) = unat c div 100"
    "unat (ucast (ucast (c mod 100) :: u8) :: u16) = unat c mod 100"
    by (simp_all add: unat_div_distrib unat_mod_distrib unsigned_ucast_eq take_bit_eq_mod)
  show ?thesis
    by (rule word_unat_eq_iff [THEN iffD2]) (use assms u in \<open>simp add: unat_word_ariths\<close>)
qed

lemma decode_attr_unread: "unread_value t v \<Longrightarrow> decode_attr t v tid = Ok (Unknown t v)"
  unfolding unread_value_def typed_codes_def
  by (elim disjE) (auto simp: decode_attr_def rust_const)

lemma decode_value_bytes:
  assumes "typed_attr a" and "canon_attr a" and "length tid = 12"
  shows "decode_attr (attr_type a) (value_bytes a tid) tid = Ok a"
proof (cases a)
  case (RequestedAddressFamily fam)
  then show ?thesis
    by (cases fam) (simp_all add: decode_attr_def rust_const wire)
next
  case (Unknown t v)
  with assms(2) show ?thesis by (simp add: decode_attr_unread)
qed (use assms in \<open>simp_all add: decode_attr_def rust_const decode_address_bytes
       decode_xor_address_bytes from_utf8_as_bytes from_utf8_lossy_as_bytes wire sliced_def
       be32_expand be16_expand be_simps chunks16_concat error_code_split\<close>)

end
