(* ===== verification/Stun_Parse.thy ===== *)
theory Stun_Parse
  imports Stun_Attribute
begin

text \<open>
  The attribute walk (\<^verbatim>\<open>parse_attributes\<close> of \<^verbatim>\<open>proto-stun/src/attribute.rs\<close>): a loop over
  type-length-value records padded to four bytes, with its three bounds checks and two caps.
  The lemmas show that the walk ends, never panics, inverts the encoder's layout, and that an
  accepted body is exactly the sequence of records it returned.
\<close>

function parse_loop :: "bytes \<Rightarrow> bytes \<Rightarrow> nat \<Rightarrow> attribute list \<Rightarrow> attribute list stun_res" where
  "parse_loop buf tid pos attrs =
     (if pos + 4 \<le> length buf then
        bind_res (get_u16 buf pos) (\<lambda>attr_type.
        bind_res (get_u16 buf (pos + 2)) (\<lambda>len16.
          let attr_len = unat len16 in
          if attr_len > MAX_ATTRIBUTE_VALUE_LEN
          then Err (AttributeValueTooLong attr_type attr_len MAX_ATTRIBUTE_VALUE_LEN)
          else if pos + 4 + attr_len > length buf
          then Err (BufferTooShort (pos + 4 + attr_len) (length buf))
          else if length attrs \<ge> MAX_ATTRIBUTES_PER_MESSAGE
          then Err (TooManyAttributes (length attrs + 1) MAX_ATTRIBUTES_PER_MESSAGE)
          else bind_res (slice_r buf (pos + 4) (pos + 4 + attr_len)) (\<lambda>value.
               bind_res (decode_attr attr_type value tid) (\<lambda>attr.
                 if pos + 4 + pad4 attr_len > length buf
                 then Err (BufferTooShort (pos + 4 + pad4 attr_len) (length buf))
                 else parse_loop buf tid (pos + 4 + pad4 attr_len) (attrs @ [attr])))))
      else Ok attrs)"
  by pat_completeness auto
termination
  by (relation "measure (\<lambda>(buf, tid, pos, attrs). length buf - pos)") auto

declare parse_loop.simps [simp del]

definition parse_attributes :: "bytes \<Rightarrow> bytes \<Rightarrow> attribute list stun_res" where
  "parse_attributes buf tid =
     (if length buf mod 4 \<noteq> 0 then Err InvalidLength else parse_loop buf tid 0 [])"

section \<open>The record layout\<close>

definition attr_wire :: "bytes \<Rightarrow> attribute \<Rightarrow> bytes" where
  "attr_wire tid a =
     be16 (attr_type a) @ be16 (of_nat (length (value_bytes a tid))) @ value_bytes a tid
     @ replicate (pad4 (length (value_bytes a tid)) - length (value_bytes a tid)) 0"

definition rec_type :: "bytes \<Rightarrow> nat \<Rightarrow> u16" where
  "rec_type buf pos = from_be_bytes (sliced buf pos (pos + 2))"

definition rec_len :: "bytes \<Rightarrow> nat \<Rightarrow> nat" where
  "rec_len buf pos = unat (from_be_bytes (sliced buf (pos + 2) (pos + 4)) :: u16)"

text \<open>
  \<open>laid_out buf tid pos as e\<close>: from \<open>pos\<close> on, \<open>buf\<close> holds one record per attribute of \<open>as\<close>, each
  decoding to its attribute, up to \<open>e\<close>.
\<close>

fun laid_out :: "bytes \<Rightarrow> bytes \<Rightarrow> nat \<Rightarrow> attribute list \<Rightarrow> nat \<Rightarrow> bool" where
  "laid_out buf tid pos [] e = (pos = e)"
| "laid_out buf tid pos (a # as) e =
     (let n = rec_len buf pos in
      pos + 4 + pad4 n \<le> length buf
      \<and> rec_type buf pos = attr_type a
      \<and> decode_attr (attr_type a) (sliced buf (pos + 4) (pos + 4 + n)) tid = Ok a
      \<and> laid_out buf tid (pos + 4 + pad4 n) as e)"

definition fits_attr :: "bytes \<Rightarrow> attribute \<Rightarrow> bool" where
  "fits_attr tid a \<longleftrightarrow>
     typed_attr a \<and> canon_attr a \<and> length (value_bytes a tid) \<le> MAX_ATTRIBUTE_VALUE_LEN"

section \<open>One iteration\<close>

lemma get_u16_rec_type: "pos + 4 \<le> length buf \<Longrightarrow> get_u16 buf pos = Ok (rec_type buf pos)"
  by (simp add: get_u16_slice rec_type_def)

lemma get_u16_rec_len:
  "pos + 4 \<le> length buf \<Longrightarrow>
   get_u16 buf (pos + 2) = Ok (from_be_bytes (sliced buf (pos + 2) (pos + 4)))"
  using get_u16_slice [of "pos + 2" buf] by (simp add: numeral_eq_Suc)

text \<open>The loop body with its reads resolved: what one iteration does on an in-range record.\<close>

lemma parse_loop_unfold:
  assumes "pos + 4 \<le> length buf"
  shows "parse_loop buf tid pos attrs =
    (let t = rec_type buf pos; n = rec_len buf pos in
     if n > MAX_ATTRIBUTE_VALUE_LEN then Err (AttributeValueTooLong t n MAX_ATTRIBUTE_VALUE_LEN)
     else if pos + 4 + n > length buf then Err (BufferTooShort (pos + 4 + n) (length buf))
     else if length attrs \<ge> MAX_ATTRIBUTES_PER_MESSAGE
     then Err (TooManyAttributes (length attrs + 1) MAX_ATTRIBUTES_PER_MESSAGE)
     else bind_res (decode_attr t (sliced buf (pos + 4) (pos + 4 + n)) tid) (\<lambda>attr.
            if pos + 4 + pad4 n > length buf then Err (BufferTooShort (pos + 4 + pad4 n) (length buf))
            else parse_loop buf tid (pos + 4 + pad4 n) (attrs @ [attr])))"
  using assms
  by (subst parse_loop.simps)
     (simp add: get_u16_rec_type get_u16_rec_len rec_len_def Let_def slice_r_def)

lemma parse_loop_end: "\<not> pos + 4 \<le> length buf \<Longrightarrow> parse_loop buf tid pos attrs = Ok attrs"
  by (subst parse_loop.simps) simp

lemma parse_loop_no_panic: "parse_loop buf tid pos attrs \<noteq> Panic"
proof (induction "length buf - pos" arbitrary: pos attrs rule: less_induct)
  case less
  show ?case
  proof (cases "pos + 4 \<le> length buf")
    case True
    then have "parse_loop buf tid (pos + 4 + k) as \<noteq> Panic" for k as
      by (intro less) simp
    then show ?thesis
      unfolding parse_loop_unfold [OF True] Let_def
      by (intro if_np bind_np decode_attr_no_panic) simp_all
  qed (simp add: parse_loop_end)
qed

section \<open>An accepted body is the records it returned\<close>

lemma parse_loop_laid_out:
  assumes "parse_loop buf tid pos attrs = Ok res" and "length buf mod 4 = 0" and "pos mod 4 = 0"
    and "pos \<le> length buf"
  shows "\<exists>as. res = attrs @ as \<and> laid_out buf tid pos as (length buf)"
  using assms
proof (induction "length buf - pos" arbitrary: pos attrs rule: less_induct)
  case less
  show ?case
  proof (cases "pos + 4 \<le> length buf")
    case True
    let ?t = "rec_type buf pos" and ?n = "rec_len buf pos"
    let ?pos' = "pos + 4 + pad4 ?n"
    from less.prems(1) obtain a where n: "?n \<le> MAX_ATTRIBUTE_VALUE_LEN" "?pos' \<le> length buf"
      and a: "decode_attr ?t (sliced buf (pos + 4) (pos + 4 + ?n)) tid = Ok a"
      and rest: "parse_loop buf tid ?pos' (attrs @ [a]) = Ok res"
      unfolding parse_loop_unfold [OF True] Let_def
      by (auto simp: bind_res_Ok_iff not_less split: if_splits)
    have m: "?pos' mod 4 = 0" using less.prems(3) by (simp add: pad4_def mod_simps)
    have d: "length buf - ?pos' < length buf - pos" using True by linarith
    obtain as where as: "res = (attrs @ [a]) @ as" "laid_out buf tid ?pos' as (length buf)"
      using less.hyps [OF d rest less.prems(2) m n(2)] by (elim exE conjE)
    have t: "attr_type a = ?t" using decode_attr_typed [OF a] by simp
    with as a n have "laid_out buf tid pos (a # as) (length buf)" by (simp add: Let_def)
    with as(1) show ?thesis by auto
  next
    case False
    with less.prems have "pos = length buf" by presburger
    moreover from False less.prems(1) have "res = attrs" by (simp add: parse_loop_end)
    ultimately show ?thesis by auto
  qed
qed

lemma laid_out_typed: "laid_out buf tid pos as e \<Longrightarrow> a \<in> set as \<Longrightarrow> typed_attr a"
  by (induction as arbitrary: pos) (auto simp: Let_def dest: decode_attr_typed)

lemma parse_loop_count:
  "parse_loop buf tid pos attrs = Ok res \<Longrightarrow> length attrs \<le> MAX_ATTRIBUTES_PER_MESSAGE \<Longrightarrow>
   length res \<le> MAX_ATTRIBUTES_PER_MESSAGE"
proof (induction "length buf - pos" arbitrary: pos attrs rule: less_induct)
  case less
  show ?case
  proof (cases "pos + 4 \<le> length buf")
    case True
    let ?pos' = "pos + 4 + pad4 (rec_len buf pos)"
    from less.prems(1) obtain a where "parse_loop buf tid ?pos' (attrs @ [a]) = Ok res"
      and "length attrs < MAX_ATTRIBUTES_PER_MESSAGE"
      unfolding parse_loop_unfold [OF True] Let_def
      by (auto simp: bind_res_Ok_iff not_less not_le split: if_splits)
    with less.hyps [of ?pos' "attrs @ [a]"] True show ?thesis by simp
  qed (use less.prems in \<open>simp add: parse_loop_end\<close>)
qed

section \<open>Parsing inverts the encoder's layout\<close>

lemma length_attr_wire: "length (attr_wire tid a) = 4 + pad4 (length (value_bytes a tid))"
  using pad4_bounds(1) [of "length (value_bytes a tid)"] by (simp add: attr_wire_def)

lemma rec_type_wire:
  "pos = length pre \<Longrightarrow> rec_type (pre @ attr_wire tid a @ post) pos = attr_type a"
  using slice_append_mid [of pos pre "pos + 2" "be16 (attr_type a)"]
  by (simp add: rec_type_def attr_wire_def from_be_be_bytes_full)

lemma rec_len_wire:
  assumes "pos = length pre" and "length (value_bytes a tid) \<le> MAX_ATTRIBUTE_VALUE_LEN"
  shows "rec_len (pre @ attr_wire tid a @ post) pos = length (value_bytes a tid)"
proof -
  let ?v = "value_bytes a tid"
  have "unat (of_nat (length ?v) :: u16) = length ?v"
    using assms(2) by (simp add: unat_of_nat take_bit_eq_mod rust_const)
  then show ?thesis
    using assms(1) slice_append_mid [of "pos + 2" "pre @ be16 (attr_type a)" "pos + 4"
        "be16 (of_nat (length ?v))" "?v @ replicate (pad4 (length ?v) - length ?v) 0 @ post"]
    by (simp add: rec_len_def attr_wire_def from_be_be_bytes_full)
qed

lemma parse_loop_attr_wire:
  assumes fit: "fits_attr tid a" and tid: "length tid = 12"
    and room: "length attrs < MAX_ATTRIBUTES_PER_MESSAGE" and pos: "pos = length pre"
  shows "parse_loop (pre @ attr_wire tid a @ post) tid pos attrs =
         parse_loop (pre @ attr_wire tid a @ post) tid (pos + length (attr_wire tid a)) (attrs @ [a])"
proof -
  let ?v = "value_bytes a tid" and ?buf = "pre @ attr_wire tid a @ post"
  let ?n = "length ?v" and ?pad = "replicate (pad4 (length ?v) - length ?v) (0 :: u8)"
  have le: "pos + 4 + pad4 ?n \<le> length ?buf" using pos by (simp add: length_attr_wire)
  then have le4: "pos + 4 \<le> length ?buf" by simp
  have n: "?n \<le> 1500" using fit by (simp add: fits_attr_def rust_const)
  have t: "rec_type ?buf pos = attr_type a" by (rule rec_type_wire [OF pos])
  have l: "rec_len ?buf pos = ?n"
    using fit by (intro rec_len_wire [OF pos]) (simp add: fits_attr_def)
  have v: "sliced ?buf (pos + 4) (pos + 4 + ?n) = ?v"
    using pos slice_append_mid [of "pos + 4" "pre @ be16 (attr_type a) @ be16 (of_nat ?n)"
        "pos + 4 + ?n" ?v "?pad @ post"]
    by (simp add: attr_wire_def)
  have "decode_attr (attr_type a) ?v tid = Ok a"
    using fit tid by (simp add: fits_attr_def decode_value_bytes)
  moreover have "pos + 4 + ?n \<le> length ?buf" using le pad4_bounds(1) [of ?n] by linarith
  ultimately show ?thesis
    using le room n
    by (simp add: parse_loop_unfold [OF le4] t l v rust_const length_attr_wire not_less not_le
                  Let_def add.assoc [symmetric])
qed

lemma parse_loop_wires:
  assumes "\<forall>a \<in> set as. fits_attr tid a" and "length tid = 12"
    and "length attrs + length as \<le> MAX_ATTRIBUTES_PER_MESSAGE"
  shows "parse_loop (pre @ concat (map (attr_wire tid) as)) tid (length pre) attrs = Ok (attrs @ as)"
  using assms
proof (induction as arbitrary: pre attrs)
  case Nil
  then show ?case by (simp add: parse_loop_end)
next
  case (Cons a as)
  have "parse_loop (pre @ attr_wire tid a @ concat (map (attr_wire tid) as)) tid (length pre) attrs
      = parse_loop ((pre @ attr_wire tid a) @ concat (map (attr_wire tid) as)) tid
          (length (pre @ attr_wire tid a)) (attrs @ [a])"
    using Cons.prems parse_loop_attr_wire [of tid a attrs "length pre" pre] by simp
  also have "\<dots> = Ok ((attrs @ [a]) @ as)"
    using Cons.prems by (intro Cons.IH) auto
  finally show ?case by simp
qed

lemma wires_dvd4: "4 dvd length (concat (map (attr_wire tid) as))"
  by (induction as) (auto simp: length_attr_wire intro!: dvd_add)

lemma parse_attributes_wires:
  assumes "\<forall>a \<in> set as. fits_attr tid a" and "length tid = 12"
    and "length as \<le> MAX_ATTRIBUTES_PER_MESSAGE"
  shows "parse_attributes (concat (map (attr_wire tid) as)) tid = Ok as"
  using parse_loop_wires [OF assms(1,2), of "[]" "[]"] assms(3) wires_dvd4 [of tid as]
  by (simp add: parse_attributes_def)

lemma parse_attributes_no_panic: "parse_attributes buf tid \<noteq> Panic"
  by (simp add: parse_attributes_def parse_loop_no_panic)

lemma parse_attributes_laid_out:
  "parse_attributes buf tid = Ok as \<Longrightarrow> laid_out buf tid 0 as (length buf)"
  using parse_loop_laid_out [of buf tid 0 "[]" as] by (auto simp: parse_attributes_def split: if_splits)

lemma parse_attributes_count:
  "parse_attributes buf tid = Ok as \<Longrightarrow> length as \<le> MAX_ATTRIBUTES_PER_MESSAGE"
  using parse_loop_count [of buf tid 0 "[]" as] by (auto simp: parse_attributes_def split: if_splits)

end
