(* ===== verification/Stun_Message.thy ===== *)
theory Stun_Message
  imports Stun_Parse
begin

text \<open>
  Whole STUN messages (\<^verbatim>\<open>proto-stun/src/message.rs\<close>): the accessors, decoding, encoding
  through the 4096-byte scratch buffer, and the ChannelData framing that shares the port.
  The lemmas give the exact bytes the encoder writes, when it fails, that decoding them returns the
  message, that no datagram makes a decoder panic, and that the two framings never overlap.
\<close>

section \<open>Messages and accessors\<close>

record stun_message =
  sm_class :: message_class
  sm_method :: stun_method
  sm_transaction_id :: bytes
  sm_attributes :: "attribute list"

definition with_transaction_id :: "stun_method \<Rightarrow> message_class \<Rightarrow> bytes \<Rightarrow> stun_message" where
  "with_transaction_id m c tid =
     \<lparr> sm_class = c, sm_method = m, sm_transaction_id = tid, sm_attributes = [] \<rparr>"

text \<open>\<^verbatim>\<open>StunMessage::new\<close> draws the transaction id at random: the id drawn is an argument.\<close>

definition StunMessage_new :: "stun_method \<Rightarrow> message_class \<Rightarrow> bytes \<Rightarrow> stun_message" where
  "StunMessage_new m c rand_tid =
     \<lparr> sm_class = c, sm_method = m, sm_transaction_id = rand_tid, sm_attributes = [] \<rparr>"

definition sm_add :: "stun_message \<Rightarrow> attribute \<Rightarrow> stun_message" where
  "sm_add msg a = msg\<lparr>sm_attributes := sm_attributes msg @ [a]\<rparr>"

definition sm_get :: "(attribute \<Rightarrow> 'a option) \<Rightarrow> stun_message \<Rightarrow> 'a option" where
  "sm_get f msg = find_map f (sm_attributes msg)"

definition get_username :: "stun_message \<Rightarrow> string option" where
  "get_username msg = sm_get (\<lambda>a. case a of Username u \<Rightarrow> Some u | _ \<Rightarrow> None) msg"

definition get_userhash :: "stun_message \<Rightarrow> bytes option" where
  "get_userhash msg = sm_get (\<lambda>a. case a of UserHash h \<Rightarrow> Some h | _ \<Rightarrow> None) msg"

definition has_user_identity :: "stun_message \<Rightarrow> bool" where
  "has_user_identity msg \<longleftrightarrow>
     list_ex (\<lambda>a. case a of Username _ \<Rightarrow> True | UserHash _ \<Rightarrow> True | _ \<Rightarrow> False) (sm_attributes msg)"

definition get_change_request :: "stun_message \<Rightarrow> (bool \<times> bool) option" where
  "get_change_request msg =
     sm_get (\<lambda>a. case a of ChangeRequest i p \<Rightarrow> Some (i, p) | _ \<Rightarrow> None) msg"

definition get_response_origin :: "stun_message \<Rightarrow> socket_addr option" where
  "get_response_origin msg = sm_get (\<lambda>a. case a of ResponseOrigin s \<Rightarrow> Some s | _ \<Rightarrow> None) msg"

definition get_other_address :: "stun_message \<Rightarrow> socket_addr option" where
  "get_other_address msg = sm_get (\<lambda>a. case a of OtherAddress s \<Rightarrow> Some s | _ \<Rightarrow> None) msg"

definition get_realm :: "stun_message \<Rightarrow> string option" where
  "get_realm msg = sm_get (\<lambda>a. case a of Realm r \<Rightarrow> Some r | _ \<Rightarrow> None) msg"

definition get_nonce :: "stun_message \<Rightarrow> string option" where
  "get_nonce msg = sm_get (\<lambda>a. case a of Nonce n \<Rightarrow> Some n | _ \<Rightarrow> None) msg"

definition get_lifetime :: "stun_message \<Rightarrow> u32 option" where
  "get_lifetime msg = sm_get (\<lambda>a. case a of Lifetime l \<Rightarrow> Some l | _ \<Rightarrow> None) msg"

definition get_requested_transport :: "stun_message \<Rightarrow> u8 option" where
  "get_requested_transport msg =
     sm_get (\<lambda>a. case a of RequestedTransport t \<Rightarrow> Some t | _ \<Rightarrow> None) msg"

definition get_xor_peer_address :: "stun_message \<Rightarrow> socket_addr option" where
  "get_xor_peer_address msg = sm_get (\<lambda>a. case a of XorPeerAddress s \<Rightarrow> Some s | _ \<Rightarrow> None) msg"

definition get_channel_number :: "stun_message \<Rightarrow> u16 option" where
  "get_channel_number msg = sm_get (\<lambda>a. case a of ChannelNumber c \<Rightarrow> Some c | _ \<Rightarrow> None) msg"

definition get_data :: "stun_message \<Rightarrow> bytes option" where
  "get_data msg = sm_get (\<lambda>a. case a of Data d \<Rightarrow> Some d | _ \<Rightarrow> None) msg"

definition get_mobility_ticket :: "stun_message \<Rightarrow> bytes option" where
  "get_mobility_ticket msg = sm_get (\<lambda>a. case a of MobilityTicket t \<Rightarrow> Some t | _ \<Rightarrow> None) msg"

definition get_origin :: "stun_message \<Rightarrow> string option" where
  "get_origin msg = sm_get (\<lambda>a. case a of Origin s \<Rightarrow> Some s | _ \<Rightarrow> None) msg"

definition origins :: "stun_message \<Rightarrow> string list" where
  "origins msg =
     List.map_filter (\<lambda>a. case a of Origin s \<Rightarrow> Some s | _ \<Rightarrow> None) (sm_attributes msg)"

definition get_connection_id :: "stun_message \<Rightarrow> u32 option" where
  "get_connection_id msg = sm_get (\<lambda>a. case a of ConnectionId i \<Rightarrow> Some i | _ \<Rightarrow> None) msg"

definition get_access_token :: "stun_message \<Rightarrow> bytes option" where
  "get_access_token msg = sm_get (\<lambda>a. case a of AccessToken t \<Rightarrow> Some t | _ \<Rightarrow> None) msg"

definition get_third_party_authorization :: "stun_message \<Rightarrow> bytes option" where
  "get_third_party_authorization msg =
     sm_get (\<lambda>a. case a of ThirdPartyAuthorization t \<Rightarrow> Some t | _ \<Rightarrow> None) msg"

definition has_mobility_ticket :: "stun_message \<Rightarrow> bool" where
  "has_mobility_ticket msg \<longleftrightarrow>
     list_ex (\<lambda>a. case a of MobilityTicket _ \<Rightarrow> True | _ \<Rightarrow> False) (sm_attributes msg)"

definition get_even_port :: "stun_message \<Rightarrow> bool option" where
  "get_even_port msg = sm_get (\<lambda>a. case a of EvenPort r \<Rightarrow> Some r | _ \<Rightarrow> None) msg"

definition get_reservation_token :: "stun_message \<Rightarrow> bytes option" where
  "get_reservation_token msg =
     sm_get (\<lambda>a. case a of ReservationToken t \<Rightarrow> Some t | _ \<Rightarrow> None) msg"

definition get_requested_address_family :: "stun_message \<Rightarrow> address_family option" where
  "get_requested_address_family msg =
     sm_get (\<lambda>a. case a of RequestedAddressFamily f \<Rightarrow> Some f | _ \<Rightarrow> None) msg"

definition get_message_integrity :: "stun_message \<Rightarrow> bytes option" where
  "get_message_integrity msg =
     sm_get (\<lambda>a. case a of MessageIntegrity h \<Rightarrow> Some h | _ \<Rightarrow> None) msg"

definition get_message_integrity_sha256 :: "stun_message \<Rightarrow> bytes option" where
  "get_message_integrity_sha256 msg =
     sm_get (\<lambda>a. case a of
               Unknown t v \<Rightarrow> if t = ATTR_MESSAGE_INTEGRITY_SHA256 then Some v else None
             | _ \<Rightarrow> None) msg"

definition get_password_algorithm :: "stun_message \<Rightarrow> u16 option" where
  "get_password_algorithm msg =
     sm_get (\<lambda>a. case a of
               Unknown t v \<Rightarrow>
                 if t = ATTR_PASSWORD_ALGORITHM \<and> length v \<ge> 2
                 then Some (from_be_bytes [v ! 0, v ! 1]) else None
             | _ \<Rightarrow> None) msg"

section \<open>Decoding and encoding\<close>

definition StunMessage_decode :: "bytes \<Rightarrow> stun_message stun_res" where
  "StunMessage_decode buf =
     bind_res (MessageHeader_decode buf) (\<lambda>h.
       let total = HEADER_SIZE + unat (h_length h) in
       if length buf < total then Err (BufferTooShort total (length buf))
       else bind_res (slice_r buf HEADER_SIZE total) (\<lambda>body.
            bind_res (parse_attributes body (h_transaction_id h)) (\<lambda>as.
              Ok \<lparr> sm_class = h_class h, sm_method = h_method h,
                   sm_transaction_id = h_transaction_id h, sm_attributes = as \<rparr>)))"

definition ATTR_BUF_SIZE :: nat where
  [rust_const]: "ATTR_BUF_SIZE = 4096"

text \<open>Integrity and fingerprint are skipped by the plain encoder: they are added separately.\<close>

definition plain_attr :: "attribute \<Rightarrow> bool" where
  "plain_attr a \<longleftrightarrow> attr_type a \<noteq> ATTR_MESSAGE_INTEGRITY \<and> attr_type a \<noteq> ATTR_FINGERPRINT"

fun encode_attrs :: "attribute list \<Rightarrow> bytes \<Rightarrow> bytes \<Rightarrow> nat \<Rightarrow> (nat \<times> bytes) stun_res" where
  "encode_attrs [] tid attr_buf attr_len = Ok (attr_len, attr_buf)"
| "encode_attrs (a # as) tid attr_buf attr_len =
     (if \<not> plain_attr a then encode_attrs as tid attr_buf attr_len
      else bind_res (ensure (length attr_buf) (attr_len + 4)) (\<lambda>_.
           bind_res (slice_r attr_buf (attr_len + 4) (length attr_buf)) (\<lambda>room.
           bind_res (encode_value a room tid) (\<lambda>(value_len, room').
           bind_res (copy_into attr_buf (attr_len + 4) (length attr_buf) room') (\<lambda>attr_buf.
           bind_res (copy_into attr_buf attr_len (attr_len + 2) (be16 (attr_type a))) (\<lambda>attr_buf.
           bind_res (copy_into attr_buf (attr_len + 2) (attr_len + 4) (be16 (of_nat value_len))) (\<lambda>attr_buf.
             let used = attr_len + 4 + value_len; padded = pad4 used in
             bind_res (ensure (length attr_buf) padded) (\<lambda>_.
             bind_res (copy_into attr_buf used padded (replicate (padded - used) 0)) (\<lambda>attr_buf.
               encode_attrs as tid attr_buf padded)))))))))"

definition StunMessage_encode :: "stun_message \<Rightarrow> bytes \<Rightarrow> (nat \<times> bytes) stun_res" where
  "StunMessage_encode msg buf =
     bind_res (encode_attrs (sm_attributes msg) (sm_transaction_id msg) (replicate ATTR_BUF_SIZE 0) 0)
       (\<lambda>(attr_len, attr_buf).
     bind_res (ensure (length buf) (HEADER_SIZE + attr_len)) (\<lambda>_.
     bind_res (copy_into buf 0 2 (be16 (encode_message_type (sm_method msg) (sm_class msg)))) (\<lambda>buf.
     bind_res (copy_into buf 2 4 (be16 (of_nat attr_len))) (\<lambda>buf.
     bind_res (copy_into buf 4 8 (be32 MAGIC_COOKIE)) (\<lambda>buf.
     bind_res (copy_into buf 8 20 (sm_transaction_id msg)) (\<lambda>buf.
     bind_res (slice_r attr_buf 0 attr_len) (\<lambda>attrs.
     bind_res (copy_into buf 20 (20 + attr_len) attrs) (\<lambda>buf.
       Ok (HEADER_SIZE + attr_len, buf)))))))))"

section \<open>Telling STUN from ChannelData\<close>

definition is_stun_message :: "bytes \<Rightarrow> bool" where
  "is_stun_message buf =
     (if length buf < HEADER_SIZE then False
      else if buf ! 0 AND 0xC0 \<noteq> 0 then False
      else (from_be_bytes [buf ! 4, buf ! 5, buf ! 6, buf ! 7] :: u32) = MAGIC_COOKIE)"

definition is_channel_data :: "bytes \<Rightarrow> bool" where
  "is_channel_data buf =
     (if length buf < 4 then False
      else let channel = from_be_bytes [buf ! 0, buf ! 1] :: u16 in
           if \<not> (0x4000 \<le> channel \<and> channel \<le> 0x7FFE) then False
           else length buf \<ge> 4 + unat (from_be_bytes [buf ! 2, buf ! 3] :: u16))"

definition decode_channel_data :: "bytes \<Rightarrow> (u16 \<times> bytes) stun_res" where
  "decode_channel_data buf =
     (if length buf < 4 then Err (BufferTooShort 4 (length buf))
      else bind_res (get_u16 buf 0) (\<lambda>channel.
           bind_res (get_u16 buf 2) (\<lambda>len16.
             let len = unat len16 in
             if length buf < 4 + len then Err (BufferTooShort (4 + len) (length buf))
             else bind_res (slice_r buf 4 (4 + len)) (\<lambda>d. Ok (channel, d)))))"

definition encode_channel_data :: "bytes \<Rightarrow> u16 \<Rightarrow> bytes \<Rightarrow> (nat \<times> bytes) stun_res" where
  "encode_channel_data buf channel d =
     (let total = 4 + length d; padded = pad4 total in
      if length buf < padded then Err (BufferTooShort padded (length buf))
      else bind_res (copy_into buf 0 2 (be16 channel)) (\<lambda>buf.
           bind_res (copy_into buf 2 4 (be16 (of_nat (length d)))) (\<lambda>buf.
           bind_res (copy_into buf 4 (4 + length d) d) (\<lambda>buf.
           bind_res (copy_into buf total padded (replicate (padded - total) 0)) (\<lambda>buf.
             Ok (padded, buf))))))"

section \<open>Wire forms\<close>

definition wires :: "bytes \<Rightarrow> attribute list \<Rightarrow> bytes" where
  "wires tid as = concat (map (attr_wire tid) (filter plain_attr as))"

definition message_wire :: "stun_message \<Rightarrow> bytes" where
  "message_wire msg =
     (let w = wires (sm_transaction_id msg) (sm_attributes msg) in
      header_bytes (sm_method msg) (sm_class msg) (of_nat (length w)) (sm_transaction_id msg) @ w)"

definition wf_message :: "stun_message \<Rightarrow> bool" where
  "wf_message msg \<longleftrightarrow>
     length (sm_transaction_id msg) = 12
     \<and> list_all (fits_attr (sm_transaction_id msg)) (filter plain_attr (sm_attributes msg))"

definition channel_wire :: "u16 \<Rightarrow> bytes \<Rightarrow> bytes" where
  "channel_wire c d = be16 c @ be16 (of_nat (length d)) @ d @ replicate (pad4 (4 + length d) - (4 + length d)) 0"

section \<open>The encoder writes the wire form\<close>

lemma encode_attrs_step:
  assumes "plain_attr a" and "4 dvd length P" and "length (attr_wire tid a) \<le> length R"
  shows "encode_attrs (a # as) tid (P @ R) (length P) =
         encode_attrs as tid ((P @ attr_wire tid a) @ drop (length (attr_wire tid a)) R)
           (length (P @ attr_wire tid a))"
proof -
  let ?v = "value_bytes a tid"
  let ?n = "length ?v" and ?t = "be16 (attr_type a)" and ?pad = "pad4 (length ?v) - length ?v"
  have p: "?n \<le> pad4 ?n" by (rule pad4_bounds)
  obtain T L V Z S where R: "R = T @ L @ V @ Z @ S" "length T = 2" "length L = 2" "length V = ?n"
    "length Z = ?pad"
    using assms(3) p split_run [of 2 2 ?n ?pad R] by (auto simp: length_attr_wire)
  have padded: "pad4 (length P + 4 + ?n) = length P + 4 + pad4 ?n"
    using assms(2) pad4_add_mult [of "length P + 4" ?n] by simp
  let ?w1 = "write_at (P @ R) (length P + 4) (?v @ Z @ S)"
  have w1: "?w1 = P @ T @ L @ ?v @ Z @ S"
    using R write_at_run [of "length P + 4" "P @ T @ L" "V @ Z @ S" "?v @ Z @ S" "[]"] by simp
  have w2: "write_at (P @ T @ L @ ?v @ Z @ S) (length P) ?t = P @ ?t @ L @ ?v @ Z @ S"
    using R by (intro write_at_run) simp_all
  have w3: "write_at (P @ ?t @ L @ ?v @ Z @ S) (length P + 2) (be16 (of_nat ?n)) =
      P @ ?t @ be16 (of_nat ?n) @ ?v @ Z @ S"
    using R write_at_run [of "length P + 2" "P @ ?t" L "be16 (of_nat ?n)"] by simp
  have w4: "write_at (P @ ?t @ be16 (of_nat ?n) @ ?v @ Z @ S) (length P + 4 + ?n) (replicate ?pad 0)
     = P @ ?t @ be16 (of_nat ?n) @ ?v @ replicate ?pad 0 @ S"
    using R write_at_run [of "length P + 4 + ?n" "P @ ?t @ be16 (of_nat ?n) @ ?v" Z "replicate ?pad 0"]
    by simp
  have sl: "sliced (P @ R) (length P + 4) (length (P @ R)) = V @ Z @ S"
    using R by (simp add: sliced_def)
  have e: "encode_value a (V @ Z @ S) tid = Ok (?n, ?v @ Z @ S)"
    using R by (simp add: encode_value_eq)
  have len: "length (P @ R) = length P + 4 + pad4 ?n + length S" using R p by simp
  show ?thesis
    using assms(1) R p
    by (simp add: ensure_def wire sl [unfolded len] e padded w1 [unfolded R] w2 w3 w4 Let_def
          attr_wire_def slice_r_def sliced_def, simp add: add.assoc)
qed

lemma encode_attrs_overflow:
  assumes "plain_attr a" and "4 dvd length P" and "length R < length (attr_wire tid a)"
  shows "\<exists>n h. encode_attrs (a # as) tid (P @ R) (length P) = Err (BufferTooShort n h)"
proof -
  let ?n = "length (value_bytes a tid)"
  have padded: "pad4 (length P + 4 + ?n) = length P + 4 + pad4 ?n"
    using assms(2) pad4_add_mult [of "length P + 4" ?n] by simp
  consider "length R < 4" | "4 \<le> length R" "length R - 4 < ?n"
    | "4 \<le> length R" "\<not> length R - 4 < ?n" "?n + 4 \<le> length R" "length R < 4 + pad4 ?n"
    using assms(3) by (fastforce simp: length_attr_wire)
  then show ?thesis
    using assms(1)
    by cases (simp_all add: ensure_def encode_value_eq wire padded Let_def sliced_def)
qed

lemma wires_simps [simp]:
  "wires tid [] = []"
  "wires tid (a # as) = (if plain_attr a then attr_wire tid a else []) @ wires tid as"
  by (simp_all add: wires_def)

lemma encode_attrs_eq:
  assumes "4 dvd length P" and "length (wires tid as) \<le> length R"
  shows "\<exists>R'. length R' + length (wires tid as) = length R \<and>
     encode_attrs as tid (P @ R) (length P) =
     Ok (length (P @ wires tid as), (P @ wires tid as) @ R')"
  using assms
proof (induction as arbitrary: P R)
  case (Cons a as)
  show ?case
  proof (cases "plain_attr a")
    case True
    let ?w = "attr_wire tid a"
    have d: "4 dvd length (P @ ?w)" using Cons.prems(1) by (simp add: length_attr_wire)
    have le: "length ?w \<le> length R" using Cons.prems True by simp
    have r: "length (wires tid as) \<le> length (drop (length ?w) R)" using Cons.prems True by simp
    obtain R' where "length R' + length (wires tid as) = length R - length ?w"
      "encode_attrs as tid ((P @ ?w) @ drop (length ?w) R) (length (P @ ?w)) =
       Ok (length ((P @ ?w) @ wires tid as), ((P @ ?w) @ wires tid as) @ R')"
      using Cons.IH [OF d r] by auto
    then show ?thesis
      using le True
      by (intro exI [of _ R']) (simp add: encode_attrs_step [OF True Cons.prems(1) le] del: encode_attrs.simps)
  qed (use Cons in simp)
qed simp

lemma encode_attrs_err:
  assumes "4 dvd length P" and "length R < length (wires tid as)"
  shows "\<exists>n h. encode_attrs as tid (P @ R) (length P) = Err (BufferTooShort n h)"
  using assms
proof (induction as arbitrary: P R)
  case (Cons a as)
  show ?case
  proof (cases "plain_attr a")
    case True
    let ?w = "attr_wire tid a"
    have d: "4 dvd length (P @ ?w)" using Cons.prems(1) by (simp add: length_attr_wire)
    show ?thesis
    proof (cases "length ?w \<le> length R")
      case le: True
      have "length (drop (length ?w) R) < length (wires tid as)"
        using Cons.prems True le by simp
      then show ?thesis
        using Cons.IH [OF d] by (simp only: encode_attrs_step [OF True Cons.prems(1) le])
    next
      case False
      then show ?thesis
        using encode_attrs_overflow [OF True Cons.prems(1), of R tid as] by (metis not_le)
    qed
  qed (use Cons in simp)
qed simp

lemma length_wires_dvd4: "4 dvd length (wires tid as)"
  by (simp add: wires_def wires_dvd4)

lemma header_bytes_writes:
  assumes "length tid = 12" and "20 + length w \<le> length buf"
  shows "write_at (write_at (write_at (write_at (write_at buf 0 (be16 (encode_message_type m c)))
      2 (be16 l)) 4 (be32 MAGIC_COOKIE)) 8 tid) 20 w
    = header_bytes m c l tid @ w @ drop (20 + length w) buf"
  using assms
  by (simp add: header_bytes_def write_at_def drop_drop take_drop min_def add.commute)

lemma StunMessage_encode_eq:
  assumes "length (sm_transaction_id msg) = 12"
    and "length (wires (sm_transaction_id msg) (sm_attributes msg)) \<le> ATTR_BUF_SIZE"
    and "length (message_wire msg) \<le> length buf"
  shows "StunMessage_encode msg buf =
    Ok (length (message_wire msg), message_wire msg @ drop (length (message_wire msg)) buf)"
proof -
  let ?tid = "sm_transaction_id msg"
  let ?w = "wires ?tid (sm_attributes msg)"
  obtain R' where "encode_attrs (sm_attributes msg) ?tid (replicate ATTR_BUF_SIZE 0) 0 = Ok (length ?w, ?w @ R')"
    using encode_attrs_eq [of "[]" ?tid "sm_attributes msg" "replicate ATTR_BUF_SIZE 0"] assms(2) by auto
  with assms header_bytes_writes [OF assms(1), of ?w buf] show ?thesis
    by (simp add: StunMessage_encode_def message_wire_def Let_def ensure_def wire HEADER_SIZE_def sliced_def)
qed

lemma StunMessage_encode_err:
  assumes "length (wires (sm_transaction_id msg) (sm_attributes msg)) > ATTR_BUF_SIZE
    \<or> length (message_wire msg) > length buf" and "length (sm_transaction_id msg) = 12"
  shows "\<exists>n h. StunMessage_encode msg buf = Err (BufferTooShort n h)"
proof -
  let ?tid = "sm_transaction_id msg"
  let ?w = "wires ?tid (sm_attributes msg)"
  show ?thesis
  proof (cases "length ?w \<le> ATTR_BUF_SIZE")
    case True
    then obtain R' where "encode_attrs (sm_attributes msg) ?tid (replicate ATTR_BUF_SIZE 0) 0 = Ok (length ?w, ?w @ R')"
      using encode_attrs_eq [of "[]" ?tid "sm_attributes msg" "replicate ATTR_BUF_SIZE 0"] by auto
    with assms True show ?thesis
      by (simp add: StunMessage_encode_def message_wire_def Let_def ensure_def HEADER_SIZE_def)
  next
    case False
    then show ?thesis
      using encode_attrs_err [of "[]" "replicate ATTR_BUF_SIZE 0" ?tid "sm_attributes msg"]
      by (auto simp: StunMessage_encode_def)
  qed
qed

lemma StunMessage_decode_wire:
  assumes "\<forall>a \<in> set as. fits_attr tid a" and "length tid = 12"
    and "length as \<le> MAX_ATTRIBUTES_PER_MESSAGE"
    and w: "w = concat (map (attr_wire tid) as)" and "length w \<le> unat MAX_MESSAGE_LEN"
  shows "StunMessage_decode (header_bytes m c (of_nat (length w)) tid @ w @ rest) =
    Ok \<lparr> sm_class = c, sm_method = m, sm_transaction_id = tid, sm_attributes = as \<rparr>"
proof -
  have "length w < 65536" using assms(5) by (simp add: rust_const)
  then have u: "unat (of_nat (length w) :: u16) = length w"
    by (simp add: unat_of_nat take_bit_eq_mod)
  have d: "length w mod 4 = 0" using wires_dvd4 [of tid as] w by auto
  have m: "(of_nat (length w) :: u16) \<le> MAX_MESSAGE_LEN" using assms(5) u by (simp add: word_le_nat_alt)
  have "sliced (header_bytes m c (of_nat (length w)) tid @ w @ rest) 20 (20 + length w) = w"
    using assms(2) by (intro slice_append_mid) simp_all
  then show ?thesis
    using u d m assms parse_attributes_wires [OF assms(1-3)]
    by (simp add: StunMessage_decode_def MessageHeader_decode_header_bytes HEADER_SIZE_def wire)
qed

lemma StunMessage_decode_no_panic: "StunMessage_decode buf \<noteq> Panic"
  unfolding StunMessage_decode_def Let_def
  by (intro no_panic if_np bind_np MessageHeader_decode_no_panic parse_attributes_no_panic)
     (simp_all add: slice_r_def)

section \<open>ChannelData\<close>

lemma top_bits_small:
  assumes "a AND 0xC0 = (0 :: u8)"
  shows "(from_be_bytes [a, b] :: u16) < 0x4000"
proof -
  let ?c = "from_be_bytes [a, b] :: u16"
  have z: "\<not> bit a 6" "\<not> bit a 7"
    using arg_cong [OF assms, of "\<lambda>x. bit x 6"] arg_cong [OF assms, of "\<lambda>x. bit x 7"]
    by (simp_all add: bit_simps)
  have "take_bit 14 ?c = ?c"
  proof (rule bit_word_eqI)
    fix n assume n: "n < LENGTH(16)"
    then consider "n < 14" | "n = 14" | "n = 15" by fastforce
    then show "bit (take_bit 14 ?c) n = bit ?c n"
      using z by cases (auto simp: from_be_bytes_Cons bit_simps dest: bit_imp_le_length)
  qed
  then have "unat ?c = unat (take_bit 14 ?c)" by simp
  also have "\<dots> < 2 ^ 14" using take_bit_nat_less_exp [of 14 "unat ?c"]
    by (simp add: unsigned_take_bit_eq)
  finally show ?thesis by (simp add: word_less_nat_alt)
qed

lemma demux_exclusive: "\<not> (is_stun_message buf \<and> is_channel_data buf)"
  using top_bits_small [of "buf ! 0" "buf ! 1"]
  by (auto simp: is_stun_message_def is_channel_data_def Let_def split: if_splits)

lemma is_channel_data_decodes:
  assumes "is_channel_data buf"
  shows "\<exists>c d. decode_channel_data buf = Ok (c, d) \<and> 0x4000 \<le> c \<and> c \<le> 0x7FFE \<and> 4 + length d \<le> length buf"
  using assms
  by (auto simp: is_channel_data_def decode_channel_data_def Let_def wire split: if_splits)

lemma decode_channel_data_slice:
  assumes "decode_channel_data buf = Ok (c, d)"
  shows "d = sliced buf 4 (4 + length d)"
proof -
  have "res_all (\<lambda>r. snd r = sliced buf 4 (4 + length (snd r))) (decode_channel_data buf)"
    unfolding decode_channel_data_def Let_def
    by (intro res_all_intros; simp add: slice_r_def) (auto split: if_splits)
  then show ?thesis using assms by (simp add: res_all_def)
qed

lemma decode_channel_data_no_panic: "decode_channel_data buf \<noteq> Panic"
  by (auto simp: decode_channel_data_def Let_def wire)

lemma encode_channel_data_eq:
  assumes "pad4 (4 + length d) \<le> length buf"
  shows "encode_channel_data buf c d =
    Ok (pad4 (4 + length d), channel_wire c d @ drop (pad4 (4 + length d)) buf)"
proof -
  have "4 + length d \<le> pad4 (4 + length d)" by (rule pad4_bounds)
  then show ?thesis
    using assms
    by (simp add: encode_channel_data_def Let_def wire channel_wire_def write_at_def min_def drop_drop take_drop)
qed

lemma channel_wire_decodes:
  assumes "length d < 65536"
  shows "decode_channel_data (channel_wire c d @ rest) = Ok (c, d)"
    and "is_channel_data (channel_wire c d @ rest) \<longleftrightarrow> 0x4000 \<le> c \<and> c \<le> 0x7FFE"
proof -
  let ?buf = "channel_wire c d @ rest" and ?z = "replicate (pad4 (4 + length d) - (4 + length d)) 0 @ rest"
  have u: "unat (of_nat (length d) :: u16) = length d"
    using assms by (simp add: unat_of_nat take_bit_eq_mod)
  have c: "(get_u16 ?buf 0 :: u16 stun_res) = Ok c"
    by (simp add: channel_wire_def be_simps)
  have l: "(get_u16 ?buf 2 :: u16 stun_res) = Ok (of_nat (length d))"
    using get_u16_app [of 2 "be16 c" "of_nat (length d)"] by (simp add: channel_wire_def)
  have "sliced ?buf 4 (4 + length d) = d"
    using slice_append_mid [of 4 "be16 c @ be16 (of_nat (length d))" "4 + length d" d ?z]
    by (simp add: channel_wire_def)
  moreover have len: "4 + length d \<le> length ?buf" by (simp add: channel_wire_def)
  ultimately show "decode_channel_data ?buf = Ok (c, d)"
    using c l u by (simp add: decode_channel_data_def Let_def wire)
  show "is_channel_data ?buf \<longleftrightarrow> 0x4000 \<le> c \<and> c \<le> 0x7FFE"
    using c l u len by (simp add: is_channel_data_def Let_def get_u16_def split: if_splits)
qed

section \<open>Properties\<close>

lemma StunMessage_decode_parts:
  assumes "StunMessage_decode buf = Ok msg"
  shows "length (sm_transaction_id msg) = 12"
    and "\<exists>body. parse_attributes body (sm_transaction_id msg) = Ok (sm_attributes msg)"
proof -
  from assms obtain h body where h: "MessageHeader_decode buf = Ok h"
    and "sm_transaction_id msg = h_transaction_id h"
    and "parse_attributes body (h_transaction_id h) = Ok (sm_attributes msg)"
    by (auto simp: StunMessage_decode_def Let_def bind_res_Ok_iff split: if_splits)
  moreover have "length (h_transaction_id h) = 12" using h by (rule MessageHeader_decode_tid)
  ultimately show "length (sm_transaction_id msg) = 12"
    and "\<exists>body. parse_attributes body (sm_transaction_id msg) = Ok (sm_attributes msg)"
    by auto
qed

text \<open>
  C11. Encoding then decoding returns the message, without the MESSAGE-INTEGRITY and FINGERPRINT
  attributes the plain encoder skips, for every message whose attributes survive the wire, that has
  at most 32 of them and at most 4096 attribute bytes, whenever the output buffer has room.
\<close>

theorem StunMessage_roundtrip:
  assumes "wf_message msg"
    and "length (filter plain_attr (sm_attributes msg)) \<le> MAX_ATTRIBUTES_PER_MESSAGE"
    and "length (message_wire msg) \<le> HEADER_SIZE + unat MAX_MESSAGE_LEN"
    and "length (message_wire msg) \<le> length buf"
  shows "\<exists>n buf'. StunMessage_encode msg buf = Ok (n, buf') \<and> n = length (message_wire msg)
    \<and> StunMessage_decode (take n buf')
      = Ok (msg\<lparr>sm_attributes := filter plain_attr (sm_attributes msg)\<rparr>)"
proof -
  let ?tid = "sm_transaction_id msg" and ?as = "filter plain_attr (sm_attributes msg)"
  have tid: "length ?tid = 12" using assms(1) by (simp add: wf_message_def)
  have w: "length (wires ?tid (sm_attributes msg)) \<le> 4096"
    using assms(3) tid by (simp add: message_wire_def Let_def rust_const)
  have "StunMessage_decode (message_wire msg) = Ok (msg\<lparr>sm_attributes := ?as\<rparr>)"
    using StunMessage_decode_wire [of ?as ?tid "wires ?tid (sm_attributes msg)" "sm_method msg"
        "sm_class msg" "[]"] assms(1,2) w
    by (simp add: wf_message_def list_all_iff wires_def message_wire_def Let_def rust_const)
  then show ?thesis
    using StunMessage_encode_eq [OF tid _ assms(4)] w by (simp add: rust_const)
qed

definition sample_allocate :: stun_message where
  "sample_allocate = \<lparr> sm_class = Request, sm_method = M_Allocate,
     sm_transaction_id = replicate 12 1,
     sm_attributes = [RequestedTransport 17, Fingerprint 3, Lifetime 600,
                      XorPeerAddress (SockV4 0xC0000201 3478)] \<rparr>"

lemma sample_allocate_ok:
  "wf_message sample_allocate" "length (message_wire sample_allocate) = 48"
  "length (filter plain_attr (sm_attributes sample_allocate)) = 3"
  by (simp_all add: sample_allocate_def wf_message_def plain_attr_def fits_attr_def rust_const
        message_wire_def wires_def length_attr_wire pad4_def)

theorem StunMessage_roundtrip_witness:
  "\<exists>n buf'. StunMessage_encode sample_allocate (replicate 64 0) = Ok (n, buf')
    \<and> StunMessage_decode (take n buf') = Ok (sample_allocate\<lparr>sm_attributes :=
         [RequestedTransport 17, Lifetime 600, XorPeerAddress (SockV4 0xC0000201 3478)]\<rparr>)"
proof -
  have "filter plain_attr (sm_attributes sample_allocate) =
      [RequestedTransport 17, Lifetime 600, XorPeerAddress (SockV4 0xC0000201 3478)]"
    by (simp add: sample_allocate_def plain_attr_def rust_const)
  then show ?thesis
    using StunMessage_roundtrip [of sample_allocate "replicate 64 0"] sample_allocate_ok
    by (auto simp: rust_const)
qed

text \<open>
  The encoder never panics: for every message it either writes exactly the wire form at the
  start of the buffer and leaves the rest alone, or reports that the scratch buffer or the output
  buffer is too short, and it reports that only when one of them really is.
\<close>

theorem StunMessage_encode_total:
  assumes "length (sm_transaction_id msg) = 12"
  shows "(case StunMessage_encode msg buf of
       Ok (n, buf') \<Rightarrow> n = length (message_wire msg) \<and> n \<le> length buf
          \<and> length (wires (sm_transaction_id msg) (sm_attributes msg)) \<le> ATTR_BUF_SIZE
          \<and> buf' = message_wire msg @ drop n buf
     | Err e \<Rightarrow> (\<exists>need have. e = BufferTooShort need have)
          \<and> (ATTR_BUF_SIZE < length (wires (sm_transaction_id msg) (sm_attributes msg))
             \<or> length buf < length (message_wire msg))
     | Panic \<Rightarrow> False)"
proof (cases "ATTR_BUF_SIZE < length (wires (sm_transaction_id msg) (sm_attributes msg))
              \<or> length buf < length (message_wire msg)")
  case True
  then obtain n h where "StunMessage_encode msg buf = Err (BufferTooShort n h)"
    using StunMessage_encode_err [OF _ assms] by blast
  then show ?thesis using True by simp
next
  case False
  then have le: "length (wires (sm_transaction_id msg) (sm_attributes msg)) \<le> ATTR_BUF_SIZE"
    "length (message_wire msg) \<le> length buf"
    by simp_all
  show ?thesis unfolding StunMessage_encode_eq [OF assms le] using le by simp
qed

theorem StunMessage_encode_total_witness:
  "\<exists>need have. StunMessage_encode sample_allocate (replicate 40 0) = Err (BufferTooShort need have)"
proof -
  have "length (sm_transaction_id sample_allocate) = 12" by (simp add: sample_allocate_def)
  from StunMessage_encode_total [OF this, of "replicate 40 0"] show ?thesis
    by (auto simp: sample_allocate_ok split: res.splits)
qed

text \<open>
  C24. No byte string makes the decoder panic, and a message it accepts has a 12-byte transaction
  id, at most 32 attributes, and attributes that satisfy the type invariant (fixed-length arrays
  have their length, text is valid UTF-8).
\<close>

theorem StunMessage_decode_safe:
  "StunMessage_decode buf \<noteq> Panic
   \<and> (\<forall>msg. StunMessage_decode buf = Ok msg \<longrightarrow>
        length (sm_transaction_id msg) = 12
        \<and> length (sm_attributes msg) \<le> MAX_ATTRIBUTES_PER_MESSAGE
        \<and> list_all typed_attr (sm_attributes msg))"
proof (intro conjI allI impI)
  show "StunMessage_decode buf \<noteq> Panic" by (rule StunMessage_decode_no_panic)
next
  fix msg assume "StunMessage_decode buf = Ok msg"
  then obtain body where "length (sm_transaction_id msg) = 12"
    and body: "parse_attributes body (sm_transaction_id msg) = Ok (sm_attributes msg)"
    using StunMessage_decode_parts by blast
  then show "length (sm_transaction_id msg) = 12"
    "length (sm_attributes msg) \<le> MAX_ATTRIBUTES_PER_MESSAGE"
    "list_all typed_attr (sm_attributes msg)"
    using parse_attributes_count laid_out_typed [OF parse_attributes_laid_out [OF body]]
    by (auto simp: list_all_iff)
qed

definition sample_signed :: bytes where
  "sample_signed = [0, 1, 0, 24, 0x21, 0x12, 0xA4, 0x42] @ replicate 12 0 @ [0, 8, 0, 20] @ replicate 20 7"

definition sample_signed_msg :: stun_message where
  "sample_signed_msg = \<lparr> sm_class = Request, sm_method = M_Binding,
     sm_transaction_id = replicate 12 0, sm_attributes = [MessageIntegrity (replicate 20 7)] \<rparr>"

lemma sample_signed_decodes: "StunMessage_decode sample_signed = Ok sample_signed_msg"
  by code_simp

theorem StunMessage_decode_safe_witness: "list_all typed_attr (sm_attributes sample_signed_msg)"
  using StunMessage_decode_safe [of sample_signed] sample_signed_decodes by simp

text \<open>
  A ChannelData frame of at most 65535 data bytes comes back from the decoder with its
  channel and its data, is recognised as ChannelData exactly for the channel numbers 0x4000 to
  0x7FFE, and is padded to a multiple of four bytes.
\<close>

theorem channel_data_roundtrip:
  assumes "length d < 65536" and "pad4 (4 + length d) \<le> length buf"
  shows "\<exists>n buf'. encode_channel_data buf c d = Ok (n, buf') \<and> n mod 4 = 0
     \<and> decode_channel_data (take n buf') = Ok (c, d)
     \<and> (is_channel_data (take n buf') \<longleftrightarrow> 0x4000 \<le> c \<and> c \<le> 0x7FFE)"
proof -
  have "length (channel_wire c d) = pad4 (4 + length d)"
    using pad4_bounds(1) [of "4 + length d"] by (simp add: channel_wire_def)
  then show ?thesis
    using encode_channel_data_eq [OF assms(2)] channel_wire_decodes [OF assms(1), of c "[]"] by simp
qed

theorem channel_data_roundtrip_witness:
  "\<exists>n buf'. encode_channel_data (replicate 12 0) 0x4001 [1, 2, 3, 4, 5] = Ok (n, buf')
     \<and> decode_channel_data (take n buf') = Ok (0x4001, [1, 2, 3, 4, 5])"
  using channel_data_roundtrip [of "[1, 2, 3, 4, 5]" "replicate 12 0" "0x4001"]
  by (auto simp: pad4_def)

text \<open>
  The demultiplexer is unambiguous and safe: no datagram is taken both for a STUN message and
  for ChannelData, decoding ChannelData never panics, and a frame the demultiplexer accepts always
  decodes, to a channel in the valid range and data that lie inside the datagram.
\<close>

theorem demux_sound:
  "\<not> (is_stun_message buf \<and> is_channel_data buf) \<and> decode_channel_data buf \<noteq> Panic
   \<and> (is_channel_data buf \<longrightarrow>
        (\<exists>c d. decode_channel_data buf = Ok (c, d) \<and> 0x4000 \<le> c \<and> c \<le> 0x7FFE
           \<and> d = sliced buf 4 (4 + length d) \<and> 4 + length d \<le> length buf))"
proof (intro conjI impI)
  show "\<not> (is_stun_message buf \<and> is_channel_data buf)" by (rule demux_exclusive)
  show "decode_channel_data buf \<noteq> Panic" by (rule decode_channel_data_no_panic)
  assume "is_channel_data buf"
  from is_channel_data_decodes [OF this] show
    "\<exists>c d. decode_channel_data buf = Ok (c, d) \<and> 0x4000 \<le> c \<and> c \<le> 0x7FFE
       \<and> d = sliced buf 4 (4 + length d) \<and> 4 + length d \<le> length buf"
    by (auto dest: decode_channel_data_slice)
qed

theorem demux_sound_witness: "\<exists>c d. decode_channel_data [0x40, 0, 0, 1, 9, 0, 0, 0] = Ok (c, d)"
proof -
  have "is_channel_data [0x40, 0, 0, 1, 9, 0, 0, 0]" by code_simp
  then show ?thesis using demux_sound [of "[0x40, 0, 0, 1, 9, 0, 0, 0]"] by blast
qed

end
