(* ===== verification/Stun_Integrity.thy ===== *)
theory Stun_Integrity
  imports Stun_Message
begin

text \<open>
  Message authentication (\<^verbatim>\<open>proto-stun/src/integrity.rs\<close> and the signing and verifying methods
  of \<^verbatim>\<open>message.rs\<close>). HMAC-SHA1, HMAC-SHA-256 and CRC-32 come from crates outside the
  repository: they are arguments (\<open>hm key bytes\<close>, \<open>crc bytes\<close>) of the definitions that use them.
  The lemmas relate the raw walk of the verifier to the attributes the decoder returned.
\<close>

section \<open>Integrity and fingerprint\<close>

type_synonym mac = "bytes \<Rightarrow> bytes \<Rightarrow> bytes" \<comment> \<open>key, message\<close>

definition FINGERPRINT_XOR :: u32 where
  [rust_const]: "FINGERPRINT_XOR = 0x5354554E"

definition compute_message_integrity :: "mac \<Rightarrow> bytes \<Rightarrow> bytes \<Rightarrow> bytes" where
  "compute_message_integrity hm msg key = hm key msg"

definition verify_message_integrity :: "mac \<Rightarrow> bytes \<Rightarrow> bytes \<Rightarrow> bytes \<Rightarrow> bool" where
  "verify_message_integrity hm msg key expected \<longleftrightarrow> hm key msg = expected"

definition compute_message_integrity_sha256 :: "mac \<Rightarrow> bytes \<Rightarrow> bytes \<Rightarrow> bytes" where
  "compute_message_integrity_sha256 hm256 msg key = hm256 key msg"

definition verify_message_integrity_sha256 :: "mac \<Rightarrow> bytes \<Rightarrow> bytes \<Rightarrow> bytes \<Rightarrow> bool" where
  "verify_message_integrity_sha256 hm msg key expected =
     (let len = length expected in
      if \<not> (16 \<le> len \<and> len \<le> 32) \<or> len mod 4 \<noteq> 0 then False
      else if len = 32 then hm key msg = expected
      else take len (hm key msg) = expected)"

definition compute_fingerprint :: "(bytes \<Rightarrow> u32) \<Rightarrow> bytes \<Rightarrow> u32" where
  "compute_fingerprint crc msg = crc msg XOR FINGERPRINT_XOR"

text \<open>
  \<open>append_tag\<close> is the block both signing encoders share: set the length field to count the tag,
  compute the tag over what precedes it, append it as one record.
\<close>

definition append_tag ::
  "u16 \<Rightarrow> nat \<Rightarrow> (bytes \<Rightarrow> bytes) \<Rightarrow> nat \<times> bytes \<Rightarrow> (nat \<times> bytes) stun_res" where
  "append_tag t tag_len tag = (\<lambda>(len, buf).
     bind_res (ensure (length buf) (len + 4 + tag_len)) (\<lambda>_.
     bind_res (copy_into buf 2 4 (be16 (of_nat (len - HEADER_SIZE + 4 + tag_len)))) (\<lambda>buf.
     bind_res (slice_r buf 0 len) (\<lambda>msg.
     bind_res (copy_into buf len (len + 2) (be16 t)) (\<lambda>buf.
     bind_res (copy_into buf (len + 2) (len + 4) (be16 (of_nat tag_len))) (\<lambda>buf.
     bind_res (copy_into buf (len + 4) (len + 4 + tag_len) (tag msg)) (\<lambda>buf.
       Ok (len + 4 + tag_len, buf))))))))"

definition finish_len :: "nat \<times> bytes \<Rightarrow> (nat \<times> bytes) stun_res" where
  "finish_len = (\<lambda>(len, buf).
     bind_res (copy_into buf 2 4 (be16 (of_nat (len - HEADER_SIZE)))) (\<lambda>buf. Ok (len, buf)))"

definition encode_signed ::
  "u16 \<Rightarrow> nat \<Rightarrow> (bytes \<Rightarrow> bytes) \<Rightarrow> (bytes \<Rightarrow> u32) \<Rightarrow> stun_message \<Rightarrow> bytes
   \<Rightarrow> (nat \<times> bytes) stun_res" where
  "encode_signed t tag_len tag crc msg buf =
     bind_res (StunMessage_encode msg buf) (\<lambda>s.
     bind_res (append_tag t tag_len tag s) (\<lambda>s.
     bind_res (append_tag ATTR_FINGERPRINT 4 (\<lambda>m. be32 (compute_fingerprint crc m)) s) (\<lambda>s.
       finish_len s)))"

definition encode_with_integrity ::
  "mac \<Rightarrow> (bytes \<Rightarrow> u32) \<Rightarrow> stun_message \<Rightarrow> bytes \<Rightarrow> bytes \<Rightarrow> (nat \<times> bytes) stun_res" where
  "encode_with_integrity hm crc msg buf key =
     encode_signed ATTR_MESSAGE_INTEGRITY 20 (\<lambda>m. compute_message_integrity hm m key) crc msg buf"

definition encode_with_integrity_sha256 ::
  "mac \<Rightarrow> (bytes \<Rightarrow> u32) \<Rightarrow> stun_message \<Rightarrow> bytes \<Rightarrow> bytes \<Rightarrow> (nat \<times> bytes) stun_res" where
  "encode_with_integrity_sha256 hm256 crc msg buf key =
     encode_signed ATTR_MESSAGE_INTEGRITY_SHA256 32
       (\<lambda>m. compute_message_integrity_sha256 hm256 m key) crc msg buf"

function only_fingerprint_after :: "bytes \<Rightarrow> nat \<Rightarrow> bool" where
  "only_fingerprint_after raw pos =
     (if pos + 4 \<le> length raw then
        (if rec_type raw pos \<noteq> ATTR_FINGERPRINT then False
         else only_fingerprint_after raw (pos + 4 + pad4 (rec_len raw pos)))
      else True)"
  by pat_completeness auto
termination
  by (relation "measure (\<lambda>(raw, pos). length raw - pos)") auto

definition adjusted :: "bytes \<Rightarrow> nat \<Rightarrow> nat \<Rightarrow> bytes" where
  "adjusted raw pos len = write_at (take pos raw) 2 (be16 (of_nat len))"

function verify_walk :: "mac \<Rightarrow> bytes \<Rightarrow> bytes \<Rightarrow> bytes \<Rightarrow> nat \<Rightarrow> bool" where
  "verify_walk hm raw key expected pos =
     (if pos + 4 \<le> length raw then
        (if rec_type raw pos = ATTR_MESSAGE_INTEGRITY then
           only_fingerprint_after raw (pos + 4 + 20)
           \<and> verify_message_integrity hm (adjusted raw pos (pos - HEADER_SIZE + 24)) key expected
         else verify_walk hm raw key expected (pos + 4 + pad4 (rec_len raw pos)))
      else False)"
  by pat_completeness auto
termination
  by (relation "measure (\<lambda>(hm, raw, key, expected, pos). length raw - pos)") auto

definition verify_integrity :: "mac \<Rightarrow> stun_message \<Rightarrow> bytes \<Rightarrow> bytes \<Rightarrow> bool" where
  "verify_integrity hm msg raw key =
     (case get_message_integrity msg of
        None \<Rightarrow> False
      | Some expected \<Rightarrow> verify_walk hm raw key expected HEADER_SIZE)"

function verify_walk_sha256 :: "mac \<Rightarrow> bytes \<Rightarrow> bytes \<Rightarrow> bytes \<Rightarrow> nat \<Rightarrow> bool" where
  "verify_walk_sha256 hm raw key expected pos =
     (if pos + 4 \<le> length raw then
        (if rec_type raw pos = ATTR_MESSAGE_INTEGRITY_SHA256 then
           only_fingerprint_after raw (pos + 4 + pad4 (rec_len raw pos))
           \<and> verify_message_integrity_sha256 hm
               (adjusted raw pos (pos - HEADER_SIZE + 4 + rec_len raw pos)) key expected
         else verify_walk_sha256 hm raw key expected (pos + 4 + pad4 (rec_len raw pos)))
      else False)"
  by pat_completeness auto
termination
  by (relation "measure (\<lambda>(hm, raw, key, expected, pos). length raw - pos)") auto

definition verify_integrity_sha256 :: "mac \<Rightarrow> stun_message \<Rightarrow> bytes \<Rightarrow> bytes \<Rightarrow> bool" where
  "verify_integrity_sha256 hm msg raw key =
     (case get_message_integrity_sha256 msg of
        None \<Rightarrow> False
      | Some expected \<Rightarrow> verify_walk_sha256 hm raw key expected HEADER_SIZE)"

declare only_fingerprint_after.simps [simp del] verify_walk.simps [simp del]
  verify_walk_sha256.simps [simp del]

section \<open>Auxiliary definitions\<close>

text \<open>What a signing encoder puts after the plain attributes, as attributes.\<close>

definition signed_attrs ::
  "(bytes \<Rightarrow> attribute) \<Rightarrow> nat \<Rightarrow> (bytes \<Rightarrow> bytes) \<Rightarrow> (bytes \<Rightarrow> u32) \<Rightarrow> stun_message \<Rightarrow> attribute list" where
  "signed_attrs mk k tag crc msg =
     (let tid = sm_transaction_id msg; m = sm_method msg; c = sm_class msg;
          w = wires tid (sm_attributes msg);
          mi = mk (tag (header_bytes m c (of_nat (length w + 4 + k)) tid @ w));
          w' = w @ attr_wire tid mi
      in filter plain_attr (sm_attributes msg)
         @ [mi, Fingerprint (compute_fingerprint crc
                  (header_bytes m c (of_nat (length w' + 4 + 4)) tid @ w'))])"

definition signed_size :: "nat \<Rightarrow> stun_message \<Rightarrow> nat" where
  "signed_size k msg = length (message_wire msg) + 4 + k + 8"

definition mi_value :: "attribute \<Rightarrow> bytes option" where
  "mi_value a = (case a of MessageIntegrity h \<Rightarrow> Some h | _ \<Rightarrow> None)"

definition mi256_value :: "attribute \<Rightarrow> bytes option" where
  "mi256_value a = (case a of Unknown t v \<Rightarrow> if t = ATTR_MESSAGE_INTEGRITY_SHA256 then Some v else None
             | _ \<Rightarrow> None)"

function find_rec :: "u16 \<Rightarrow> bytes \<Rightarrow> nat \<Rightarrow> nat option" where
  "find_rec t raw pos =
     (if pos + 4 \<le> length raw then
        (if rec_type raw pos = t then Some pos
         else find_rec t raw (pos + 4 + pad4 (rec_len raw pos)))
      else None)"
  by pat_completeness auto
termination
  by (relation "measure (\<lambda>(t, raw, pos). length raw - pos)") auto

declare find_rec.simps [simp del]

section \<open>Signing\<close>

lemma header_set_len:
  "write_at (header_bytes m c l tid @ x) 2 (be16 l') = header_bytes m c l' tid @ x"
  using write_at_run [of 2 "be16 (encode_message_type m c)" "be16 l" "be16 l'"]
  by (simp add: header_bytes_def)

lemma append_tag_eq:
  assumes "length tid = 12" and "4 + k \<le> length r"
    and h: "h = tag (header_bytes m c (of_nat (length w + 4 + k)) tid @ w)" and "length h = k"
  shows "append_tag t k tag (20 + length w, header_bytes m c l tid @ w @ r) =
    Ok (20 + length w + 4 + k,
        header_bytes m c (of_nat (length w + 4 + k)) tid @ w
          @ (be16 t @ be16 (of_nat k) @ h) @ drop (4 + k) r)"
proof -
  obtain T L V E S where r: "r = T @ L @ V @ E @ S" "length T = 2" "length L = 2" "length V = k" "length E = 0"
    using split_run [of 2 2 k 0 r] assms(2) by auto
  let ?H = "header_bytes m c (of_nat (length w + 4 + k)) tid"
  have H: "length ?H = 20" using assms(1) by simp
  have w1: "write_at (?H @ w @ T @ L @ V @ S) (20 + length w) (be16 t) = ?H @ w @ be16 t @ L @ V @ S"
    using r H write_at_run [of "20 + length w" "?H @ w" T "be16 t"] by simp
  have w2: "write_at (?H @ w @ be16 t @ L @ V @ S) (20 + length w + 2) (be16 (of_nat k)) =
      ?H @ w @ be16 t @ be16 (of_nat k) @ V @ S"
    using r H write_at_run [of "20 + length w + 2" "?H @ w @ be16 t" L "be16 (of_nat k)"] by simp
  have w3: "write_at (?H @ w @ be16 t @ be16 (of_nat k) @ V @ S) (20 + length w + 4) h =
      ?H @ w @ be16 t @ be16 (of_nat k) @ h @ S"
    using r H assms(4)
      write_at_run [of "20 + length w + 4" "?H @ w @ be16 t @ be16 (of_nat k)" V h] by simp
  have s: "sliced (?H @ w @ T @ L @ V @ S) 0 (20 + length w) = ?H @ w"
    using H by (simp add: sliced_def)
  have l: "20 + length w - HEADER_SIZE + 4 + k = length w + 4 + k" by (simp add: HEADER_SIZE_def)
  show ?thesis
    unfolding append_tag_def prod.case l
    using r assms w1 w2 w3 s H
    by (simp add: ensure_def wire header_set_len del: of_nat_add)
qed

lemma finish_len_eq:
  "length tid = 12 \<Longrightarrow>
   finish_len (20 + length w, header_bytes m c l tid @ w @ r) =
   Ok (20 + length w, header_bytes m c (of_nat (length w)) tid @ w @ r)"
  by (simp add: finish_len_def wire header_set_len HEADER_SIZE_def)

lemma sign_eq:
  assumes tid: "length (sm_transaction_id msg) = 12"
    and size: "length (wires (sm_transaction_id msg) (sm_attributes msg)) \<le> ATTR_BUF_SIZE"
    and room: "length (message_wire msg) + k + 12 \<le> length buf"
    and tag: "\<And>x. length (tag x) = k" and k: "4 dvd k"
    and mk: "\<And>h. attr_type (mk h) = t" "\<And>h. value_bytes (mk h) (sm_transaction_id msg) = h"
  shows "\<exists>r. encode_signed t k tag crc msg buf =
     (let w = concat (map (attr_wire (sm_transaction_id msg)) (signed_attrs mk k tag crc msg)) in
      Ok (20 + length w, header_bytes (sm_method msg) (sm_class msg) (of_nat (length w)) (sm_transaction_id msg) @ w @ r))"
proof -
  define tid m c w where v: "tid = sm_transaction_id msg" "m = sm_method msg" "c = sm_class msg"
    "w = wires tid (sm_attributes msg)"
  define h where h: "h = tag (header_bytes m c (of_nat (length w + 4 + k)) tid @ w)"
  define r where r: "r = drop (20 + length w) buf"
  define W where W: "W = w @ be16 t @ be16 (of_nat k) @ h"
  define f where f: "f = compute_fingerprint crc (header_bytes m c (of_nat (length W + 4 + 4)) tid @ W)"
  define Z where Z: "Z = W @ be16 ATTR_FINGERPRINT @ be16 4 @ be32 f"
  have l: "length tid = 12" "length h = k" "length W = length w + 4 + k" "length Z = length W + 8"
    "16 \<le> length buf" "4 + k \<le> length r" "8 \<le> length (drop (4 + k) r)"
    using tid tag room by (simp_all add: h W Z r message_wire_def Let_def v)
  have enc: "StunMessage_encode msg buf = Ok (20 + length w, header_bytes m c (of_nat (length w)) tid @ w @ r)"
    using StunMessage_encode_eq [OF tid size] room tid by (simp add: message_wire_def Let_def v r)
  have a1: "append_tag t k tag (20 + length w, header_bytes m c l tid @ w @ r) =
     Ok (20 + length W, header_bytes m c (of_nat (length w + 4 + k)) tid @ W @ drop (4 + k) r)" for l
    using append_tag_eq [of tid k r h tag m c w t l] l h by (simp add: l(3) del: of_nat_add) (simp add: W)
  have a2: "append_tag ATTR_FINGERPRINT 4 (\<lambda>m. be32 (compute_fingerprint crc m))
       (20 + length W, header_bytes m c l tid @ W @ drop (4 + k) r) =
     Ok (20 + length Z, header_bytes m c (of_nat (length W + 4 + 4)) tid @ Z @ drop 8 (drop (4 + k) r))" for l
    using append_tag_eq [OF l(1), of 4 "drop (4 + k) r" "be32 f" "\<lambda>m. be32 (compute_fingerprint crc m)" m c W ATTR_FINGERPRINT l] l(7)
    by (simp add: l(4) f del: of_nat_add) (simp add: Z f)
  have p: "pad4 k = k" "pad4 4 = 4" using k by (simp_all add: pad4_id)
  have wmi: "attr_wire tid (mk h) = be16 t @ be16 (of_nat k) @ h"
    using mk l(2) p by (simp add: attr_wire_def v)
  have "attr_wire tid (Fingerprint f) = be16 ATTR_FINGERPRINT @ be16 4 @ be32 f"
    using p by (simp add: attr_wire_def)
  moreover have "signed_attrs mk k tag crc msg = filter plain_attr (sm_attributes msg) @ [mk h, Fingerprint f]"
    unfolding signed_attrs_def Let_def v(1-3) [symmetric] v(4) [symmetric] h [symmetric] wmi
      W [symmetric] f ..
  ultimately have "concat (map (attr_wire tid) (signed_attrs mk k tag crc msg)) = Z"
    using wmi by (simp add: Z W v(4) wires_def)
  then show ?thesis
    using finish_len_eq [OF l(1)] unfolding v(1-3) [symmetric]
    by (auto simp: encode_signed_def enc a1 a2 Let_def simp del: of_nat_add)
qed

section \<open>The raw walks\<close>

lemma verify_walk_find:
  "verify_walk hm raw key expected pos =
     (case find_rec ATTR_MESSAGE_INTEGRITY raw pos of None \<Rightarrow> False
      | Some p \<Rightarrow> only_fingerprint_after raw (p + 4 + 20)
          \<and> verify_message_integrity hm (adjusted raw p (p - HEADER_SIZE + 24)) key expected)"
  by (induction hm raw key expected pos rule: verify_walk.induct)
     (subst verify_walk.simps, subst find_rec.simps, simp)

lemma verify_walk_sha256_find:
  "verify_walk_sha256 hm raw key expected pos =
     (case find_rec ATTR_MESSAGE_INTEGRITY_SHA256 raw pos of None \<Rightarrow> False
      | Some p \<Rightarrow> only_fingerprint_after raw (p + 4 + pad4 (rec_len raw p))
          \<and> verify_message_integrity_sha256 hm
              (adjusted raw p (p - HEADER_SIZE + 4 + rec_len raw p)) key expected)"
  by (induction hm raw key expected pos rule: verify_walk_sha256.induct)
     (subst verify_walk_sha256.simps, subst find_rec.simps, simp)

lemma find_rec_wires:
  assumes "\<forall>a \<in> set as. attr_type a \<noteq> t \<and> length (value_bytes a tid) \<le> MAX_ATTRIBUTE_VALUE_LEN"
  shows "find_rec t (pre @ concat (map (attr_wire tid) as) @ post) (length pre) =
         find_rec t (pre @ concat (map (attr_wire tid) as) @ post)
           (length pre + length (concat (map (attr_wire tid) as)))"
  using assms
proof (induction as arbitrary: pre)
  case (Cons a as)
  let ?rest = "concat (map (attr_wire tid) as) @ post"
  have "find_rec t (pre @ attr_wire tid a @ ?rest) (length pre) =
        find_rec t ((pre @ attr_wire tid a) @ ?rest) (length (pre @ attr_wire tid a))"
    using Cons.prems
    by (subst find_rec.simps) (simp add: rec_type_wire rec_len_wire length_attr_wire add.assoc)
  with Cons.IH [of "pre @ attr_wire tid a"] Cons.prems show ?case by (simp add: add.assoc)
qed simp

lemma find_rec_hit:
  "attr_type a = t \<Longrightarrow> pos = length pre \<Longrightarrow> find_rec t (pre @ attr_wire tid a @ post) pos = Some pos"
  by (subst find_rec.simps) (simp add: rec_type_wire length_attr_wire)

lemma only_fingerprint_wires:
  assumes "\<forall>a \<in> set as. attr_type a = ATTR_FINGERPRINT \<and> length (value_bytes a tid) \<le> MAX_ATTRIBUTE_VALUE_LEN"
  shows "only_fingerprint_after (pre @ concat (map (attr_wire tid) as)) (length pre)"
  using assms
proof (induction as arbitrary: pre)
  case Nil
  then show ?case by (subst only_fingerprint_after.simps) simp
next
  case (Cons a as)
  from Cons.prems Cons.IH [of "pre @ attr_wire tid a"] show ?case
    by (subst only_fingerprint_after.simps)
       (simp add: rec_type_wire rec_len_wire length_attr_wire add.assoc)
qed

lemma find_rec_laid_out:
  assumes "laid_out raw tid pos as e" and "\<exists>a \<in> set as. attr_type a = t"
  shows "\<exists>pre a post p. as = pre @ a # post \<and> (\<forall>b \<in> set pre. attr_type b \<noteq> t) \<and> attr_type a = t
    \<and> find_rec t raw pos = Some p \<and> laid_out raw tid pos pre p \<and> laid_out raw tid p (a # post) e"
  using assms
proof (induction as arbitrary: pos)
  case (Cons b as)
  show ?case
  proof (cases "attr_type b = t")
    case True
    with Cons.prems(1) have "find_rec t raw pos = Some pos"
      by (subst find_rec.simps) (auto simp: Let_def)
    with True Cons.prems(1) show ?thesis
      by (intro exI [of _ "[]"] exI [of _ b] exI [of _ as] exI [of _ pos]) simp
  next
    case False
    let ?pos' = "pos + 4 + pad4 (rec_len raw pos)"
    have f: "find_rec t raw pos = find_rec t raw ?pos'"
      using Cons.prems(1) False by (subst find_rec.simps) (auto simp: Let_def)
    have "laid_out raw tid ?pos' as e" "\<exists>a \<in> set as. attr_type a = t"
      using Cons.prems False by (auto simp: Let_def)
    from Cons.IH [OF this] obtain pre a post p where
      "as = pre @ a # post" "\<forall>b \<in> set pre. attr_type b \<noteq> t"
      "attr_type a = t" "find_rec t raw ?pos' = Some p" "laid_out raw tid ?pos' pre p"
      "laid_out raw tid p (a # post) e"
      by (elim exE conjE)
    with Cons.prems(1) f False show ?thesis
      by (intro exI [of _ "b # pre"] exI [of _ a] exI [of _ post] exI [of _ p]) (simp add: Let_def)
  qed
qed simp

lemma only_fingerprint_laid_out:
  "laid_out raw tid pos as e \<Longrightarrow> only_fingerprint_after raw pos \<Longrightarrow> a \<in> set as \<Longrightarrow>
   \<exists>fp. a = Fingerprint fp"
proof (induction as arbitrary: pos)
  case (Cons b as)
  from Cons.prems(1,2) have "rec_type raw pos = ATTR_FINGERPRINT"
    "only_fingerprint_after raw (pos + 4 + pad4 (rec_len raw pos))"
    by (simp_all add: only_fingerprint_after.simps [of raw pos] Let_def split: if_splits)
  moreover from this Cons.prems(1) obtain v where "decode_attr ATTR_FINGERPRINT v tid = Ok b"
    by (auto simp: Let_def)
  then have "\<exists>fp. b = Fingerprint fp"
    by (auto simp: decode_attr_def rust_const bind_res_Ok_iff wrong_len_def split: if_splits)
  ultimately show ?case using Cons by (auto simp: Let_def)
qed simp

lemma laid_out_shift:
  assumes "laid_out (sliced raw k t) tid pos as e" and "k \<le> t" and "t \<le> length raw"
  shows "laid_out raw tid (k + pos) as (k + e)"
  using assms(1)
proof (induction as arbitrary: pos)
  case (Cons a as)
  let ?b = "sliced raw k t"
  have le: "pos + 4 + pad4 (rec_len ?b pos) \<le> t - k" 
    using Cons.prems assms(2,3) by (simp add: Let_def)
  then have "pos + 4 + rec_len ?b pos \<le> t - k" using pad4_bounds(1) [of "rec_len ?b pos"] by linarith
  moreover have "rec_type ?b pos = rec_type raw (k + pos)" "rec_len ?b pos = rec_len raw (k + pos)"
    using le by (simp_all add: rec_type_def rec_len_def sliced_sliced add.assoc)
  moreover have "k + (pos + 4 + pad4 (rec_len ?b pos)) \<le> length raw" using le assms(2,3) by linarith
  ultimately show ?case
    using Cons.prems Cons.IH [of "pos + 4 + pad4 (rec_len ?b pos)"] le assms(2,3)
    by (simp add: Let_def sliced_sliced add.assoc)
qed simp

lemma StunMessage_decode_laid_out:
  assumes "StunMessage_decode raw = Ok msg"
  shows "\<exists>total. laid_out raw (sm_transaction_id msg) HEADER_SIZE (sm_attributes msg) total
           \<and> total \<le> length raw"
proof -
  from assms obtain h where h: "MessageHeader_decode raw = Ok h"
    and t: "HEADER_SIZE + unat (h_length h) \<le> length raw"
    and tid: "sm_transaction_id msg = h_transaction_id h"
    and p: "parse_attributes (sliced raw HEADER_SIZE (HEADER_SIZE + unat (h_length h)))
              (h_transaction_id h) = Ok (sm_attributes msg)"
    by (auto simp: StunMessage_decode_def Let_def bind_res_Ok_iff slice_r_def not_less split: if_splits)
  show ?thesis
    using laid_out_shift [OF parse_attributes_laid_out [OF p]] t tid by auto
qed

section \<open>Verification\<close>

lemma mi_value_Some: "mi_value a = Some h \<longleftrightarrow> a = MessageIntegrity h"
  by (cases a) (auto simp: mi_value_def)

lemma mi256_value_Some: "mi256_value a = Some h \<longleftrightarrow> a = Unknown ATTR_MESSAGE_INTEGRITY_SHA256 h"
  by (cases a) (auto simp: mi256_value_def)

lemma get_mi: "get_message_integrity msg = find_map mi_value (sm_attributes msg)"
  unfolding get_message_integrity_def sm_get_def mi_value_def ..

lemma get_mi256: "get_message_integrity_sha256 msg = find_map mi256_value (sm_attributes msg)"
  unfolding get_message_integrity_sha256_def sm_get_def mi256_value_def ..

text \<open>
  The common part of both verifications: the record the raw walk stops at is the attribute the
  accessor returned, and what follows it satisfies the raw check from there on.
\<close>

lemma tag_located:
  assumes dec: "StunMessage_decode raw = Ok msg" and get: "find_map f (sm_attributes msg) = Some ex"
    and f: "\<And>a h. f a = Some h \<Longrightarrow> attr_type a = t" and d: "\<And>v tid. decode_attr t v tid = Ok (mk v) \<or> (\<forall>a. decode_attr t v tid \<noteq> Ok a)"
    and mk: "\<And>v. f (mk v) = Some v"
  shows "\<exists>pre fps p total. sm_attributes msg = pre @ mk ex # fps
     \<and> (\<forall>a \<in> set pre. attr_type a \<noteq> t)
     \<and> find_rec t raw HEADER_SIZE = Some p
     \<and> ex = sliced raw (p + 4) (p + 4 + rec_len raw p) \<and> length ex = rec_len raw p
     \<and> laid_out raw (sm_transaction_id msg) HEADER_SIZE pre p
     \<and> laid_out raw (sm_transaction_id msg) (p + 4 + pad4 (rec_len raw p)) fps total"
proof -
  let ?tid = "sm_transaction_id msg"
  obtain total where lay: "laid_out raw ?tid HEADER_SIZE (sm_attributes msg) total"
    using StunMessage_decode_laid_out [OF dec] by auto
  have "\<exists>a \<in> set (sm_attributes msg). attr_type a = t"
    using find_map_Some [OF get] f by blast
  from find_rec_laid_out [OF lay this] obtain pre a post p where
    s: "sm_attributes msg = pre @ a # post" "\<forall>b \<in> set pre. attr_type b \<noteq> t" "attr_type a = t"
    and p: "find_rec t raw HEADER_SIZE = Some p"
    and l: "laid_out raw ?tid HEADER_SIZE pre p" "laid_out raw ?tid p (a # post) total"
    by (elim exE conjE)
  let ?v = "sliced raw (p + 4) (p + 4 + rec_len raw p)"
  from l(2) s(3) have "decode_attr t ?v ?tid = Ok a" "p + 4 + pad4 (rec_len raw p) \<le> length raw"
    and rest: "laid_out raw ?tid (p + 4 + pad4 (rec_len raw p)) post total"
    by (simp_all add: Let_def)
  then have a: "a = mk ?v" and "length ?v = rec_len raw p"
    using d [of ?v ?tid] pad4_bounds(1) [of "rec_len raw p"] by auto
  moreover have "find_map f pre = None"
    using s(2) f by (metis find_map_None option.exhaust)
  then have "ex = ?v" using get by (simp add: s(1) a mk find_map_append)
  ultimately show ?thesis using s(1,2) p l(1) rest by blast
qed

lemma decode_attr_mi: "decode_attr ATTR_MESSAGE_INTEGRITY v tid = Ok (MessageIntegrity v) \<or>
   (\<forall>a. decode_attr ATTR_MESSAGE_INTEGRITY v tid \<noteq> Ok a)"
  by (simp add: decode_attr_def rust_const wrong_len_def)

lemma decode_attr_mi_len: "decode_attr ATTR_MESSAGE_INTEGRITY v tid = Ok a \<Longrightarrow> length v = 20"
  by (simp add: decode_attr_def rust_const wrong_len_def split: if_splits)

lemma decode_attr_mi256: "decode_attr ATTR_MESSAGE_INTEGRITY_SHA256 v tid =
    Ok (Unknown ATTR_MESSAGE_INTEGRITY_SHA256 v)"
  by (simp add: decode_attr_def rust_const)

text \<open>
  C8. What \<open>verify_integrity\<close> accepts is authenticated: the attributes of the message are the ones
  laid out in the signed prefix, then the MESSAGE-INTEGRITY tag, then only FINGERPRINTs, and the
  tag is the HMAC of the prefix with its length field set to end at the tag. So no attribute an
  accessor can return lies outside the signed bytes.
\<close>

theorem integrity_sound:
  assumes "StunMessage_decode raw = Ok msg" and "verify_integrity hm msg raw key"
  shows "\<exists>pre tag fps p. sm_attributes msg = pre @ MessageIntegrity tag # fps
     \<and> (\<forall>a \<in> set pre. attr_type a \<noteq> ATTR_MESSAGE_INTEGRITY)
     \<and> (\<forall>a \<in> set fps. \<exists>fp. a = Fingerprint fp)
     \<and> laid_out raw (sm_transaction_id msg) HEADER_SIZE pre p
     \<and> tag = hm key (adjusted raw p (p - HEADER_SIZE + 24))"
proof -
  from assms(2) obtain ex where ex: "find_map mi_value (sm_attributes msg) = Some ex"
    "verify_walk hm raw key ex HEADER_SIZE"
    by (auto simp: verify_integrity_def get_mi split: option.splits)
  obtain pre fps p total where s: "sm_attributes msg = pre @ MessageIntegrity ex # fps"
    "\<forall>a \<in> set pre. attr_type a \<noteq> ATTR_MESSAGE_INTEGRITY"
    "find_rec ATTR_MESSAGE_INTEGRITY raw HEADER_SIZE = Some p" "length ex = rec_len raw p"
    "laid_out raw (sm_transaction_id msg) HEADER_SIZE pre p"
    "laid_out raw (sm_transaction_id msg) (p + 4 + pad4 (rec_len raw p)) fps total"
    using tag_located [OF assms(1) ex(1), where mk = MessageIntegrity and t = ATTR_MESSAGE_INTEGRITY]
      decode_attr_mi by (auto simp: mi_value_Some)
  have "typed_attr (MessageIntegrity ex)"
    using s(1) StunMessage_decode_laid_out [OF assms(1)] laid_out_typed by fastforce
  then have "pad4 (rec_len raw p) = 20" using s(4) by (simp add: pad4_def)
  moreover have "only_fingerprint_after raw (p + 4 + 20)"
    "hm key (adjusted raw p (p - HEADER_SIZE + 24)) = ex"
    using ex(2) s(3) by (simp_all add: verify_walk_find verify_message_integrity_def)
  ultimately show ?thesis
    using s only_fingerprint_laid_out by (metis)
qed

theorem integrity_sound_witness:
  "\<exists>pre tag fps. sm_attributes sample_signed_msg = pre @ MessageIntegrity tag # fps
     \<and> tag = replicate 20 7"
proof -
  have "verify_integrity (\<lambda>key m. replicate 20 7) sample_signed_msg sample_signed []" by code_simp
  from integrity_sound [OF sample_signed_decodes this] show ?thesis by blast
qed

text \<open>
  C28. The same for MESSAGE-INTEGRITY-SHA256: everything but trailing FINGERPRINTs is in the signed
  prefix, and the tag is a left truncation, of at least 16 bytes, of the HMAC of that prefix.
\<close>

theorem integrity_sha256_sound:
  assumes "StunMessage_decode raw = Ok msg" and "verify_integrity_sha256 hm msg raw key"
  shows "\<exists>pre tag fps p. sm_attributes msg = pre @ Unknown ATTR_MESSAGE_INTEGRITY_SHA256 tag # fps
     \<and> (\<forall>a \<in> set pre. attr_type a \<noteq> ATTR_MESSAGE_INTEGRITY_SHA256)
     \<and> (\<forall>a \<in> set fps. \<exists>fp. a = Fingerprint fp)
     \<and> laid_out raw (sm_transaction_id msg) HEADER_SIZE pre p
     \<and> 16 \<le> length tag
     \<and> tag = take (length tag) (hm key (adjusted raw p (p - HEADER_SIZE + 4 + length tag)))"
proof -
  from assms(2) obtain ex where ex: "find_map mi256_value (sm_attributes msg) = Some ex"
    "verify_walk_sha256 hm raw key ex HEADER_SIZE"
    by (auto simp: verify_integrity_sha256_def get_mi256 split: option.splits)
  obtain pre fps p total where
    s: "sm_attributes msg = pre @ Unknown ATTR_MESSAGE_INTEGRITY_SHA256 ex # fps"
    "\<forall>a \<in> set pre. attr_type a \<noteq> ATTR_MESSAGE_INTEGRITY_SHA256"
    "find_rec ATTR_MESSAGE_INTEGRITY_SHA256 raw HEADER_SIZE = Some p" "length ex = rec_len raw p"
    "laid_out raw (sm_transaction_id msg) HEADER_SIZE pre p"
    "laid_out raw (sm_transaction_id msg) (p + 4 + pad4 (rec_len raw p)) fps total"
    using tag_located [OF assms(1) ex(1), where mk = "Unknown ATTR_MESSAGE_INTEGRITY_SHA256"
        and t = ATTR_MESSAGE_INTEGRITY_SHA256] decode_attr_mi256
    by (auto simp: mi256_value_Some)
  have v: "only_fingerprint_after raw (p + 4 + pad4 (rec_len raw p))"
    "verify_message_integrity_sha256 hm (adjusted raw p (p - HEADER_SIZE + 4 + length ex)) key ex"
    using ex(2) s(3,4) by (simp_all add: verify_walk_sha256_find)
  then have "16 \<le> length ex"
    "ex = take (length ex) (hm key (adjusted raw p (p - HEADER_SIZE + 4 + length ex)))"
    by (auto simp: verify_message_integrity_sha256_def Let_def split: if_splits)
  then show ?thesis
    using s v(1) only_fingerprint_laid_out by metis
qed

definition sample_sha256 :: bytes where
  "sample_sha256 = [0, 1, 0, 20, 0x21, 0x12, 0xA4, 0x42] @ replicate 12 0 @ [0, 0x1C, 0, 16] @ replicate 16 7"

definition sample_sha256_msg :: stun_message where
  "sample_sha256_msg = \<lparr> sm_class = Request, sm_method = M_Binding, sm_transaction_id = replicate 12 0,
     sm_attributes = [Unknown 0x1C (replicate 16 7)] \<rparr>"

theorem integrity_sha256_sound_witness:
  "\<exists>pre tag fps. sm_attributes sample_sha256_msg = pre @ Unknown ATTR_MESSAGE_INTEGRITY_SHA256 tag # fps
     \<and> 16 \<le> length tag"
proof -
  have d: "StunMessage_decode sample_sha256 = Ok sample_sha256_msg" by code_simp
  have "verify_integrity_sha256 (\<lambda>key m. replicate 32 7) sample_sha256_msg sample_sha256 []"
    by code_simp
  from integrity_sha256_sound [OF d this] show ?thesis by blast
qed

section \<open>Signing is verified\<close>

text \<open>
  A signed message as the walks see it: header, plain attributes, the tag record, the
  fingerprint record.
\<close>

lemma signed_walk:
  assumes tid: "length tid = 12"
    and as: "\<forall>a \<in> set as. attr_type a \<noteq> t \<and> length (value_bytes a tid) \<le> MAX_ATTRIBUTE_VALUE_LEN"
    and mi: "attr_type mi = t" "length (value_bytes mi tid) = k" "k \<le> MAX_ATTRIBUTE_VALUE_LEN" "4 dvd k"
    and w: "w = concat (map (attr_wire tid) as)" and p: "p = 20 + length w"
    and raw: "raw = header_bytes m c l tid @ w @ attr_wire tid mi @ attr_wire tid (Fingerprint fp)"
  shows "find_rec t raw HEADER_SIZE = Some p" "rec_len raw p = k"
    "only_fingerprint_after raw (p + 4 + k)"
    "adjusted raw p n = header_bytes m c (of_nat n) tid @ w"
proof -
  let ?H = "header_bytes m c l tid" and ?F = "attr_wire tid (Fingerprint fp)"
  have H: "length ?H = 20" using tid by simp
  have "find_rec t raw (length ?H) = find_rec t raw (length ?H + length w)"
    using find_rec_wires [OF as, of ?H "attr_wire tid mi @ ?F"] by (simp only: raw w)
  then show "find_rec t raw HEADER_SIZE = Some p"
    using find_rec_hit [OF mi(1), of p "?H @ w" tid ?F] H by (simp add: raw p HEADER_SIZE_def)
  show "rec_len raw p = k"
    using rec_len_wire [of p "?H @ w" mi tid ?F] mi H by (simp add: raw p)
  have "length (attr_wire tid mi) = 4 + k" using mi by (simp add: length_attr_wire pad4_id)
  then show "only_fingerprint_after raw (p + 4 + k)"
    using only_fingerprint_wires [of "[Fingerprint fp]" tid "?H @ w @ attr_wire tid mi"] H
    by (simp add: raw p rust_const add.assoc)
  have "take p raw = ?H @ w" using H by (simp add: raw p)
  then show "adjusted raw p n = header_bytes m c (of_nat n) tid @ w"
    by (simp add: adjusted_def header_set_len)
qed

lemma signed_decodes:
  assumes wf: "wf_message msg"
    and "length (filter plain_attr (sm_attributes msg)) + 2 \<le> MAX_ATTRIBUTES_PER_MESSAGE"
    and "signed_size k msg \<le> HEADER_SIZE + unat MAX_MESSAGE_LEN" and "signed_size k msg \<le> length buf"
    and tag: "\<And>x. length (tag x) = k" and k: "4 dvd k"
    and mk: "\<And>h. attr_type (mk h) = t" "\<And>h. value_bytes (mk h) (sm_transaction_id msg) = h"
       "\<And>h. length h = k \<Longrightarrow> fits_attr (sm_transaction_id msg) (mk h)"
  shows "\<exists>n buf'. encode_signed t k tag crc msg buf = Ok (n, buf')
    \<and> StunMessage_decode (take n buf') = Ok (msg\<lparr>sm_attributes := signed_attrs mk k tag crc msg\<rparr>)
    \<and> take n buf' =
        (let w = concat (map (attr_wire (sm_transaction_id msg)) (signed_attrs mk k tag crc msg))
         in header_bytes (sm_method msg) (sm_class msg) (of_nat (length w)) (sm_transaction_id msg) @ w)"
proof -
  let ?tid = "sm_transaction_id msg" and ?as = "signed_attrs mk k tag crc msg"
  let ?w = "concat (map (attr_wire ?tid) ?as)"
  have tid: "length ?tid = 12" using wf by (simp add: wf_message_def)
  have sz: "length ?w = length (wires ?tid (sm_attributes msg)) + 4 + k + 8"
    using k tag mk(2)
    by (simp add: signed_attrs_def Let_def wires_def length_attr_wire pad4_id)
  have small: "length (wires ?tid (sm_attributes msg)) \<le> ATTR_BUF_SIZE" "length ?w \<le> unat MAX_MESSAGE_LEN"
    using assms(3) tid unfolding sz by (simp_all add: signed_size_def message_wire_def Let_def rust_const)
  obtain r where e: "encode_signed t k tag crc msg buf = Ok (20 + length ?w, header_bytes (sm_method msg) (sm_class msg) (of_nat (length ?w)) ?tid @ ?w @ r)"
    using sign_eq [where tag = tag and mk = mk and buf = buf and crc = crc,
        OF tid small(1) _ tag k mk(1,2)] assms(4)
    by (auto simp: signed_size_def Let_def)
  have "\<forall>a \<in> set ?as. fits_attr ?tid a" "length ?as \<le> MAX_ATTRIBUTES_PER_MESSAGE"
    using wf assms(2) mk(3) tag
    by (auto simp: signed_attrs_def Let_def wf_message_def list_all_iff fits_attr_def rust_const)
  then have "StunMessage_decode (header_bytes (sm_method msg) (sm_class msg) (of_nat (length ?w)) ?tid @ ?w) =
     Ok (msg\<lparr>sm_attributes := ?as\<rparr>)"
    using StunMessage_decode_wire [of ?as ?tid ?w "sm_method msg" "sm_class msg" "[]"] tid small(2)
    by simp
  then show ?thesis using e tid
    by (intro exI [of _ "20 + length ?w"] exI [of _ "header_bytes (sm_method msg) (sm_class msg) (of_nat (length ?w)) ?tid @ ?w @ r"])
       (simp add: Let_def)
qed

lemma signed_message:
  assumes wf: "wf_message msg"
    and cnt: "length (filter plain_attr (sm_attributes msg)) + 2 \<le> MAX_ATTRIBUTES_PER_MESSAGE"
    and sz: "signed_size k msg \<le> HEADER_SIZE + unat MAX_MESSAGE_LEN" and buf: "signed_size k msg \<le> length buf"
    and tag: "\<And>x. length (tag x) = k" and k: "4 dvd k" "k \<le> MAX_ATTRIBUTE_VALUE_LEN"
    and mk: "\<And>h. attr_type (mk h) = t" "\<And>h. value_bytes (mk h) (sm_transaction_id msg) = h"
       "\<And>h. length h = k \<Longrightarrow> fits_attr (sm_transaction_id msg) (mk h)"
    and no: "\<forall>a \<in> set (filter plain_attr (sm_attributes msg)). attr_type a \<noteq> t"
  shows "\<exists>n buf' mi fp p. encode_signed t k tag crc msg buf = Ok (n, buf')
    \<and> StunMessage_decode (take n buf') = Ok (msg\<lparr>sm_attributes :=
         filter plain_attr (sm_attributes msg) @ [mk mi, Fingerprint fp]\<rparr>)
    \<and> find_rec t (take n buf') HEADER_SIZE = Some p \<and> rec_len (take n buf') p = k
    \<and> only_fingerprint_after (take n buf') (p + 4 + k)
    \<and> length mi = k \<and> mi = tag (adjusted (take n buf') p (p - HEADER_SIZE + 4 + k))"
proof -
  let ?tid = "sm_transaction_id msg" and ?as = "filter plain_attr (sm_attributes msg)"
  define w where "w = wires ?tid (sm_attributes msg)"
  define mi where "mi = tag (header_bytes (sm_method msg) (sm_class msg) (of_nat (length w + 4 + k)) ?tid @ w)"
  define fp where "fp = compute_fingerprint crc (header_bytes (sm_method msg) (sm_class msg)
     (of_nat (length (w @ attr_wire ?tid (mk mi)) + 4 + 4)) ?tid @ w @ attr_wire ?tid (mk mi))"
  have tid: "length ?tid = 12" using wf by (simp add: wf_message_def)
  have w: "w = concat (map (attr_wire ?tid) ?as)" by (simp add: w_def wires_def)
  have s: "signed_attrs mk k tag crc msg = ?as @ [mk mi, Fingerprint fp]"
    unfolding signed_attrs_def Let_def w_def [symmetric] mi_def [symmetric] fp_def append_assoc ..
  from signed_decodes [where tag = tag and mk = mk and crc = crc, OF wf cnt sz buf tag k(1) mk,
      unfolded s Let_def] obtain n buf' l where
    e: "encode_signed t k tag crc msg buf = Ok (n, buf')"
    "StunMessage_decode (take n buf') = Ok (msg\<lparr>sm_attributes := ?as @ [mk mi, Fingerprint fp]\<rparr>)"
    and raw: "take n buf' = header_bytes (sm_method msg) (sm_class msg) l ?tid @ w
      @ attr_wire ?tid (mk mi) @ attr_wire ?tid (Fingerprint fp)"
    by (auto simp: w)
  have as: "\<forall>a \<in> set ?as. attr_type a \<noteq> t \<and> length (value_bytes a ?tid) \<le> MAX_ATTRIBUTE_VALUE_LEN"
    using wf no by (auto simp: wf_message_def list_all_iff fits_attr_def)
  have mi: "length mi = k" "length (value_bytes (mk mi) ?tid) = k" by (simp_all add: mi_def tag mk(2))
  note sw = signed_walk [OF tid as mk(1) mi(2) k(2,1) w refl raw]
  have "mi = tag (adjusted (take n buf') (20 + length w) (20 + length w - HEADER_SIZE + 4 + k))"
    unfolding sw(4) by (simp add: mi_def HEADER_SIZE_def del: of_nat_add)
  then show ?thesis using e sw(1-3) mi(1) by blast
qed

lemma encode_with_integrity_accepted:
  assumes "wf_message msg"
    and "length (filter plain_attr (sm_attributes msg)) + 2 \<le> MAX_ATTRIBUTES_PER_MESSAGE"
    and "signed_size 20 msg \<le> HEADER_SIZE + unat MAX_MESSAGE_LEN" and "signed_size 20 msg \<le> length buf"
    and "\<And>k m. length (hm k m) = 20"
  obtains n buf' tag fp where "encode_with_integrity hm crc msg buf key = Ok (n, buf')"
    and "StunMessage_decode (take n buf') = Ok (msg\<lparr>sm_attributes :=
           filter plain_attr (sm_attributes msg) @ [MessageIntegrity tag, Fingerprint fp]\<rparr>)"
    and "verify_integrity hm (msg\<lparr>sm_attributes :=
           filter plain_attr (sm_attributes msg) @ [MessageIntegrity tag, Fingerprint fp]\<rparr>) (take n buf') key"
proof -
  have no: "find_map mi_value (filter plain_attr (sm_attributes msg)) = None"
    by (auto simp: find_map_None mi_value_def plain_attr_def split: attribute.splits)
  have "4 dvd (20 :: nat)" "20 \<le> MAX_ATTRIBUTE_VALUE_LEN"
    "\<And>h. length h = 20 \<Longrightarrow> fits_attr (sm_transaction_id msg) (MessageIntegrity h)"
    "\<forall>a \<in> set (filter plain_attr (sm_attributes msg)). attr_type a \<noteq> ATTR_MESSAGE_INTEGRITY"
    by (simp_all add: fits_attr_def rust_const plain_attr_def)
  from signed_message [where tag = "\<lambda>m. compute_message_integrity hm m key" and t = ATTR_MESSAGE_INTEGRITY
      and mk = MessageIntegrity and crc = crc, OF assms(1-4) _ this(1,2) _ _ this(3,4)]
  obtain n buf' mi fp p where e: "encode_with_integrity hm crc msg buf key = Ok (n, buf')"
    "StunMessage_decode (take n buf') = Ok (msg\<lparr>sm_attributes :=
         filter plain_attr (sm_attributes msg) @ [MessageIntegrity mi, Fingerprint fp]\<rparr>)"
    and v: "find_rec ATTR_MESSAGE_INTEGRITY (take n buf') HEADER_SIZE = Some p"
    "only_fingerprint_after (take n buf') (p + 4 + 20)"
    "mi = hm key (adjusted (take n buf') p (p - HEADER_SIZE + 4 + 20))"
    using assms(5) unfolding encode_with_integrity_def compute_message_integrity_def by auto
  have "verify_integrity hm (msg\<lparr>sm_attributes :=
      filter plain_attr (sm_attributes msg) @ [MessageIntegrity mi, Fingerprint fp]\<rparr>) (take n buf') key"
    using no v
    by (simp add: verify_integrity_def get_mi find_map_append mi_value_def verify_walk_find
        verify_message_integrity_def add.assoc)
  with e show thesis by (rule that)
qed

text \<open>
  C27. What \<open>encode_with_integrity\<close> signs, the peer accepts: for every message within the decoder's
  limits the encoder succeeds, the decoder returns the plain attributes followed by the tag and the
  fingerprint, and \<open>verify_integrity\<close> with the same key answers true. The HMAC is any function
  with 20-byte results.
\<close>

theorem integrity_complete:
  assumes "wf_message msg"
    and "length (filter plain_attr (sm_attributes msg)) + 2 \<le> MAX_ATTRIBUTES_PER_MESSAGE"
    and "signed_size 20 msg \<le> HEADER_SIZE + unat MAX_MESSAGE_LEN" and "signed_size 20 msg \<le> length buf"
    and "\<And>k m. length (hm k m) = 20"
  shows "\<exists>n buf' msg'. encode_with_integrity hm crc msg buf key = Ok (n, buf')
     \<and> StunMessage_decode (take n buf') = Ok msg'
     \<and> (\<exists>tag fp. sm_attributes msg' = filter plain_attr (sm_attributes msg) @ [MessageIntegrity tag, Fingerprint fp])
     \<and> verify_integrity hm msg' (take n buf') key"
  by (rule encode_with_integrity_accepted [where hm = hm and crc = crc and key = key, OF assms]) auto

theorem integrity_complete_witness:
  "\<exists>n buf' msg'. encode_with_integrity (\<lambda>k m. replicate 20 (of_nat (length m))) (\<lambda>m. 5)
       sample_allocate (replicate 100 0) [1, 2] = Ok (n, buf')
     \<and> StunMessage_decode (take n buf') = Ok msg'
     \<and> verify_integrity (\<lambda>k m. replicate 20 (of_nat (length m))) msg' (take n buf') [1, 2]"
  using integrity_complete [of sample_allocate "replicate 100 0"
      "\<lambda>k m. replicate 20 (of_nat (length m))" "\<lambda>m. 5" "[1, 2]"] sample_allocate_ok
  by (auto simp: rust_const signed_size_def)

text \<open>
  What \<open>encode_with_integrity_sha256\<close> signs, \<open>verify_integrity_sha256\<close> accepts, for every message
  within the decoder's limits that does not already carry a MESSAGE-INTEGRITY-SHA256 attribute.
\<close>

theorem integrity_sha256_complete:
  assumes "wf_message msg"
    and "length (filter plain_attr (sm_attributes msg)) + 2 \<le> MAX_ATTRIBUTES_PER_MESSAGE"
    and "signed_size 32 msg \<le> HEADER_SIZE + unat MAX_MESSAGE_LEN" and "signed_size 32 msg \<le> length buf"
    and "\<forall>a \<in> set (sm_attributes msg). attr_type a \<noteq> ATTR_MESSAGE_INTEGRITY_SHA256"
    and "\<And>k m. length (hm k m) = 32"
  shows "\<exists>n buf' msg'. encode_with_integrity_sha256 hm crc msg buf key = Ok (n, buf')
     \<and> StunMessage_decode (take n buf') = Ok msg'
     \<and> (\<exists>tag fp. sm_attributes msg' = filter plain_attr (sm_attributes msg)
          @ [Unknown ATTR_MESSAGE_INTEGRITY_SHA256 tag, Fingerprint fp])
     \<and> verify_integrity_sha256 hm msg' (take n buf') key"
proof -
  let ?t = ATTR_MESSAGE_INTEGRITY_SHA256
  have no: "find_map mi256_value (filter plain_attr (sm_attributes msg)) = None"
    using assms(5) by (auto simp: find_map_None mi256_value_def split: attribute.splits)
  have "4 dvd (32 :: nat)" "32 \<le> MAX_ATTRIBUTE_VALUE_LEN"
    "\<And>h. length h = 32 \<Longrightarrow> fits_attr (sm_transaction_id msg) (Unknown ?t h)"
    "\<forall>a \<in> set (filter plain_attr (sm_attributes msg)). attr_type a \<noteq> ?t"
    using assms(5) by (simp_all add: fits_attr_def rust_const unread_value_def typed_codes_def)
  from signed_message [where tag = "\<lambda>m. compute_message_integrity_sha256 hm m key" and t = ?t
      and mk = "Unknown ?t" and crc = crc, OF assms(1-4) _ this(1,2) _ _ this(3,4)]
  obtain n buf' mi fp p where e: "encode_with_integrity_sha256 hm crc msg buf key = Ok (n, buf')"
    "StunMessage_decode (take n buf') = Ok (msg\<lparr>sm_attributes :=
         filter plain_attr (sm_attributes msg) @ [Unknown ?t mi, Fingerprint fp]\<rparr>)"
    and v: "find_rec ?t (take n buf') HEADER_SIZE = Some p" "rec_len (take n buf') p = 32"
    "only_fingerprint_after (take n buf') (p + 4 + 32)" "length mi = 32"
    "mi = hm key (adjusted (take n buf') p (p - HEADER_SIZE + 4 + 32))"
    using assms(6) unfolding encode_with_integrity_sha256_def compute_message_integrity_sha256_def by auto
  have "pad4 32 = 32" by (simp add: pad4_def)
  then have "verify_integrity_sha256 hm (msg\<lparr>sm_attributes :=
      filter plain_attr (sm_attributes msg) @ [Unknown ?t mi, Fingerprint fp]\<rparr>) (take n buf') key"
    using no v
    by (simp add: verify_integrity_sha256_def get_mi256 find_map_append mi256_value_def
        verify_walk_sha256_find verify_message_integrity_sha256_def add.assoc)
  with e show ?thesis by auto
qed

theorem integrity_sha256_complete_witness:
  "\<exists>n buf' msg'. encode_with_integrity_sha256 (\<lambda>k m. replicate 32 (of_nat (length m))) (\<lambda>m. 5)
       sample_allocate (replicate 100 0) [1, 2] = Ok (n, buf')
     \<and> StunMessage_decode (take n buf') = Ok msg'
     \<and> verify_integrity_sha256 (\<lambda>k m. replicate 32 (of_nat (length m))) msg' (take n buf') [1, 2]"
proof -
  have "\<forall>a \<in> set (sm_attributes sample_allocate). attr_type a \<noteq> ATTR_MESSAGE_INTEGRITY_SHA256"
    by (simp add: sample_allocate_def rust_const)
  then show ?thesis
    using integrity_sha256_complete [of sample_allocate "replicate 100 0"
        "\<lambda>k m. replicate 32 (of_nat (length m))" "\<lambda>m. 5" "[1, 2]"] sample_allocate_ok
    by (auto simp: rust_const signed_size_def)
qed

end
