(* ===== verification/Crypto.thy ===== *)
theory Crypto
  imports Ip_Text Stun_Integrity
begin

text \<open>
  The crypto crate (\<^verbatim>\<open>crates/crypto/src/lib.rs\<close>): stateless client nonces, long-term keys, the
  hand-written HMAC-SHA-256 and TURN REST credentials. The primitives come from other crates (hmac, md-5,
  sha2, base64, aes-gcm); they are the fields of a record the definitions take as an argument, and what
  the code relies on is stated as named laws about that record. Random bytes and clock readings
  are arguments.
\<close>

section \<open>Primitives\<close>

record crypto =
  c_hmac_sha1 :: mac
  c_hmac_sha256 :: mac
  c_verify_left :: "bytes \<Rightarrow> bytes \<Rightarrow> bytes \<Rightarrow> bool" \<comment> \<open>HMAC-SHA-1 \<^verbatim>\<open>verify_truncated_left\<close>: key, message, tag\<close>
  c_verify_slice :: "bytes \<Rightarrow> bytes \<Rightarrow> bytes \<Rightarrow> bool" \<comment> \<open>HMAC-SHA-256 \<^verbatim>\<open>verify_slice\<close>: key, message, tag\<close>
  c_md5 :: "bytes \<Rightarrow> bytes"
  c_sha256 :: "bytes \<Rightarrow> bytes"
  c_b64 :: "bytes \<Rightarrow> string" \<comment> \<open>standard alphabet\<close>
  c_b64url :: "bytes \<Rightarrow> string" \<comment> \<open>URL-safe alphabet without padding\<close>
  c_unb64url :: "string \<Rightarrow> bytes option"
  c_gcm_seal :: "bytes \<Rightarrow> bytes \<Rightarrow> bytes \<Rightarrow> bytes \<Rightarrow> bytes option" \<comment> \<open>key, nonce, associated data, message\<close>
  c_gcm_open :: "bytes \<Rightarrow> bytes \<Rightarrow> bytes \<Rightarrow> bytes \<Rightarrow> bytes option" \<comment> \<open>key, nonce, associated data, ciphertext\<close>

text \<open>
  Documented behaviour of the primitives: HMAC tags have the length of the digest,
  \<^verbatim>\<open>verify_truncated_left\<close> compares a non-empty tag with the leading bytes of the computed one,
  \<^verbatim>\<open>verify_slice\<close> compares the whole tag, decoding inverts encoding, and opening inverts sealing.
\<close>

definition hmac_lengths :: "crypto \<Rightarrow> bool" where
  "hmac_lengths C \<longleftrightarrow> (\<forall>k m. length (c_hmac_sha1 C k m) = 20 \<and> length (c_hmac_sha256 C k m) = 32)"

definition verify_left_law :: "crypto \<Rightarrow> bool" where
  "verify_left_law C \<longleftrightarrow>
     (\<forall>k m t. c_verify_left C k m t \<longleftrightarrow> t \<noteq> [] \<and> length t \<le> length (c_hmac_sha1 C k m)
        \<and> t = take (length t) (c_hmac_sha1 C k m))"

definition verify_slice_law :: "crypto \<Rightarrow> bool" where
  "verify_slice_law C \<longleftrightarrow> (\<forall>k m t. c_verify_slice C k m t \<longleftrightarrow> t = c_hmac_sha256 C k m)"

definition b64url_law :: "crypto \<Rightarrow> bool" where
  "b64url_law C \<longleftrightarrow> (\<forall>bs. c_unb64url C (c_b64url C bs) = Some bs)"

definition gcm_law :: "crypto \<Rightarrow> bool" where
  "gcm_law C \<longleftrightarrow> (\<forall>k n a m ct. c_gcm_seal C k n a m = Some ct \<longrightarrow> c_gcm_open C k n a ct = Some m)"

section \<open>The functions of the crate\<close>

definition generate_nonce :: "crypto \<Rightarrow> bytes \<Rightarrow> string" where
  "generate_nonce C random = c_b64url C random"

definition NONCE_MAC_LEN :: nat where [rust_const]: "NONCE_MAC_LEN = 16"

definition issue_client_nonce :: "crypto \<Rightarrow> bytes \<Rightarrow> string \<Rightarrow> u64 \<Rightarrow> string" where
  "issue_client_nonce C server_key client ts_ms =
     (let tag = c_hmac_sha1 C server_key (be_bytes 8 ts_ms @ as_bytes client)
      in fmt_hex (unat ts_ms) @ '':'' @ c_b64url C (take NONCE_MAC_LEN tag))"

definition verify_client_nonce :: "crypto \<Rightarrow> bytes \<Rightarrow> string \<Rightarrow> string \<Rightarrow> u64 option" where
  "verify_client_nonce C server_key client nonce =
     Option.bind (split_once CHR '':'' nonce) (\<lambda>(ts_hex, tag_b64).
     Option.bind (parse_radix 16 (2 ^ 64) ts_hex) (\<lambda>ts.
     Option.bind (c_unb64url C tag_b64) (\<lambda>tag.
       let ts_ms = of_nat ts in
       if c_verify_left C server_key (be_bytes 8 ts_ms @ as_bytes client) tag then Some ts_ms else None)))"

definition long_term_key :: "crypto \<Rightarrow> string \<Rightarrow> string \<Rightarrow> string \<Rightarrow> bytes" where
  "long_term_key C username realm password = c_md5 C (as_bytes (username @ '':'' @ realm @ '':'' @ password))"

definition long_term_key_sha256 :: "crypto \<Rightarrow> string \<Rightarrow> string \<Rightarrow> string \<Rightarrow> bytes" where
  "long_term_key_sha256 C username realm password =
     c_sha256 C (as_bytes (username @ '':'' @ realm @ '':'' @ password))"

definition userhash :: "crypto \<Rightarrow> string \<Rightarrow> string \<Rightarrow> bytes" where
  "userhash C username realm = c_sha256 C (as_bytes (username @ '':'' @ realm))"

definition hmac_sha256 :: "crypto \<Rightarrow> bytes \<Rightarrow> bytes \<Rightarrow> bytes" where
  "hmac_sha256 C key data =
     (let k = (if length key > 64 then write_at (replicate 64 0) 0 (c_sha256 C key)
               else write_at (replicate 64 0) 0 key);
          ipad = map2 (XOR) (replicate 64 0x36) k;
          opad = map2 (XOR) (replicate 64 0x5C) k;
          inner_hash = c_sha256 C (ipad @ data)
      in c_sha256 C (opad @ inner_hash))"

definition generate_turn_credentials :: "crypto \<Rightarrow> u64 \<Rightarrow> string \<Rightarrow> bytes \<Rightarrow> u64 \<Rightarrow> string \<times> string" where
  "generate_turn_credentials C now_secs user_id shared_secret ttl_secs =
     (let timestamp = now_secs + ttl_secs;
          username = fmt_nat (unat timestamp) @ '':'' @ user_id
      in (username, c_b64 C (c_hmac_sha1 C shared_secret (as_bytes username))))"

section \<open>Nonces\<close>

lemma verify_client_nonce_iff:
  assumes "verify_left_law C"
  shows "verify_client_nonce C key client nonce = Some ts \<longleftrightarrow>
    (\<exists>ts_hex tag_b64 n tag. nonce = ts_hex @ CHR '':'' # tag_b64 \<and> CHR '':'' \<notin> set ts_hex
       \<and> parse_radix 16 (2 ^ 64) ts_hex = Some n \<and> ts = of_nat n \<and> c_unb64url C tag_b64 = Some tag
       \<and> tag \<noteq> [] \<and> length tag \<le> length (c_hmac_sha1 C key (be_bytes 8 ts @ as_bytes client))
       \<and> tag = take (length tag) (c_hmac_sha1 C key (be_bytes 8 ts @ as_bytes client)))"
    (is "?l \<longleftrightarrow> ?r")
proof
  assume ?l
  then show ?r
    using assms
    by (fastforce simp: verify_client_nonce_def verify_left_law_def bind_eq_Some_conv Let_def
        dest: split_once_SomeD split: if_splits)
next
  assume ?r
  then obtain ts_hex tag_b64 n tag where r: "nonce = ts_hex @ CHR '':'' # tag_b64" "CHR '':'' \<notin> set ts_hex"
    "parse_radix 16 (2 ^ 64) ts_hex = Some n" "ts = of_nat n" "c_unb64url C tag_b64 = Some tag"
    "tag \<noteq> []" "length tag \<le> length (c_hmac_sha1 C key (be_bytes 8 ts @ as_bytes client))"
    "tag = take (length tag) (c_hmac_sha1 C key (be_bytes 8 ts @ as_bytes client))" by blast
  then have "c_verify_left C key (be_bytes 8 (of_nat n :: u64) @ as_bytes client) tag"
    using assms unfolding verify_left_law_def by blast
  with r(1-5) show ?l
    by (simp add: verify_client_nonce_def split_once_append Let_def)
qed

lemma issued_nonce_verifies_iff:
  assumes "verify_left_law C" "b64url_law C" "hmac_lengths C"
  shows "verify_client_nonce C key c2 (issue_client_nonce C key c1 ts) =
    (if take 16 (c_hmac_sha1 C key (be_bytes 8 ts @ as_bytes c1)) = take 16 (c_hmac_sha1 C key (be_bytes 8 ts @ as_bytes c2))
     then Some ts else None)"
proof -
  have "unat ts < 2 ^ 64" using unsigned_less [of ts] by simp
  then have p: "parse_radix 16 (2 ^ 64) (fmt_hex (unat ts)) = Some (unat ts)" by (rule parse_fmt_hex)
  have len: "length (c_hmac_sha1 C k m) = 20" for k m using assms(3) by (simp add: hmac_lengths_def)
  then have "take 16 (c_hmac_sha1 C k m) \<noteq> []" for k m
    by (metis list.size(3) take_eq_Nil numeral_neq_zero zero_neq_numeral)
  with p assms(1,2) show ?thesis
    by (simp add: verify_client_nonce_def issue_client_nonce_def Let_def split_once_append rust_const
        verify_left_law_def b64url_law_def len)
qed

section \<open>An instance of the primitives\<close>

text \<open>
  Primitives for the witnesses: a keyed checksum in place of HMAC and the bytes themselves as their
  text, which satisfy the laws.
\<close>

definition toy_mac :: "nat \<Rightarrow> mac" where
  "toy_mac len k m = replicate len (sum_list k + sum_list m + of_nat (length m))"

definition toy_crypto :: crypto where
  "toy_crypto =
     \<lparr> c_hmac_sha1 = toy_mac 20, c_hmac_sha256 = toy_mac 32,
       c_verify_left = (\<lambda>k m t. t \<noteq> [] \<and> length t \<le> 20 \<and> t = take (length t) (toy_mac 20 k m)),
       c_verify_slice = (\<lambda>k m t. t = toy_mac 32 k m),
       c_md5 = (\<lambda>m. replicate 16 (sum_list m)), c_sha256 = (\<lambda>m. replicate 32 (sum_list m)),
       c_b64 = of_bytes, c_b64url = of_bytes, c_unb64url = (\<lambda>s. Some (as_bytes s)),
       c_gcm_seal = (\<lambda>k n a m. Some (n @ m)), c_gcm_open = (\<lambda>k n a ct. Some (drop (length n) ct)) \<rparr>"

lemma toy_laws [simp]:
  "verify_left_law toy_crypto" "b64url_law toy_crypto" "hmac_lengths toy_crypto" "verify_slice_law toy_crypto" "gcm_law toy_crypto"
  by (simp_all add: verify_left_law_def b64url_law_def hmac_lengths_def verify_slice_law_def gcm_law_def toy_crypto_def toy_mac_def)

end
