(* ===== verification/Nonce.thy ===== *)
theory Nonce
  imports Crypto Session_Base
begin

text \<open>
  The nonce manager of the packet processor (\<^verbatim>\<open>crates/relay/src/processor.rs\<close>): it issues nonces that carry
  their time of issue and a tag over that time and the client's address, and accepts them for a
  bounded time. Elapsed time is taken from the monotonic clock, whose reading is an argument.
\<close>

section \<open>The nonce manager\<close>

record nonce_manager =
  nm_server_key :: bytes
  nm_start :: instant
  nm_max_age :: nat
  nm_cookie :: "string option"

definition USERHASH_NONCE_COOKIE :: string where
  "USERHASH_NONCE_COOKIE = ''obMatJos2QAAA''"

datatype nonce_status = NonceValid | NonceStale

definition NonceManager_with_cookie :: "bytes \<Rightarrow> instant \<Rightarrow> string option \<Rightarrow> nonce_manager" where
  "NonceManager_with_cookie random_key now cookie =
     \<lparr> nm_server_key = random_key, nm_start = now, nm_max_age = from_secs 630, nm_cookie = cookie \<rparr>"

definition as_millis :: "nat \<Rightarrow> u64" where
  "as_millis d = of_nat (d div 10 ^ 6)"

definition nm_now_ms :: "nonce_manager \<Rightarrow> instant \<Rightarrow> u64" where
  "nm_now_ms nm now = as_millis (now - nm_start nm)"

definition nm_issue :: "crypto \<Rightarrow> nonce_manager \<Rightarrow> instant \<Rightarrow> socket_addr \<Rightarrow> string" where
  "nm_issue C nm now client =
     (let nonce = issue_client_nonce C (nm_server_key nm) (addr_to_string client) (nm_now_ms nm now)
      in case nm_cookie nm of Some cookie \<Rightarrow> cookie @ nonce | None \<Rightarrow> nonce)"

definition strip_prefix :: "string \<Rightarrow> string \<Rightarrow> string option" where
  "strip_prefix p s = (if take (length p) s = p then Some (drop (length p) s) else None)"

definition nm_validate :: "crypto \<Rightarrow> nonce_manager \<Rightarrow> instant \<Rightarrow> socket_addr \<Rightarrow> string \<Rightarrow> nonce_status" where
  "nm_validate C nm now client nonce =
     (let max_age_ms = as_millis (nm_max_age nm) in
      case (case nm_cookie nm of Some cookie \<Rightarrow> strip_prefix cookie nonce | None \<Rightarrow> Some nonce) of
        None \<Rightarrow> NonceStale
      | Some nonce \<Rightarrow>
          (case verify_client_nonce C (nm_server_key nm) (addr_to_string client) nonce of
             Some issued_ms \<Rightarrow>
               if saturating_sub (nm_now_ms nm now) issued_ms \<le> max_age_ms then NonceValid else NonceStale
           | None \<Rightarrow> NonceStale))"

section \<open>Properties\<close>

lemma strip_prefix_append [simp]: "strip_prefix p (p @ s) = Some s"
  by (simp add: strip_prefix_def)

lemma as_millis_less: "d div 10 ^ 6 < 2 ^ 64 \<Longrightarrow> unat (as_millis d) = d div 10 ^ 6"
  by (simp add: as_millis_def unat_of_nat)

lemma cookie_stripped:
  "(case nm_cookie nm of Some cookie \<Rightarrow> strip_prefix cookie (nm_issue C nm now client) | None \<Rightarrow> Some (nm_issue C nm now client))
   = Some (issue_client_nonce C (nm_server_key nm) (addr_to_string client) (nm_now_ms nm now))"
  by (simp add: nm_issue_def split: option.splits)

text \<open>
  C23. A nonce issued to one address is accepted from an address exactly while it is at most 630 seconds old and the
  16-byte tags of the two addresses agree, which they do for the address it was issued to; the age is
  counted in whole milliseconds of the process's own clock.
\<close>

theorem nonce_lifetime_and_binding:
  assumes "verify_left_law C" "b64url_law C" "hmac_lengths C"
    and "nm = NonceManager_with_cookie key start cookie"
    and "(now - start) div 10 ^ 6 < 2 ^ 64" "(later - start) div 10 ^ 6 < 2 ^ 64"
  shows "nm_validate C nm later c2 (nm_issue C nm now c1) = NonceValid \<longleftrightarrow>
    (later - start) div 10 ^ 6 - (now - start) div 10 ^ 6 \<le> 630000
    \<and> (let ts = be_bytes 8 (nm_now_ms nm now) in
       take 16 (c_hmac_sha1 C key (ts @ as_bytes (addr_to_string c1)))
       = take 16 (c_hmac_sha1 C key (ts @ as_bytes (addr_to_string c2))))"
proof -
  have key: "nm_server_key nm = key" "nm_start nm = start" "nm_max_age nm = from_secs 630"
    by (simp_all add: assms(4) NonceManager_with_cookie_def)
  have "unat (as_millis (from_secs 630)) = 630000" by (subst as_millis_less) (simp_all add: from_secs_def)
  moreover have "unat (nm_now_ms nm now) = (now - start) div 10 ^ 6"
    "unat (nm_now_ms nm later) = (later - start) div 10 ^ 6"
    unfolding nm_now_ms_def key using as_millis_less assms(5,6) by blast+
  ultimately have age: "saturating_sub (nm_now_ms nm later) (nm_now_ms nm now) \<le> as_millis (nm_max_age nm)
      \<longleftrightarrow> (later - start) div 10 ^ 6 - (now - start) div 10 ^ 6 \<le> 630000"
    unfolding word_le_nat_alt unat_saturating_sub key by simp
  show ?thesis
    unfolding nm_validate_def Let_def cookie_stripped option.case issued_nonce_verifies_iff [OF assms(1-3)] key(1)
    using age by simp
qed

theorem nonce_lifetime_and_binding_witness:
  "nm_validate toy_crypto (NonceManager_with_cookie [1, 2] 5 None) (from_secs 600) (SockV4 1 2)
     (nm_issue toy_crypto (NonceManager_with_cookie [1, 2] 5 None) (from_secs 20) (SockV4 1 2)) = NonceValid"
  using nonce_lifetime_and_binding [OF toy_laws(1-3) refl, of "from_secs 20" 5 "from_secs 600" "[1, 2]" None "SockV4 1 2" "SockV4 1 2"]
  by (simp add: from_secs_def)

text \<open>
  C35. A forged nonce passes with a tag of one byte: for every client and moment one of the 256 one-byte tags
  is accepted, because the tag is compared on as many bytes as the client sends.
\<close>

theorem nonce_one_byte_tag:
  assumes "verify_left_law C" "b64url_law C" "hmac_lengths C" and "nm_cookie nm = None"
  shows "\<exists>b. nm_validate C nm now client (fmt_hex (unat (nm_now_ms nm now)) @ '':'' @ c_b64url C [b]) = NonceValid"
proof -
  let ?ts = "nm_now_ms nm now"
  define m where "m = c_hmac_sha1 C (nm_server_key nm) (be_bytes 8 ?ts @ as_bytes (addr_to_string client))"
  have "unat ?ts < 2 ^ 64" using unsigned_less [of ?ts] by simp
  then have "parse_radix 16 (2 ^ 64) (fmt_hex (unat ?ts)) = Some (unat ?ts)" by (rule parse_fmt_hex)
  moreover have "length m = 20" using assms(3) by (simp add: hmac_lengths_def m_def)
  then obtain b bs where m: "m = b # bs" by (cases m) auto
  moreover have "c_unb64url C (c_b64url C [b]) = Some [b]" using assms(2) by (simp add: b64url_law_def)
  ultimately have "verify_client_nonce C (nm_server_key nm) (addr_to_string client)
      (fmt_hex (unat ?ts) @ CHR '':'' # c_b64url C [b]) = Some ?ts"
    unfolding verify_client_nonce_iff [OF assms(1)] m_def [symmetric]
    by (intro exI [of _ "fmt_hex (unat ?ts)"] exI [of _ "c_b64url C [b]"] exI [of _ "unat ?ts"] exI [of _ "[b]"]) simp
  then have "nm_validate C nm now client (fmt_hex (unat ?ts) @ '':'' @ c_b64url C [b]) = NonceValid"
    by (simp add: nm_validate_def assms(4) saturating_sub_def)
  then show ?thesis ..
qed

theorem nonce_one_byte_tag_witness:
  "\<exists>b. nm_validate toy_crypto (NonceManager_with_cookie [1, 2] 5 None) 20 (SockV4 1 2)
     (fmt_hex (unat (nm_now_ms (NonceManager_with_cookie [1, 2] 5 None) 20)) @ '':'' @ c_b64url toy_crypto [b]) = NonceValid"
  by (rule nonce_one_byte_tag) (simp_all add: NonceManager_with_cookie_def)

end
