(* ===== verification/Migration_Token.thy ===== *)
theory Migration_Token
  imports Crypto Session_Base
begin

text \<open>
  Migration tickets (\<^verbatim>\<open>crates/transport/src/migration.rs\<close>): a ticket is the text
  \<open>session:epoch:issued:signature\<close> signed with HMAC-SHA-256; the manager issues and checks them and keeps
  the bookkeeping of migrations. Clock readings are arguments, whole seconds of the wall clock for
  the tickets and the monotonic clock for the bookkeeping.
\<close>

section \<open>Tickets\<close>

record migration_token =
  mt_token :: bytes
  mt_session_id :: string
  mt_issued_at :: instant
  mt_ttl :: nat

definition MigrationToken_generate ::
  "crypto \<Rightarrow> string \<Rightarrow> u64 \<Rightarrow> bytes \<Rightarrow> nat \<Rightarrow> u64 \<Rightarrow> instant \<Rightarrow> migration_token" where
  "MigrationToken_generate C session_id epoch secret ttl now_secs now =
     (let payload = session_id @ '':'' @ fmt_nat (unat epoch) @ '':'' @ fmt_nat (unat now_secs);
          sig = c_hmac_sha256 C secret (as_bytes payload);
          sig_hex = concat (map fmt_hex2 sig)
      in \<lparr> mt_token = as_bytes payload @ as_bytes '':'' @ as_bytes sig_hex,
           mt_session_id = session_id, mt_issued_at = now, mt_ttl = ttl \<rparr>)"

text \<open>Two characters at a time, each pair read by \<^verbatim>\<open>u8::from_str_radix\<close>.\<close>

fun hex_pairs :: "string \<Rightarrow> bytes option" where
  "hex_pairs [] = Some []"
| "hex_pairs [c] = None"
| "hex_pairs (c # d # cs) =
     Option.bind (parse_radix 16 256 [c, d]) (\<lambda>b. map_option (\<lambda>bs. of_nat b # bs) (hex_pairs cs))"

definition decode_hex :: "string \<Rightarrow> bytes option" where
  "decode_hex s = (if length s mod 2 \<noteq> 0 then None else hex_pairs s)"

definition MigrationToken_validate ::
  "crypto \<Rightarrow> bytes \<Rightarrow> bytes \<Rightarrow> nat \<Rightarrow> u64 \<Rightarrow> (string \<times> u64) option" where
  "MigrationToken_validate C token_bytes secret max_age now_secs =
     Option.bind (from_utf8 token_bytes) (\<lambda>token_str.
     Option.bind (rsplit_once CHR '':'' token_str) (\<lambda>(payload, sig_hex).
     Option.bind (decode_hex sig_hex) (\<lambda>sig_bytes.
       if \<not> c_verify_slice C secret (as_bytes payload) sig_bytes then None
       else
         Option.bind (rsplit_once CHR '':'' payload) (\<lambda>(rest, issued).
         Option.bind (rsplit_once CHR '':'' rest) (\<lambda>(session_id, epoch_str).
         Option.bind (parse_radix 10 (2 ^ 64) epoch_str) (\<lambda>epoch.
         Option.bind (parse_radix 10 (2 ^ 64) issued) (\<lambda>issued_secs.
           if unat now_secs - issued_secs > max_age div 10 ^ 9 then None
           else Some (session_id, of_nat epoch))))))))"

definition mt_is_expired :: "migration_token \<Rightarrow> instant \<Rightarrow> bool" where
  "mt_is_expired t now \<longleftrightarrow> now - mt_issued_at t > mt_ttl t"

section \<open>The manager\<close>

record pending_migration =
  pm_session_id :: string
  pm_old_addr :: socket_addr
  pm_new_addr :: socket_addr
  pm_started_at :: instant

record completed_migration =
  cm_old_addr :: socket_addr
  cm_new_addr :: socket_addr
  cm_completed_at :: instant

record migration_manager =
  mm_pending :: "(string, pending_migration) fmap"
  mm_completed :: "(string, completed_migration) fmap"
  mm_secret :: bytes
  mm_token_ttl :: nat
  mm_migration_timeout :: nat

definition MigrationManager_new :: "bytes \<Rightarrow> migration_manager" where
  "MigrationManager_new secret =
     \<lparr> mm_pending = fmempty, mm_completed = fmempty, mm_secret = secret,
       mm_token_ttl = from_secs 300, mm_migration_timeout = from_secs 30 \<rparr>"

definition MigrationManager_with_ttl :: "bytes \<Rightarrow> nat \<Rightarrow> migration_manager" where
  "MigrationManager_with_ttl secret token_ttl = (MigrationManager_new secret)\<lparr>mm_token_ttl := token_ttl\<rparr>"

definition verify_ticket :: "crypto \<Rightarrow> migration_manager \<Rightarrow> bytes \<Rightarrow> u64 \<Rightarrow> (string \<times> u64) option" where
  "verify_ticket C mm token_bytes now_secs =
     MigrationToken_validate C token_bytes (mm_secret mm) (mm_token_ttl mm) now_secs"

definition issue_token :: "crypto \<Rightarrow> migration_manager \<Rightarrow> string \<Rightarrow> u64 \<Rightarrow> u64 \<Rightarrow> instant \<Rightarrow> migration_token" where
  "issue_token C mm session_id epoch now_secs now =
     MigrationToken_generate C session_id epoch (mm_secret mm) (mm_token_ttl mm) now_secs now"

definition attempt_migration ::
  "crypto \<Rightarrow> bytes \<Rightarrow> socket_addr \<Rightarrow> socket_addr \<Rightarrow> u64 \<Rightarrow> instant \<Rightarrow> migration_manager
     \<Rightarrow> (string \<times> u64) option \<times> migration_manager" where
  "attempt_migration C token_bytes new_addr old_addr now_secs now mm =
     (case MigrationToken_validate C token_bytes (mm_secret mm) (mm_token_ttl mm) now_secs of
        None \<Rightarrow> (None, mm)
      | Some (session_id, epoch) \<Rightarrow>
          (Some (session_id, epoch),
           mm\<lparr>mm_pending := fmupd session_id
             \<lparr> pm_session_id = session_id, pm_old_addr = old_addr, pm_new_addr = new_addr, pm_started_at = now \<rparr>
             (mm_pending mm)\<rparr>))"

definition complete_migration :: "string \<Rightarrow> instant \<Rightarrow> migration_manager \<Rightarrow> migration_manager" where
  "complete_migration session_id now mm =
     (case fmlookup (mm_pending mm) session_id of
        None \<Rightarrow> mm
      | Some pending \<Rightarrow>
          mm\<lparr>mm_pending := fmdrop session_id (mm_pending mm),
             mm_completed := fmupd session_id
               \<lparr> cm_old_addr = pm_old_addr pending, cm_new_addr = pm_new_addr pending, cm_completed_at = now \<rparr>
               (mm_completed mm)\<rparr>)"

definition on_quic_migration ::
  "string \<Rightarrow> socket_addr \<Rightarrow> socket_addr \<Rightarrow> instant \<Rightarrow> migration_manager \<Rightarrow> migration_manager" where
  "on_quic_migration session_id old_addr new_addr now mm =
     mm\<lparr>mm_completed := fmupd session_id
       \<lparr> cm_old_addr = old_addr, cm_new_addr = new_addr, cm_completed_at = now \<rparr> (mm_completed mm)\<rparr>"

definition pending_count :: "migration_manager \<Rightarrow> nat" where
  "pending_count mm = fcard (fmdom (mm_pending mm))"

definition completed_count :: "migration_manager \<Rightarrow> nat" where
  "completed_count mm = fcard (fmdom (mm_completed mm))"

definition fmretain :: "('v \<Rightarrow> bool) \<Rightarrow> ('k, 'v) fmap \<Rightarrow> ('k, 'v) fmap" where
  "fmretain P m = fmfilter (\<lambda>k. case fmlookup m k of Some v \<Rightarrow> P v | None \<Rightarrow> False) m"

definition mm_cleanup :: "instant \<Rightarrow> migration_manager \<Rightarrow> nat \<times> migration_manager" where
  "mm_cleanup now mm =
     (let before = pending_count mm;
          mm = mm\<lparr>mm_pending := fmretain (\<lambda>m. now - pm_started_at m < mm_migration_timeout mm) (mm_pending mm)\<rparr>;
          expired = before - pending_count mm
      in (expired, mm\<lparr>mm_completed := fmretain (\<lambda>m. now - cm_completed_at m < from_secs 300) (mm_completed mm)\<rparr>))"

section \<open>Properties\<close>

lemma utf8_valid_append: "utf8_valid a \<Longrightarrow> utf8_valid b \<Longrightarrow> utf8_valid (a @ b)"
proof (induction a rule: utf8_valid.induct)
  case (1 a)
  show ?case
  proof (cases "a = []")
    case False
    let ?n = "snd (utf8_step a)"
    have ok: "fst (utf8_step a)" and rest: "utf8_valid (drop ?n a)" using 1(2) False by (subst (asm) utf8_valid.simps; simp)+
    from 1(1) [OF False rest 1(3)] have "utf8_valid (take ?n a @ (drop ?n a @ b))"
      by (rule utf8_valid_step [OF ok False])
    then show ?thesis by (simp only: append_assoc [symmetric] append_take_drop_id)
  qed (use 1(3) in simp)
qed

lemma is_string_append: "is_string a \<Longrightarrow> is_string b \<Longrightarrow> is_string (a @ b)"
  by (simp add: is_string_def as_bytes_def utf8_valid_append)

lemma hex_digit_ascii: "d < 16 \<Longrightarrow> (of_char (hex_digit d) :: u8) < 128"
proof -
  assume "d < 16"
  moreover have "\<forall>d \<in> set [0..<16]. (of_char (hex_digit d) :: u8) < 128" by code_simp
  ultimately show ?thesis by simp
qed

lemma is_string_fmt [simp]: "is_string (fmt_nat n)" "is_string (concat (map fmt_hex2 bs))"
proof -
  have "(of_char c :: u8) < 128" if "c \<in> set (fmt_nat n)" for c
  proof -
    obtain d :: nat where d: "d < 10" "c = char_of (48 + d)" using fmt_nat_digits \<open>c \<in> set (fmt_nat n)\<close> by blast
    then have "c = hex_digit d" by (simp add: hex_digit_def)
    with d show ?thesis using hex_digit_ascii [of d] by simp
  qed
  then show "is_string (fmt_nat n)" by (intro is_string_ascii) simp
  have "unat b div 16 < 16" "unat b mod 16 < 16" for b :: u8
    using unat_lt2p_u8 [of b] by (simp_all add: less_mult_imp_div_less)
  then show "is_string (concat (map fmt_hex2 bs))"
    by (intro is_string_ascii) (auto simp: fmt_hex2_def hex_digit_ascii)
qed

lemma fmt_hex2_no_sep: "CHR '':'' \<notin> set (concat (map fmt_hex2 bs))"
proof -
  have "unat b div 16 < 16" "unat b mod 16 < 16" for b :: u8
    using unat_lt2p_u8 [of b] by (simp_all add: less_mult_imp_div_less)
  then have "CHR '':'' \<notin> set (fmt_hex2 b)" for b
    using char_of_digit_neq(3) unfolding fmt_hex2_def by (metis empty_iff insert_iff list.set(1,2))
  then show ?thesis by auto
qed

lemma parse_fmt_hex2: "parse_radix 16 256 (fmt_hex2 b) = Some (unat b)"
proof -
  have lt: "unat b div 16 < 16" "unat b mod 16 < 16" "unat b < 256"
    using unat_lt2p_u8 [of b] by (simp_all add: less_mult_imp_div_less)
  have "radix_value 16 0 (fmt_hex2 b) = Some (unat b)"
    using lt by (simp add: fmt_hex2_def to_digit_hex)
  moreover have "CHR ''+'' \<notin> set (fmt_hex2 b)"
    using lt char_of_digit_neq(4) unfolding fmt_hex2_def by (metis empty_iff insert_iff list.set(1,2))
  ultimately show ?thesis using lt by (intro parse_radix_plain) (simp_all add: fmt_hex2_def)
qed

lemma decode_hex_fmt: "decode_hex (concat (map fmt_hex2 bs)) = Some bs"
proof -
  have "even (length (concat (map fmt_hex2 bs)))" by (induction bs) (simp_all add: fmt_hex2_def)
  moreover have "hex_pairs (concat (map fmt_hex2 bs)) = Some bs"
  proof (induction bs)
    case (Cons b bs)
    then show ?case using parse_fmt_hex2 [of b] by (simp add: fmt_hex2_def)
  qed simp
  ultimately show ?thesis by (simp add: decode_hex_def even_iff_mod_2_eq_zero)
qed

lemma issued_ticket_verifies:
  assumes "verify_slice_law C" and "is_string session_id"
  shows "verify_ticket C mm (mt_token (issue_token C mm session_id epoch now_secs now)) later_secs =
    (if unat later_secs - unat now_secs \<le> mm_token_ttl mm div 10 ^ 9 then Some (session_id, epoch) else None)"
proof -
  let ?p = "(session_id @ '':'' @ fmt_nat (unat epoch)) @ CHR '':'' # fmt_nat (unat now_secs)"
  let ?h = "concat (map fmt_hex2 (c_hmac_sha256 C (mm_secret mm) (as_bytes ?p)))"
  have token: "mt_token (issue_token C mm session_id epoch now_secs now) = as_bytes (?p @ CHR '':'' # ?h)"
    by (simp add: issue_token_def MigrationToken_generate_def Let_def as_bytes_def)
  have "is_string '':''" by (rule is_string_ascii) simp
  then have "is_string ((?p @ '':'') @ ?h)"
    using assms(2) is_string_append is_string_fmt by (metis append_Cons append_Nil)
  then have "from_utf8 (as_bytes (?p @ CHR '':'' # ?h)) = Some (?p @ CHR '':'' # ?h)"
    by (intro from_utf8_as_bytes) simp
  moreover have "rsplit_once CHR '':'' (?p @ CHR '':'' # ?h) = Some (?p, ?h)"
    by (rule rsplit_once_append [OF fmt_hex2_no_sep])
  moreover have "rsplit_once CHR '':'' ?p = Some (session_id @ '':'' @ fmt_nat (unat epoch), fmt_nat (unat now_secs))"
    by (rule rsplit_once_append) simp
  moreover have "rsplit_once CHR '':'' (session_id @ '':'' @ fmt_nat (unat epoch)) = Some (session_id, fmt_nat (unat epoch))"
    using rsplit_once_append [of "CHR '':''" "fmt_nat (unat epoch)" session_id] by simp
  moreover have "unat (w :: u64) < 2 ^ 64" for w using unsigned_less [of w] by simp
  then have "parse_radix 10 (2 ^ 64) (fmt_nat (unat w)) = Some (unat w)" for w :: u64 by (rule parse_fmt_nat)
  ultimately show ?thesis
    unfolding verify_ticket_def token MigrationToken_validate_def
    using assms(1) by (simp add: decode_hex_fmt verify_slice_law_def)
qed

text \<open>
  C36. A ticket the manager issued for a session and an epoch is accepted with exactly that session and epoch for its
  lifetime counted in whole seconds, and is refused after it, whatever the characters of the session id (which may contain the
  separator).
\<close>

theorem ticket_roundtrip:
  assumes "verify_slice_law C" and "is_string session_id"
  shows "verify_ticket C mm (mt_token (issue_token C mm session_id epoch now_secs now)) later_secs =
    (if unat later_secs - unat now_secs \<le> mm_token_ttl mm div 10 ^ 9 then Some (session_id, epoch) else None)"
  by (rule issued_ticket_verifies [OF assms])

theorem ticket_roundtrip_witness:
  "verify_ticket toy_crypto (MigrationManager_new [7])
     (mt_token (issue_token toy_crypto (MigrationManager_new [7]) ''a:1'' 3 1000 0)) 1300 = Some (''a:1'', 3)"
proof -
  have "is_string ''a:1''" by (rule is_string_ascii) simp
  from ticket_roundtrip [OF toy_laws(4) this, of "MigrationManager_new [7]" 3 1000 0 1300] show ?thesis
    by (simp add: MigrationManager_new_def from_secs_def)
qed

end
