(* ===== verification/Udp_Transactions.thy ===== *)
theory Udp_Transactions
  imports Session_Base
begin

text \<open>
  Replay of successful UDP responses (\<^verbatim>\<open>crates/relay/src/udp_transactions.rs\<close>). A cache maps the source
  address and the transaction id to the request and its response; a queue holds the keys in the order of insertion.
  The hash that picks a shard is a parameter and the \<^verbatim>\<open>Instant\<close> readings are arguments.
\<close>

section \<open>The cache\<close>

definition SHARDS :: nat where [rust_const]: "SHARDS = 64"
definition CAPACITY :: nat where [rust_const]: "CAPACITY = 128"
definition TTL :: nat where [rust_const]: "TTL = from_secs 40"

type_synonym utx_key = "socket_addr \<times> bytes"

record utx_entry =
  ue_request :: bytes
  ue_response :: bytes
  ue_until :: instant

datatype utx_lookup = UtxMiss | UtxConflict | UtxReply bytes

record utx_cache =
  uc_entries :: "(utx_key, utx_entry) fmap"
  uc_order :: "utx_key list"

definition Cache_default :: utx_cache where
  "Cache_default = \<lparr> uc_entries = fmempty, uc_order = [] \<rparr>"

definition utx_key :: "socket_addr \<Rightarrow> bytes \<Rightarrow> ('e, utx_key) res" where
  "utx_key src raw = bind_res (slice_r raw 8 20) (\<lambda>tid. Ok (src, tid))"

fun expire_loop :: "instant \<Rightarrow> (utx_key, utx_entry) fmap \<Rightarrow> utx_key list \<Rightarrow> utx_cache" where
  "expire_loop now entries [] = \<lparr> uc_entries = entries, uc_order = [] \<rparr>"
| "expire_loop now entries (key # order) =
     (if (case fmlookup entries key of Some v \<Rightarrow> ue_until v > now | None \<Rightarrow> False)
      then \<lparr> uc_entries = entries, uc_order = key # order \<rparr>
      else expire_loop now (fmdrop key entries) order)"

definition utx_expire :: "instant \<Rightarrow> utx_cache \<Rightarrow> utx_cache" where
  "utx_expire now c = expire_loop now (uc_entries c) (uc_order c)"

definition utx_lookup :: "socket_addr \<Rightarrow> bytes \<Rightarrow> utx_cache \<Rightarrow> ('e, utx_lookup) res" where
  "utx_lookup src raw c =
     bind_res (utx_key src raw) (\<lambda>key. Ok (case fmlookup (uc_entries c) key of
        None \<Rightarrow> UtxMiss
      | Some e \<Rightarrow> if ue_request e = raw then UtxReply (ue_response e) else UtxConflict))"

definition utx_insert ::
  "socket_addr \<Rightarrow> bytes \<Rightarrow> bytes \<Rightarrow> instant \<Rightarrow> utx_cache \<Rightarrow> ('e, utx_cache) res" where
  "utx_insert src request response now c =
     (if length request > 4096 \<or> length response > 1024 then Ok c
      else bind_res (utx_key src request) (\<lambda>key.
        if key |\<in>| fmdom (uc_entries c) then Ok c
        else
          let c = (if fcard (fmdom (uc_entries c)) = CAPACITY
                   then (case uc_order c of
                           [] \<Rightarrow> c
                         | old # order \<Rightarrow> \<lparr> uc_entries = fmdrop old (uc_entries c), uc_order = order \<rparr>)
                   else c)
          in Ok \<lparr> uc_entries = fmupd key \<lparr> ue_request = request, ue_response = response, ue_until = now + TTL \<rparr>
                     (uc_entries c),
                  uc_order = uc_order c @ [key] \<rparr>))"

definition UdpTransactions_new :: "utx_cache list" where
  "UdpTransactions_new = replicate SHARDS Cache_default"

definition utx_shard :: "(socket_addr \<Rightarrow> u64) \<Rightarrow> socket_addr \<Rightarrow> nat" where
  "utx_shard hash src = unat (hash src) mod SHARDS"

definition utx_lock :: "(socket_addr \<Rightarrow> u64) \<Rightarrow> utx_cache list \<Rightarrow> socket_addr \<Rightarrow> ('e, utx_cache) res" where
  "utx_lock hash shards src = idx shards (utx_shard hash src)"

section \<open>The cache as a queue\<close>

definition utx_queue :: "utx_cache \<Rightarrow> (utx_key \<times> utx_entry) list" where
  "utx_queue c = map (\<lambda>k. (k, the (fmlookup (uc_entries c) k))) (uc_order c)"

definition utx_wf :: "utx_cache \<Rightarrow> bool" where
  "utx_wf c \<longleftrightarrow> distinct (uc_order c) \<and> set (uc_order c) = fset (fmdom (uc_entries c)) \<and> length (uc_order c) \<le> CAPACITY"

lemma utx_wf_lookup: "utx_wf c \<Longrightarrow> fmlookup (uc_entries c) = map_of (utx_queue c)"
proof
  fix k
  assume wf: "utx_wf c"
  show "fmlookup (uc_entries c) k = map_of (utx_queue c) k"
  proof (cases "k \<in> set (uc_order c)")
    case True
    then have "fmlookup (uc_entries c) k \<noteq> None" using wf by (auto simp: utx_wf_def fmlookup_dom_iff)
    with True show ?thesis by (auto simp: utx_queue_def map_of_map_restrict)
  next
    case False
    then show ?thesis using wf
      by (auto simp: utx_wf_def utx_queue_def map_of_map_restrict restrict_map_def fmdom_notD)
  qed
qed

lemma utx_wf_card: "utx_wf c \<Longrightarrow> fcard (fmdom (uc_entries c)) = length (uc_order c)"
  by (metis distinct_card fcard.rep_eq utx_wf_def)

lemma expire_loop_queue:
  "\<lbrakk>distinct order; set order = fset (fmdom entries)\<rbrakk> \<Longrightarrow>
   utx_queue (expire_loop now entries order)
     = dropWhile (\<lambda>(k, e). ue_until e \<le> now) (utx_queue \<lparr> uc_entries = entries, uc_order = order \<rparr>)
   \<and> distinct (uc_order (expire_loop now entries order))
   \<and> set (uc_order (expire_loop now entries order)) = fset (fmdom (uc_entries (expire_loop now entries order)))
   \<and> length (uc_order (expire_loop now entries order)) \<le> length order"
proof (induction now entries order rule: expire_loop.induct)
  case (1 now entries)
  then show ?case by (simp add: utx_queue_def)
next
  case (2 now entries key order)
  then have "key |\<in>| fmdom entries" by auto
  then obtain v where v: "fmlookup entries key = Some v" by auto
  show ?case
  proof (cases "ue_until v > now")
    case True
    with v 2(2,3) show ?thesis by (simp add: utx_queue_def)
  next
    case False
    have d: "distinct order" "set order = fset (fmdom (fmdrop key entries))" using 2(2,3) by auto
    have q: "utx_queue \<lparr> uc_entries = fmdrop key entries, uc_order = order \<rparr> = utx_queue \<lparr> uc_entries = entries, uc_order = order \<rparr>"
      using 2(2) by (auto simp: utx_queue_def)
    have "utx_queue \<lparr> uc_entries = entries, uc_order = key # order \<rparr> = (key, v) # utx_queue \<lparr> uc_entries = entries, uc_order = order \<rparr>"
      using v by (simp add: utx_queue_def)
    with 2(1) [OF _ d, unfolded q] v False show ?thesis by simp
  qed
qed

lemma utx_expire_queue:
  assumes "utx_wf c"
  shows "utx_queue (utx_expire now c) = dropWhile (\<lambda>(k, e). ue_until e \<le> now) (utx_queue c)" "utx_wf (utx_expire now c)"
proof -
  have "\<lparr> uc_entries = uc_entries c, uc_order = uc_order c \<rparr> = c" by simp
  with expire_loop_queue [of "uc_order c" "uc_entries c" now] assms
  show "utx_queue (utx_expire now c) = dropWhile (\<lambda>(k, e). ue_until e \<le> now) (utx_queue c)" "utx_wf (utx_expire now c)"
    by (auto simp: utx_expire_def utx_wf_def)
qed

text \<open>What an insertion does to the queue.\<close>

definition enqueue :: "utx_key \<Rightarrow> utx_entry \<Rightarrow> (utx_key \<times> utx_entry) list \<Rightarrow> (utx_key \<times> utx_entry) list" where
  "enqueue k e q = (if length q = CAPACITY then tl q else q) @ [(k, e)]"

lemma utx_drop_oldest:
  assumes "utx_wf c" "uc_order c = old # order"
  defines "c' \<equiv> \<lparr> uc_entries = fmdrop old (uc_entries c), uc_order = order \<rparr>"
  shows "utx_wf c'" "utx_queue c' = tl (utx_queue c)"
proof -
  show "utx_wf c'" using assms by (auto simp: utx_wf_def)
  have "old \<notin> set order" using assms by (simp add: utx_wf_def)
  then show "utx_queue c' = tl (utx_queue c)"
    unfolding utx_queue_def c'_def assms(2) by (auto simp: fmlookup_drop)
qed

lemma utx_push:
  fixes c :: utx_cache and k :: utx_key and e :: utx_entry
  assumes "utx_wf c" "length (uc_order c) < CAPACITY" "k |\<notin>| fmdom (uc_entries c)"
  defines "c' \<equiv> \<lparr> uc_entries = fmupd k e (uc_entries c), uc_order = uc_order c @ [k] \<rparr>"
  shows "utx_wf c'" "utx_queue c' = utx_queue c @ [(k, e)]"
proof -
  have k: "k \<notin> set (uc_order c)" using assms by (auto simp: utx_wf_def)
  then show "utx_wf c'" using assms(1,2) by (auto simp: utx_wf_def c'_def)
  show "utx_queue c' = utx_queue c @ [(k, e)]"
    using k by (auto simp: utx_queue_def c'_def)
qed

lemma utx_insert_queue:
  assumes "utx_wf c" "utx_insert src request response now c = Ok c'"
  shows "utx_wf c' \<and> (c' = c \<or>
    (\<exists>k. utx_key src request = (Ok k :: (nat, utx_key) res) \<and> k |\<notin>| fmdom (uc_entries c)
      \<and> utx_queue c' = enqueue k \<lparr> ue_request = request, ue_response = response, ue_until = now + TTL \<rparr> (utx_queue c)))"
proof (cases "length request > 4096 \<or> length response > 1024")
  case True
  with assms show ?thesis by (auto simp: utx_insert_def)
next
  case False
  let ?e = "\<lparr> ue_request = request, ue_response = response, ue_until = now + TTL \<rparr>"
  have len: "length (utx_queue c) = length (uc_order c)" by (simp add: utx_queue_def)
  obtain tid where k: "slice_r request 8 20 = (Ok tid :: (nat, bytes) res)" "slice_r request 8 20 = (Ok tid :: ('a, bytes) res)"
    using assms(2) False by (auto simp: utx_insert_def utx_key_def slice_r_def split: if_splits)
  let ?k = "(src, tid)"
  show ?thesis
  proof (cases "?k |\<in>| fmdom (uc_entries c)")
    case True
    with assms False k show ?thesis by (simp add: utx_insert_def utx_key_def)
  next
    case new: False
    have key: "utx_key src request = (Ok ?k :: (nat, utx_key) res)" using k by (simp add: utx_key_def)
    show ?thesis
    proof (cases "length (uc_order c) = CAPACITY")
      case True
      then obtain old order where o: "uc_order c = old # order" by (cases "uc_order c") (auto simp: rust_const)
      let ?d = "\<lparr> uc_entries = fmdrop old (uc_entries c), uc_order = order \<rparr>"
      have c': "c' = \<lparr> uc_entries = fmupd ?k ?e (uc_entries ?d), uc_order = uc_order ?d @ [?k] \<rparr>"
        using assms False k new True o by (simp add: utx_insert_def utx_key_def utx_wf_card Let_def)
      from utx_drop_oldest [OF assms(1) o] have d: "utx_wf ?d" "utx_queue ?d = tl (utx_queue c)" by simp_all
      have "utx_wf c'" "utx_queue c' = utx_queue ?d @ [(?k, ?e)]"
        unfolding c' by (rule utx_push [OF d(1)]; use o True new in simp)+
      with d key new show ?thesis using True by (auto simp: enqueue_def len)
    next
      case less: False
      then have "length (uc_order c) < CAPACITY" using assms(1) by (simp add: utx_wf_def)
      moreover have c': "c' = \<lparr> uc_entries = fmupd ?k ?e (uc_entries c), uc_order = uc_order c @ [?k] \<rparr>"
        using assms False k new less by (simp add: utx_insert_def utx_key_def utx_wf_card Let_def)
      ultimately have "utx_wf c'" "utx_queue c' = utx_queue c @ [(?k, ?e)]"
        unfolding c' using utx_push [OF assms(1) _ new] by blast+
      with key new show ?thesis using less by (auto simp: enqueue_def len)
    qed
  qed
qed

section \<open>What is replayed\<close>

text \<open>
  A history of a cache: the present time, the log of the insertions made and the cache they left.
\<close>

inductive utx_run :: "instant \<Rightarrow> (socket_addr \<times> bytes \<times> bytes \<times> instant) list \<Rightarrow> utx_cache \<Rightarrow> bool" where
  ur_new: "utx_run now [] Cache_default"
| ur_tick: "utx_run now log c \<Longrightarrow> now \<le> later \<Longrightarrow> utx_run later log c"
| ur_expire: "utx_run now log c \<Longrightarrow> utx_run now log (utx_expire now c)"
| ur_insert: "utx_run now log c \<Longrightarrow> utx_insert src request response now c = (Ok c' :: (nat, utx_cache) res)
    \<Longrightarrow> utx_run now (log @ [(src, request, response, now)]) c'"

definition utx_logged :: "instant \<Rightarrow> (socket_addr \<times> bytes \<times> bytes \<times> instant) list \<Rightarrow> utx_key \<times> utx_entry \<Rightarrow> bool" where
  "utx_logged now log = (\<lambda>(k, e).
     \<exists>t. t \<le> now \<and> (fst k, ue_request e, ue_response e, t) \<in> set log \<and> ue_until e = t + TTL)"

lemma utx_run_inv:
  "utx_run now log c \<Longrightarrow> utx_wf c \<and> sorted (map (\<lambda>x. ue_until (snd x)) (utx_queue c)) \<and> (\<forall>x \<in> set (utx_queue c). utx_logged now log x)"
proof (induction rule: utx_run.induct)
  case (ur_new now)
  then show ?case by (simp add: Cache_default_def utx_wf_def utx_queue_def)
next
  case (ur_tick now log c later)
  then show ?case by (fastforce simp: utx_logged_def intro: order_trans)
next
  case (ur_expire now log c)
  then have q: "utx_queue (utx_expire now c) = dropWhile (\<lambda>(k, e). ue_until e \<le> now) (utx_queue c)" "utx_wf (utx_expire now c)"
    by (simp_all add: utx_expire_queue)
  have "sorted (map (\<lambda>x. ue_until (snd x)) (dropWhile P (utx_queue c)))" for P
    using ur_expire.IH by (simp only: dropWhile_eq_drop drop_map [symmetric] sorted_wrt_drop)
  with q ur_expire.IH show ?case by (metis set_dropWhileD)
next
  case (ur_insert now log c src request response c')
  let ?e = "\<lparr> ue_request = request, ue_response = response, ue_until = now + TTL \<rparr>"
  let ?log = "log @ [(src, request, response, now)]"
  have old: "\<forall>x \<in> set (utx_queue c). utx_logged now ?log x \<and> ue_until (snd x) \<le> now + TTL"
    using ur_insert.IH by (fastforce simp: utx_logged_def)
  from utx_insert_queue [OF conjunct1 [OF ur_insert.IH] ur_insert.hyps(2)] show ?case
  proof (elim conjE disjE exE)
    assume "c' = c"
    with ur_insert.IH old show ?thesis by simp
  next
    fix k
    assume wf: "utx_wf c'" and k: "utx_key src request = (Ok k :: (nat, utx_key) res)"
      and q: "utx_queue c' = enqueue k ?e (utx_queue c)"
    let ?q = "if length (utx_queue c) = CAPACITY then tl (utx_queue c) else utx_queue c"
    have sub: "set ?q \<subseteq> set (utx_queue c)" by (cases "utx_queue c") auto
    have "sorted (map (\<lambda>x. ue_until (snd x)) ?q)" using ur_insert.IH by (cases "utx_queue c") (auto split: if_splits)
    with old sub have "sorted (map (\<lambda>x. ue_until (snd x)) (utx_queue c'))"
      unfolding q enqueue_def by (fastforce simp: sorted_append)
    moreover have "fst k = src" using k by (auto simp: utx_key_def bind_res_Ok_iff)
    then have "utx_logged now ?log (k, ?e)" by (auto simp: utx_logged_def)
    ultimately show ?thesis using wf old sub unfolding q enqueue_def by auto
  qed
qed

lemma sorted_dropWhile_above:
  "sorted (map f xs) \<Longrightarrow> x \<in> set (dropWhile (\<lambda>x. f x \<le> t) xs) \<Longrightarrow> t < f x"
  by (induction xs) (auto split: if_splits intro: less_le_trans)

text \<open>
  C20. A replayed response is the response of exactly this request from exactly this source, stored less than forty seconds
  ago: in every history of a cache, after the expiry that precedes each look-up, a reply is returned only
  for a source, a request and a response that were inserted together and are not older, and the cache never
  holds more than 128 entries.
\<close>

theorem udp_replay_exact:
  assumes "utx_run now log c"
    and "utx_lookup src raw (utx_expire now c) = (Ok (UtxReply response) :: (nat, utx_lookup) res)"
  shows "\<exists>t. t \<le> now \<and> now < t + from_secs 40 \<and> (src, raw, response, t) \<in> set log
    \<and> fcard (fmdom (uc_entries c)) \<le> 128"
proof -
  have wf: "utx_wf c" and sorted: "sorted (map (\<lambda>x. ue_until (snd x)) (utx_queue c))"
    and logged: "\<forall>x \<in> set (utx_queue c). utx_logged now log x"
    using utx_run_inv [OF assms(1)] by blast+
  obtain tid e where e: "fmlookup (uc_entries (utx_expire now c)) (src, tid) = Some e"
      and r: "ue_request e = raw" "ue_response e = response"
    using assms(2)
    by (auto simp: utx_lookup_def utx_key_def bind_res_Ok_iff split: option.splits if_splits)
  then have mem: "((src, tid), e) \<in> set (utx_queue (utx_expire now c))"
    unfolding utx_wf_lookup [OF utx_expire_queue(2) [OF wf]] by (blast dest: map_of_SomeD)
  have "now < (\<lambda>x. ue_until (snd x)) ((src, tid), e)"
    using sorted_dropWhile_above [OF sorted, of "((src, tid), e)" now] mem
    unfolding utx_expire_queue(1) [OF wf] by (simp add: case_prod_unfold)
  moreover have "((src, tid), e) \<in> set (utx_queue c)"
    using mem unfolding utx_expire_queue(1) [OF wf] by (rule set_dropWhileD)
  then have "utx_logged now log ((src, tid), e)" using logged by blast
  moreover have "fcard (fmdom (uc_entries c)) \<le> 128" using wf utx_wf_card [OF wf] by (simp add: utx_wf_def rust_const)
  ultimately show ?thesis using r by (auto simp: utx_logged_def rust_const)
qed

theorem udp_replay_exact_witness:
  "\<exists>log c. utx_run (from_secs 30) log c
     \<and> utx_lookup (SockV4 1 2) (replicate 20 7) (utx_expire (from_secs 30) c) = (Ok (UtxReply [9]) :: (nat, utx_lookup) res)
     \<and> (\<exists>t. t \<le> from_secs 30 \<and> from_secs 30 < t + from_secs 40
         \<and> (SockV4 1 2, replicate 20 7, [9], t) \<in> set log \<and> fcard (fmdom (uc_entries c)) \<le> 128)"
proof -
  let ?src = "SockV4 1 2" and ?req = "replicate 20 7 :: bytes"
  let ?c = "\<lparr> uc_entries = fmupd (?src, replicate 12 7) \<lparr> ue_request = ?req, ue_response = [9], ue_until = 5 + TTL \<rparr> fmempty,
    uc_order = [(?src, replicate 12 7)] \<rparr>"
  have "utx_insert ?src ?req [9] 5 Cache_default = (Ok ?c :: (nat, utx_cache) res)"
    by (simp add: utx_insert_def utx_key_def slice_r_def sliced_def Cache_default_def rust_const Let_def)
  from ur_insert [OF ur_new this] have "utx_run 5 [(?src, ?req, [9], 5)] ?c" by simp
  then have run: "utx_run (from_secs 30) [(?src, ?req, [9], 5)] ?c" by (rule ur_tick) (simp add: from_secs_def)
  have "utx_lookup ?src ?req (utx_expire (from_secs 30) ?c) = (Ok (UtxReply [9]) :: (nat, utx_lookup) res)"
    by (simp add: utx_expire_def rust_const from_secs_def utx_lookup_def utx_key_def slice_r_def sliced_def)
  with run udp_replay_exact [OF run this] show ?thesis by blast
qed

end
