(* ===== verification/Webhook_Cache.thy ===== *)
theory Webhook_Cache
  imports Crypto Session_Base
begin

text \<open>
  The credential cache of the webhook (\<^verbatim>\<open>crates/auth/src/webhook.rs\<close>). The datapath consults it, a miss queues one
  fetch and the node's fetcher completes it. A \<^verbatim>\<open>watch\<close> channel is a number, the bounded queue
  a list with a flag for whether the fetcher still receives, the answer of an admission closure is part of the
  fetch policy, and the order in which the table is iterated is an argument. One call is one step.
\<close>

section \<open>State\<close>

definition MAX_USERNAME_BYTES :: nat where [rust_const]: "MAX_USERNAME_BYTES = 513"
definition MIN_TTL :: nat where [rust_const]: "MIN_TTL = from_secs 1"

record user_keys =
  uk_md5 :: bytes
  uk_sha256 :: bytes

record webhook_settings =
  ws_positive_ttl :: nat
  ws_negative_ttl :: nat
  ws_error_ttl :: nat
  ws_max_entries :: nat
  ws_queue_depth :: nat

record fetch_job =
  fj_username :: string
  fj_realm :: string

datatype fetch_outcome = FetchFound user_keys "nat option" | FetchNotFound | FetchFailed

record waiter =
  wt_chan :: nat
  wt_key :: string
  wt_started :: bool

datatype wlookup = KeysFound user_keys | KeysNotFound | KeysUnavailable | KeysPending waiter | KeysThrottled

datatype fetch_policy = FetchNever | FetchAlways | FetchAdmit bool

datatype slot_state = SlotFound user_keys | SlotNotFound | SlotFailed | InFlight nat

fun is_in_flight :: "slot_state \<Rightarrow> bool" where
  "is_in_flight (InFlight ch) = True"
| "is_in_flight _ = False"

record cache_slot =
  sl_state :: slot_state
  sl_expires_ms :: u64

record webhook_stats =
  wk_hits :: u64
  wk_negative_hits :: u64
  wk_error_hits :: u64
  wk_misses :: u64
  wk_coalesced :: u64
  wk_rejected :: u64
  wk_evictions :: u64
  wk_throttled :: u64

record credential_cache =
  cc_realm :: string
  cc_settings :: webhook_settings
  cc_entries :: "(string, cache_slot) fmap"
  cc_queue :: "fetch_job list"
  cc_receiver :: bool \<comment> \<open>the fetcher's end of the queue is open\<close>
  cc_base :: instant
  cc_stats :: webhook_stats
  cc_channels :: nat \<comment> \<open>channels made so far; the next one's number\<close>
  cc_done :: "nat list" \<comment> \<open>channels whose sender has sent \<^verbatim>\<open>true\<close>\<close>

section \<open>Operations\<close>

definition CredentialCache_new :: "string \<Rightarrow> webhook_settings \<Rightarrow> instant \<Rightarrow> credential_cache" where
  "CredentialCache_new realm settings now =
     \<lparr> cc_realm = realm, cc_settings = settings, cc_entries = fmempty, cc_queue = [], cc_receiver = True,
       cc_base = now,
       cc_stats = \<lparr> wk_hits = 0, wk_negative_hits = 0, wk_error_hits = 0, wk_misses = 0, wk_coalesced = 0,
                    wk_rejected = 0, wk_evictions = 0, wk_throttled = 0 \<rparr>,
       cc_channels = 0, cc_done = [] \<rparr>"

definition cc_len :: "credential_cache \<Rightarrow> nat" where
  "cc_len c = fcard (fmdom (cc_entries c))"

definition cc_now_ms :: "credential_cache \<Rightarrow> instant \<Rightarrow> u64" where
  "cc_now_ms c now = of_nat ((now - cc_base c) div 10 ^ 6)"

definition mk_waiter :: "credential_cache \<Rightarrow> nat \<Rightarrow> string \<Rightarrow> bool \<Rightarrow> waiter" where
  "mk_waiter c ch username started =
     \<lparr> wt_chan = ch, wt_key = cc_realm c @ [CHR 0x00] @ username, wt_started = started \<rparr>"

definition bump :: "(webhook_stats \<Rightarrow> webhook_stats) \<Rightarrow> credential_cache \<Rightarrow> credential_cache" where
  "bump f c = c\<lparr>cc_stats := f (cc_stats c)\<rparr>"

definition cc_answer ::
  "string \<Rightarrow> cache_slot \<Rightarrow> u64 \<Rightarrow> credential_cache \<Rightarrow> wlookup option \<times> credential_cache" where
  "cc_answer username slot now_ms c =
     (case sl_state slot of
        InFlight ch \<Rightarrow>
          (Some (KeysPending (mk_waiter c ch username False)), bump (\<lambda>w. w\<lparr>wk_coalesced := wk_coalesced w + 1\<rparr>) c)
      | SlotFound keys \<Rightarrow>
          if sl_expires_ms slot \<le> now_ms then (None, c)
          else (Some (KeysFound keys), bump (\<lambda>w. w\<lparr>wk_hits := wk_hits w + 1\<rparr>) c)
      | SlotNotFound \<Rightarrow>
          if sl_expires_ms slot \<le> now_ms then (None, c)
          else (Some KeysNotFound, bump (\<lambda>w. w\<lparr>wk_negative_hits := wk_negative_hits w + 1\<rparr>) c)
      | SlotFailed \<Rightarrow>
          if sl_expires_ms slot \<le> now_ms then (None, c)
          else (Some KeysUnavailable, bump (\<lambda>w. w\<lparr>wk_error_hits := wk_error_hits w + 1\<rparr>) c))"

definition cc_peek :: "string \<Rightarrow> instant \<Rightarrow> credential_cache \<Rightarrow> wlookup \<times> credential_cache" where
  "cc_peek username now c =
     (case fmlookup (cc_entries c) username of
        None \<Rightarrow> (KeysNotFound, c)
      | Some slot \<Rightarrow>
          if is_in_flight (sl_state slot) then (KeysNotFound, c)
          else case cc_answer username slot (cc_now_ms c now) c of
                 (Some a, c) \<Rightarrow> (a, c) | (None, c) \<Rightarrow> (KeysNotFound, c))"

definition SAMPLE :: nat where [rust_const]: "SAMPLE = 16"

fun evict_scan :: "u64 \<Rightarrow> (string, cache_slot) fmap \<Rightarrow> (string \<times> u64) option \<Rightarrow> string list \<Rightarrow> (string \<times> u64) option" where
  "evict_scan now entries victim [] = victim"
| "evict_scan now entries victim (k # ks) =
     (case fmlookup entries k of
        None \<Rightarrow> evict_scan now entries victim ks
      | Some slot \<Rightarrow>
          if is_in_flight (sl_state slot) then evict_scan now entries victim ks
          else
            let exp = sl_expires_ms slot;
                victim = (case victim of
                            None \<Rightarrow> Some (k, exp)
                          | Some (v, best) \<Rightarrow> if exp < best then Some (k, exp) else Some (v, best))
            in if exp \<le> now then victim else evict_scan now entries victim ks)"

definition evict_one :: "u64 \<Rightarrow> string list \<Rightarrow> credential_cache \<Rightarrow> bool \<times> credential_cache" where
  "evict_one now order c =
     (case evict_scan now (cc_entries c) None (take SAMPLE order) of
        None \<Rightarrow> (False, c)
      | Some (k, _) \<Rightarrow>
          (case fmlookup (cc_entries c) k of
             None \<Rightarrow> (False, c)
           | Some slot \<Rightarrow>
               if is_in_flight (sl_state slot) then (False, c)
               else (True, bump (\<lambda>w. w\<lparr>wk_evictions := wk_evictions w + 1\<rparr>) (c\<lparr>cc_entries := fmdrop k (cc_entries c)\<rparr>))))"

text \<open>The end of a lookup that starts a fetch: mark the entry, queue the job, or undo the mark.\<close>

definition start_fetch :: "string \<Rightarrow> credential_cache \<Rightarrow> wlookup \<times> credential_cache" where
  "start_fetch username c =
     (let ch = cc_channels c;
          c = c\<lparr>cc_channels := ch + 1,
                cc_entries := fmupd username
                  (case fmlookup (cc_entries c) username of
                     Some slot \<Rightarrow> slot\<lparr>sl_state := InFlight ch\<rparr>
                   | None \<Rightarrow> \<lparr> sl_state = InFlight ch, sl_expires_ms = 0 \<rparr>) (cc_entries c)\<rparr>;
          c = bump (\<lambda>w. w\<lparr>wk_misses := wk_misses w + 1\<rparr>) c;
          job = \<lparr> fj_username = username, fj_realm = cc_realm c \<rparr>
      in if cc_receiver c \<and> length (cc_queue c) < max (ws_queue_depth (cc_settings c)) 1
         then (KeysPending (mk_waiter c ch username True), c\<lparr>cc_queue := cc_queue c @ [job]\<rparr>)
         else (KeysUnavailable,
               bump (\<lambda>w. w\<lparr>wk_rejected := wk_rejected w + 1\<rparr>) (c\<lparr>cc_entries := fmdrop username (cc_entries c)\<rparr>)))"

definition make_room :: "string \<Rightarrow> u64 \<Rightarrow> string list \<Rightarrow> credential_cache \<Rightarrow> bool \<times> credential_cache" where
  "make_room username now_ms order c =
     (if username |\<in>| fmdom (cc_entries c) \<or> cc_len c < ws_max_entries (cc_settings c) then (True, c)
      else evict_one now_ms order c)"

definition lookup_with ::
  "string \<Rightarrow> fetch_policy \<Rightarrow> instant \<Rightarrow> string list \<Rightarrow> credential_cache \<Rightarrow> wlookup \<times> credential_cache" where
  "lookup_with username policy now order c =
     (if policy = FetchNever then cc_peek username now c
      else if username = [] \<or> length username \<ge> MAX_USERNAME_BYTES then (KeysNotFound, c)
      else
        let now_ms = cc_now_ms c now in
        case (case fmlookup (cc_entries c) username of
                Some slot \<Rightarrow> cc_answer username slot now_ms c | None \<Rightarrow> (None, c)) of
          (Some answer, c) \<Rightarrow> (answer, c)
        | (None, c) \<Rightarrow>
            if policy = FetchAdmit False
            then (KeysThrottled, bump (\<lambda>w. w\<lparr>wk_throttled := wk_throttled w + 1\<rparr>) c)
            else case make_room username now_ms order c of
                   (False, c) \<Rightarrow> (KeysUnavailable, bump (\<lambda>w. w\<lparr>wk_rejected := wk_rejected w + 1\<rparr>) c)
                 | (True, c) \<Rightarrow> start_fetch username c)"

definition cc_lookup :: "string \<Rightarrow> instant \<Rightarrow> string list \<Rightarrow> credential_cache \<Rightarrow> wlookup \<times> credential_cache" where
  "cc_lookup username now order c = lookup_with username FetchAlways now order c"

definition outcome_slot :: "webhook_settings \<Rightarrow> fetch_outcome \<Rightarrow> slot_state \<times> nat" where
  "outcome_slot s outcome =
     (case outcome of
        FetchFound keys ttl \<Rightarrow>
          (SlotFound keys, case ttl of Some t \<Rightarrow> min t (ws_positive_ttl s) | None \<Rightarrow> ws_positive_ttl s)
      | FetchNotFound \<Rightarrow> (SlotNotFound, ws_negative_ttl s)
      | FetchFailed \<Rightarrow> (SlotFailed, ws_error_ttl s))"

definition cc_complete :: "string \<Rightarrow> fetch_outcome \<Rightarrow> instant \<Rightarrow> credential_cache \<Rightarrow> credential_cache" where
  "cc_complete username outcome now c =
     (let (state, ttl) = outcome_slot (cc_settings c) outcome;
          ttl = max ttl MIN_TTL;
          expires_ms = saturating_add (cc_now_ms c now) (of_nat (ttl div 10 ^ 6))
      in case fmlookup (cc_entries c) username of
           None \<Rightarrow> c
         | Some slot \<Rightarrow>
             c\<lparr>cc_entries := fmupd username \<lparr> sl_state = state, sl_expires_ms = expires_ms \<rparr> (cc_entries c),
               cc_done := (case sl_state slot of InFlight ch \<Rightarrow> ch # cc_done c | _ \<Rightarrow> cc_done c)\<rparr>)"

definition cc_sweep :: "instant \<Rightarrow> credential_cache \<Rightarrow> credential_cache" where
  "cc_sweep now c =
     c\<lparr>cc_entries := fmfilter (\<lambda>k. case fmlookup (cc_entries c) k of
        Some s \<Rightarrow> is_in_flight (sl_state s) \<or> sl_expires_ms s > cc_now_ms c now | None \<Rightarrow> False) (cc_entries c)\<rparr>"

text \<open>The fetcher takes the next job, or goes away.\<close>

definition cc_recv :: "credential_cache \<Rightarrow> fetch_job option \<times> credential_cache" where
  "cc_recv c = (case cc_queue c of [] \<Rightarrow> (None, c) | job # jobs \<Rightarrow> (Some job, c\<lparr>cc_queue := jobs\<rparr>))"

definition sign_request :: "crypto \<Rightarrow> bytes \<Rightarrow> u64 \<Rightarrow> bytes \<Rightarrow> string" where
  "sign_request C secret timestamp body =
     ''v1='' @ concat (map fmt_hex2 (hmac_sha256 C secret (as_bytes (fmt_nat (unat timestamp)) @ as_bytes ''.'' @ body)))"

section \<open>Histories\<close>

text \<open>
  What can happen to a cache: time passes, requests look names up under any policy, the fetcher takes jobs, answers
  them or goes away, the sweep runs. The log holds the answers with the reading of the cache's clock.
\<close>

inductive cache_run :: "webhook_settings \<Rightarrow> (string \<times> fetch_outcome \<times> u64) list \<Rightarrow> credential_cache \<Rightarrow> bool"
  for s where
  cr_new: "cache_run s [] (CredentialCache_new realm s now)"
| cr_lookup: "cache_run s log c \<Longrightarrow> cache_run s log (snd (lookup_with username policy now order c))"
| cr_complete: "cache_run s log c
    \<Longrightarrow> cache_run s (log @ [(username, outcome, cc_now_ms c now)]) (cc_complete username outcome now c)"
| cr_sweep: "cache_run s log c \<Longrightarrow> cache_run s log (cc_sweep now c)"
| cr_recv: "cache_run s log c \<Longrightarrow> cache_run s log (snd (cc_recv c))"
| cr_gone: "cache_run s log c \<Longrightarrow> cache_run s log (c\<lparr>cc_receiver := False\<rparr>)"

definition vouched :: "webhook_settings \<Rightarrow> (string \<times> fetch_outcome \<times> u64) list \<Rightarrow> string \<Rightarrow> user_keys \<Rightarrow> u64 \<Rightarrow> bool" where
  "vouched s log username keys expires \<longleftrightarrow>
     (\<exists>ttl t. (username, FetchFound keys ttl, t) \<in> set log
        \<and> unat expires \<le> unat t
            + max (case ttl of Some d \<Rightarrow> min d (ws_positive_ttl s) | None \<Rightarrow> ws_positive_ttl s) (from_secs 1) div 10 ^ 6)"

definition cache_ok :: "webhook_settings \<Rightarrow> (string \<times> fetch_outcome \<times> u64) list \<Rightarrow> credential_cache \<Rightarrow> bool" where
  "cache_ok s log c \<longleftrightarrow>
     cc_settings c = s \<and> cc_len c \<le> ws_max_entries s \<and> length (cc_queue c) \<le> max (ws_queue_depth s) 1
     \<and> (\<forall>u slot keys. fmlookup (cc_entries c) u = Some slot \<and> sl_state slot = SlotFound keys
          \<longrightarrow> vouched s log u keys (sl_expires_ms slot))"

lemma cache_okI:
  assumes "cache_ok s log c" "cc_settings c' = cc_settings c" "cc_len c' \<le> ws_max_entries s"
    "length (cc_queue c') \<le> max (ws_queue_depth s) 1"
    "\<And>u slot keys. \<lbrakk>fmlookup (cc_entries c') u = Some slot; sl_state slot = SlotFound keys\<rbrakk>
       \<Longrightarrow> fmlookup (cc_entries c) u = Some slot"
  shows "cache_ok s log c'"
  using assms unfolding cache_ok_def by metis

lemma bump_simps [simp]:
  "cc_settings (bump f c) = cc_settings c" "cc_entries (bump f c) = cc_entries c" "cc_queue (bump f c) = cc_queue c"
  "cc_len (bump f c) = cc_len c" "cc_receiver (bump f c) = cc_receiver c" "cc_channels (bump f c) = cc_channels c"
  "cc_realm (bump f c) = cc_realm c"
  by (simp_all add: bump_def cc_len_def)

lemma cache_ok_bump [simp]: "cache_ok s log (bump f c) = cache_ok s log c"
  by (simp add: cache_ok_def)

lemma cc_answer_state: "snd (cc_answer u slot now c) = c \<or> (\<exists>f. snd (cc_answer u slot now c) = bump f c)"
  by (auto simp: cc_answer_def split: slot_state.split)

lemma cache_ok_answer [simp]: "cache_ok s log (snd (cc_answer u slot now c)) = cache_ok s log c"
  using cc_answer_state [of u slot now c] by auto

lemma cc_answer_okD: "cc_answer u slot now c = (a, c') \<Longrightarrow> cache_ok s log c' = cache_ok s log c"
  by (metis cache_ok_answer snd_conv)

lemma cc_answer_Found:
  "cc_answer u slot now c = (Some (KeysFound keys), c') \<Longrightarrow> sl_state slot = SlotFound keys \<and> now < sl_expires_ms slot"
  by (auto simp: cc_answer_def split: slot_state.splits if_splits)

lemma fcard_fmdrop: "k |\<in>| fmdom m \<Longrightarrow> fcard (fmdom (fmdrop k m)) = fcard (fmdom m) - 1"
  by (simp add: fcard.rep_eq card_Diff_singleton)

lemma evict_one_spec:
  assumes "evict_one now order c = (b, c')"
  shows "cc_settings c' = cc_settings c" "cc_queue c' = cc_queue c"
    "b \<Longrightarrow> \<exists>k. k |\<in>| fmdom (cc_entries c) \<and> cc_entries c' = fmdrop k (cc_entries c)" "\<not> b \<Longrightarrow> c' = c"
  using assms by (auto simp: evict_one_def split: option.splits prod.splits if_splits intro!: fmdomI)

lemma make_room_ok:
  assumes "cache_ok s log c" "make_room u now order c = (b, c')"
  shows "cache_ok s log c'" "cc_settings c' = s"
    "b \<Longrightarrow> u |\<in>| fmdom (cc_entries c') \<or> cc_len c' < ws_max_entries s"
proof -
  have s: "cc_settings c = s" "cc_len c \<le> ws_max_entries s" using assms(1) by (simp_all add: cache_ok_def)
  show "cache_ok s log c'" "cc_settings c' = s" "b \<Longrightarrow> u |\<in>| fmdom (cc_entries c') \<or> cc_len c' < ws_max_entries s"
  proof (atomize (full), cases "u |\<in>| fmdom (cc_entries c) \<or> cc_len c < ws_max_entries s")
    case True
    with assms s show "cache_ok s log c' \<and> cc_settings c' = s \<and> (b \<longrightarrow> u |\<in>| fmdom (cc_entries c') \<or> cc_len c' < ws_max_entries s)"
      by (auto simp: make_room_def)
  next
    case False
    then have e: "evict_one now order c = (b, c')" using assms(2) s(1) by (simp add: make_room_def)
    note spec = evict_one_spec [OF e]
    show "cache_ok s log c' \<and> cc_settings c' = s \<and> (b \<longrightarrow> u |\<in>| fmdom (cc_entries c') \<or> cc_len c' < ws_max_entries s)"
    proof (cases b)
      case True
      then obtain k where k: "k |\<in>| fmdom (cc_entries c)" "cc_entries c' = fmdrop k (cc_entries c)" using spec(3) by blast
      then have len: "cc_len c' = cc_len c - 1" by (simp add: cc_len_def fcard_fmdrop)
      moreover have "cc_len c \<noteq> 0" using k(1) by (auto simp: cc_len_def)
      moreover have "cache_ok s log c'"
        by (rule cache_okI [OF assms(1)]) (use k spec len s assms(1) in \<open>auto simp: cache_ok_def split: if_splits\<close>)
      ultimately show ?thesis using spec(1) s by auto
    next
      case False
      with spec(4) assms(1) s show ?thesis by simp
    qed
  qed
qed

lemma start_fetch_ok:
  assumes "cache_ok s log c" "u |\<in>| fmdom (cc_entries c) \<or> cc_len c < ws_max_entries s"
  shows "cache_ok s log (snd (start_fetch u c))"
proof -
  have s: "cc_settings c = s" "cc_len c \<le> ws_max_entries s" "length (cc_queue c) \<le> max (ws_queue_depth s) 1"
    using assms(1) by (simp_all add: cache_ok_def)
  have "fcard (finsert u (fmdom (cc_entries c))) \<le> ws_max_entries s"
    using assms(2) s(2) by (cases "u |\<in>| fmdom (cc_entries c)") (auto simp: cc_len_def finsert_absorb fcard_finsert_disjoint)
  moreover have "fcard (fmdom (fmdrop u (cc_entries c))) \<le> fcard (fmdom (cc_entries c))"
    by (auto intro: fcard_mono)
  ultimately show ?thesis
    by (intro cache_okI [OF assms(1)])
      (use s in \<open>auto simp: start_fetch_def Let_def cc_len_def split: if_splits option.splits\<close>)
qed

lemma lookup_with_ok:
  assumes "cache_ok s log c"
  shows "cache_ok s log (snd (lookup_with u policy now order c))"
proof -
  let ?first = "case fmlookup (cc_entries c) u of Some slot \<Rightarrow> cc_answer u slot (cc_now_ms c now) c | None \<Rightarrow> (None, c)"
  have "cache_ok s log (snd ?first)" using assms by (simp split: option.split)
  then obtain a c1 where first: "?first = (a, c1)" "cache_ok s log c1" by (cases ?first) auto
  have "cache_ok s log (snd (cc_peek u now c))"
    using assms by (auto simp: cc_peek_def cc_answer_okD split: option.split prod.split)
  moreover have "cache_ok s log (snd (case make_room u ms order c1 of
      (False, c) \<Rightarrow> (KeysUnavailable, bump f c) | (True, c) \<Rightarrow> start_fetch u c))" for ms f
  proof -
    obtain b c2 where r: "make_room u ms order c1 = (b, c2)" by (cases "make_room u ms order c1")
    show ?thesis using make_room_ok [OF first(2) r] start_fetch_ok [of s log c2 u] by (cases b) (simp_all add: r)
  qed
  ultimately show ?thesis
    using assms first by (auto simp: lookup_with_def Let_def split: option.split)
qed

lemma vouched_mono: "vouched s log u keys e \<Longrightarrow> vouched s (log @ l) u keys e"
  by (auto simp: vouched_def)

lemma complete_vouched:
  assumes "outcome_slot s outcome = (SlotFound keys, ttl)"
  shows "vouched s (log @ [(u, outcome, t)]) u keys (saturating_add t (of_nat (max ttl MIN_TTL div 10 ^ 6)))"
proof -
  obtain d where o: "outcome = FetchFound keys d" "ttl = (case d of Some d \<Rightarrow> min d (ws_positive_ttl s) | None \<Rightarrow> ws_positive_ttl s)"
    using assms by (cases outcome) (auto simp: outcome_slot_def)
  have "unat (of_nat x :: u64) \<le> x" for x
    by (simp add: unat_of_nat)
  then have "unat (saturating_add t (of_nat (max ttl MIN_TTL div 10 ^ 6))) \<le> unat t + max ttl MIN_TTL div 10 ^ 6"
    by (rule order_trans [OF unat_saturating_add_le add_left_mono])
  with o show ?thesis unfolding vouched_def MIN_TTL_def by auto
qed

lemma cache_run_ok: "cache_run s log c \<Longrightarrow> cache_ok s log c"
proof (induction rule: cache_run.induct)
  case (cr_new realm now)
  then show ?case by (simp add: cache_ok_def CredentialCache_new_def cc_len_def fcard.rep_eq)
next
  case (cr_lookup log c username policy now order)
  then show ?case by (intro lookup_with_ok)
next
  case (cr_complete log c username outcome now)
  then have s: "cc_settings c = s" by (simp add: cache_ok_def)
  obtain st ttl where o: "outcome_slot s outcome = (st, ttl)" by (cases "outcome_slot s outcome")
  let ?e = "saturating_add (cc_now_ms c now) (of_nat (max ttl MIN_TTL div 10 ^ 6))"
  let ?log = "log @ [(username, outcome, cc_now_ms c now)]"
  show ?case
  proof (cases "fmlookup (cc_entries c) username")
    case None
    with cr_complete.IH show ?thesis by (auto simp: cc_complete_def o s cache_ok_def intro: vouched_mono)
  next
    case (Some slot)
    then have dom: "finsert username (fmdom (cc_entries c)) = fmdom (cc_entries c)" by (intro finsert_absorb fmdomI)
    have "vouched s ?log username keys ?e" if "st = SlotFound keys" for keys
      using complete_vouched o that by blast
    with cr_complete.IH Some dom show ?thesis
      by (auto simp: cc_complete_def o s cache_ok_def cc_len_def intro: vouched_mono)
  qed
next
  case (cr_sweep log c now)
  have "fcard (fmdom (cc_entries (cc_sweep now c))) \<le> fcard (fmdom (cc_entries c))"
    by (rule fcard_mono) (auto simp: cc_sweep_def)
  with cr_sweep.IH show ?case
    by (auto simp: cache_ok_def cc_sweep_def cc_len_def)
next
  case (cr_recv log c)
  then show ?case by (auto simp: cc_recv_def cache_ok_def cc_len_def split: list.splits)
next
  case (cr_gone log c)
  then show ?case by (simp add: cache_ok_def cc_len_def)
qed

lemma lookup_with_Found:
  assumes "lookup_with u policy now order c = (KeysFound keys, c')"
  obtains slot where "fmlookup (cc_entries c) u = Some slot" "sl_state slot = SlotFound keys"
    "cc_now_ms c now < sl_expires_ms slot"
proof (cases "policy = FetchNever")
  case True
  then obtain slot where "fmlookup (cc_entries c) u = Some slot"
      "cc_answer u slot (cc_now_ms c now) c = (Some (KeysFound keys), c')"
    using assms by (auto simp: lookup_with_def cc_peek_def split: option.splits prod.splits if_splits)
  then show thesis using that cc_answer_Found by blast
next
  case False
  let ?first = "case fmlookup (cc_entries c) u of Some slot \<Rightarrow> cc_answer u slot (cc_now_ms c now) c | None \<Rightarrow> (None, c)"
  obtain a c1 where first: "?first = (a, c1)" by (cases ?first)
  have "fst (start_fetch u c2) \<noteq> KeysFound keys" for c2
    by (simp add: start_fetch_def Let_def)
  then have "fst (case make_room u ms order c1 of (False, c) \<Rightarrow> (KeysUnavailable, bump f c) | (True, c) \<Rightarrow> start_fetch u c)
      \<noteq> KeysFound keys" for ms f
    by (auto split: prod.split bool.split)
  then have "(case make_room u ms order c1 of (False, c) \<Rightarrow> (KeysUnavailable, bump f c) | (True, c) \<Rightarrow> start_fetch u c)
      \<noteq> (KeysFound keys, c')" for ms f
    by (metis fst_conv)
  with assms False first have "a = Some (KeysFound keys)"
    by (auto simp: lookup_with_def Let_def split: if_splits option.splits)
  with first obtain slot where "fmlookup (cc_entries c) u = Some slot"
      "cc_answer u slot (cc_now_ms c now) c = (Some (KeysFound keys), c1)"
    by (auto split: option.splits)
  then show thesis using that cc_answer_Found by blast
qed

text \<open>
  C21. The cache fails closed: whatever the interleaving of look-ups, answers and sweeps, keys are handed out only for
  a name the endpoint vouched for, with exactly those keys, and not after the lifetime of that answer, which is at most
  the configured one (or one second if that is longer); and neither the table nor the queue outgrows its bound.
\<close>

theorem webhook_fail_closed:
  assumes "cache_run s log c"
  shows "cc_len c \<le> ws_max_entries s \<and> length (cc_queue c) \<le> max (ws_queue_depth s) 1
    \<and> (fst (lookup_with u policy now order c) = KeysFound keys
       \<longrightarrow> (\<exists>ttl t. (u, FetchFound keys ttl, t) \<in> set log
             \<and> unat (cc_now_ms c now) < unat t
                 + max (case ttl of Some d \<Rightarrow> min d (ws_positive_ttl s) | None \<Rightarrow> ws_positive_ttl s) (from_secs 1) div 10 ^ 6))"
proof -
  have ok: "cache_ok s log c" by (rule cache_run_ok [OF assms])
  show ?thesis
  proof (intro conjI impI)
    assume "fst (lookup_with u policy now order c) = KeysFound keys"
    then obtain c' where "lookup_with u policy now order c = (KeysFound keys, c')" by (metis prod.collapse)
    then obtain slot where slot: "fmlookup (cc_entries c) u = Some slot" "sl_state slot = SlotFound keys"
      "cc_now_ms c now < sl_expires_ms slot" by (rule lookup_with_Found)
    then have "vouched s log u keys (sl_expires_ms slot)" using ok by (auto simp: cache_ok_def)
    moreover have "unat (cc_now_ms c now) < unat (sl_expires_ms slot)" using slot(3) by (simp add: word_less_nat_alt)
    ultimately show "\<exists>ttl t. (u, FetchFound keys ttl, t) \<in> set log
             \<and> unat (cc_now_ms c now) < unat t
                 + max (case ttl of Some d \<Rightarrow> min d (ws_positive_ttl s) | None \<Rightarrow> ws_positive_ttl s) (from_secs 1) div 10 ^ 6"
      unfolding vouched_def by (meson less_le_trans)
  qed (use ok in \<open>simp_all add: cache_ok_def\<close>)
qed

definition sample_settings :: webhook_settings where
  "sample_settings =
     \<lparr> ws_positive_ttl = from_secs 300, ws_negative_ttl = from_secs 30, ws_error_ttl = from_secs 2,
       ws_max_entries = 4, ws_queue_depth = 8 \<rparr>"

definition sample_keys :: user_keys where
  "sample_keys = \<lparr> uk_md5 = [1], uk_sha256 = [2] \<rparr>"

definition sample_cache :: credential_cache where
  "sample_cache = cc_complete ''bob'' (FetchFound sample_keys None) 7
     (snd (lookup_with ''bob'' FetchAlways 5 [] (CredentialCache_new ''r'' sample_settings 0)))"

lemma sample_cache_run: "cache_run sample_settings [(''bob'', FetchFound sample_keys None, 0)] sample_cache"
proof -
  let ?c = "snd (lookup_with ''bob'' FetchAlways 5 [] (CredentialCache_new ''r'' sample_settings 0))"
  have "cc_now_ms ?c 7 = 0"
    by (simp add: lookup_with_def make_room_def start_fetch_def CredentialCache_new_def cc_len_def
        sample_settings_def rust_const Let_def bump_def cc_now_ms_def)
  then show ?thesis
    using cr_complete [OF cr_lookup [OF cr_new [of sample_settings "''r''" 0], of "''bob''" FetchAlways 5 "[]"],
        of "''bob''" "FetchFound sample_keys None" 7]
    unfolding sample_cache_def by simp
qed

theorem webhook_fail_closed_witness:
  "fst (lookup_with ''bob'' FetchNever 9 [] sample_cache) = KeysFound sample_keys
   \<and> (\<exists>ttl t. (''bob'', FetchFound sample_keys ttl, t) \<in> set [(''bob'', FetchFound sample_keys None, 0 :: u64)]
        \<and> unat (cc_now_ms sample_cache 9) < unat t
            + max (case ttl of Some d \<Rightarrow> min d (ws_positive_ttl sample_settings) | None \<Rightarrow> ws_positive_ttl sample_settings)
                (from_secs 1) div 10 ^ 6)"
proof -
  have f: "fst (lookup_with ''bob'' FetchNever 9 [] sample_cache) = KeysFound sample_keys"
    by (simp add: sample_cache_def cc_complete_def outcome_slot_def lookup_with_def make_room_def start_fetch_def
        CredentialCache_new_def cc_len_def sample_settings_def rust_const Let_def bump_def cc_now_ms_def cc_peek_def
        cc_answer_def saturating_add_def from_secs_def fcard.rep_eq)
  show ?thesis
    by (rule conjI [OF f mp [OF conjunct2 [OF conjunct2 [OF webhook_fail_closed [OF sample_cache_run]]] f]])
qed

end
