(* ===== verification/Auth.thy ===== *)
theory Auth
  imports Webhook_Cache
begin

text \<open>
  Validation of TURN credentials (\<^verbatim>\<open>crates/auth/src/lib.rs\<close>, \<^verbatim>\<open>oauth_token.rs\<close>). The process-wide settings and the counter are
  a record passed through; a validation may change them and the webhook cache of a backend, so it
  returns both. The integrity checks made against a dummy key to equalise timing have no
  effect and are left out, and so is the overwriting of secrets when a backend is dropped.
\<close>

section \<open>Errors, settings, backends\<close>

datatype auth_error =
    MissingCredentials
  | InvalidCredentials
  | Expired
  | IntegrityFailed
  | BadRequest
  | AuthPending waiter
  | AuthUnavailable
  | AuthThrottled

type_synonym 'a auth_res = "(auth_error, 'a) res"

definition UserKeys_derive :: "crypto \<Rightarrow> string \<Rightarrow> string \<Rightarrow> string \<Rightarrow> user_keys" where
  "UserKeys_derive C username realm password =
     \<lparr> uk_md5 = long_term_key C username realm password, uk_sha256 = long_term_key_sha256 C username realm password \<rparr>"

record auth_globals =
  ag_require_sha256 :: bool
  ag_previous_secret_uses :: u64
  ag_clock_skew_secs :: u64

definition auth_globals_default :: auth_globals where
  "auth_globals_default = \<lparr> ag_require_sha256 = False, ag_previous_secret_uses = 0, ag_clock_skew_secs = 0 \<rparr>"

definition set_require_sha256 :: "bool \<Rightarrow> auth_globals \<Rightarrow> auth_globals" where
  "set_require_sha256 v g = g\<lparr>ag_require_sha256 := v\<rparr>"

definition set_credential_clock_skew_secs :: "u64 \<Rightarrow> auth_globals \<Rightarrow> auth_globals" where
  "set_credential_clock_skew_secs secs g = g\<lparr>ag_clock_skew_secs := secs\<rparr>"

record oauth_mode =
  oa_realm :: string
  oa_as_rs_keys :: "bytes list"
  oa_kid_keys :: "(string \<times> bytes) list"
  oa_strict_kid :: bool
  oa_server_name :: string
  oa_as_identity :: string

datatype auth_mode =
    LongTerm string "(string, user_keys) fmap" "(bytes, string) fmap" "credential_cache option"
  | SharedSecret string bytes "bytes option"
  | OAuth oauth_mode

fun am_realm :: "auth_mode \<Rightarrow> string" where
  "am_realm (LongTerm realm _ _ _) = realm"
| "am_realm (SharedSecret realm _ _) = realm"
| "am_realm (OAuth o1) = oa_realm o1"

fun subject_of :: "auth_mode \<Rightarrow> string \<Rightarrow> string" where
  "subject_of (SharedSecret _ _ _) username =
     (case split_once CHR '':'' username of Some (_, userid) \<Rightarrow> userid | None \<Rightarrow> username)"
| "subject_of (LongTerm _ _ _ _) username = username"
| "subject_of (OAuth _) username = username"

record validated =
  vd_key :: bytes
  vd_max_lifetime_secs :: "u32 option"
  vd_username :: string

text \<open>The readings one validation takes: wall clock, monotonic clock, iteration order of the webhook table.\<close>

record auth_clock =
  ac_now_secs :: u64
  ac_now :: instant
  ac_order :: "string list"

section \<open>Access tokens (RFC 7635)\<close>

definition OAUTH_CLOCK_SKEW_SECS :: u64 where [rust_const]: "OAUTH_CLOCK_SKEW_SECS = 5"

definition abs_diff :: "'a::len word \<Rightarrow> 'a word \<Rightarrow> 'a word" where
  "abs_diff a b = (if b \<le> a then a - b else b - a)"

definition token_time_valid :: "u64 \<Rightarrow> u32 \<Rightarrow> u64 \<Rightarrow> u64 \<Rightarrow> bool" where
  "token_time_valid ts_fixed_point lifetime now_secs skew_secs =
     (let ts_secs = drop_bit 16 ts_fixed_point
      in abs_diff ts_secs now_secs < saturating_add (ucast lifetime) skew_secs)"

definition aead_decrypt :: "crypto \<Rightarrow> bytes \<Rightarrow> bytes \<Rightarrow> bytes \<Rightarrow> bytes \<Rightarrow> bytes auth_res" where
  "aead_decrypt C key nonce aad ciphertext =
     (if length nonce \<noteq> 12 then Err InvalidCredentials
      else if length key = 16 \<or> length key = 32 then
        (case c_gcm_open C key nonce aad ciphertext of Some p \<Rightarrow> Ok p | None \<Rightarrow> Err IntegrityFailed)
      else Err InvalidCredentials)"

record opened_token =
  ot_mac_key :: bytes
  ot_timestamp :: u64
  ot_lifetime :: u32

definition open_access_token :: "crypto \<Rightarrow> bytes \<Rightarrow> bytes list \<Rightarrow> string \<Rightarrow> opened_token auth_res" where
  "open_access_token C token as_rs_keys server_name =
     (if length token < 2 then Err InvalidCredentials
      else
        let nonce_len = unat (from_be_bytes [token ! 0, token ! 1] :: u16);
            rest = drop 2 token
        in if length rest < nonce_len then Err InvalidCredentials
           else
             let nonce = take nonce_len rest; ciphertext = drop nonce_len rest in
             case find_map (\<lambda>key. case aead_decrypt C key nonce (as_bytes server_name) ciphertext of
                                     Ok p \<Rightarrow> Some p | _ \<Rightarrow> None) as_rs_keys of
               None \<Rightarrow> Err InvalidCredentials
             | Some plaintext \<Rightarrow>
                 if length plaintext < 2 then Err InvalidCredentials
                 else
                   let key_len = unat (from_be_bytes [plaintext ! 0, plaintext ! 1] :: u16);
                       need = 2 + key_len + 8 + 4
                   in if length plaintext < need then Err InvalidCredentials
                      else Ok \<lparr> ot_mac_key = sliced plaintext 2 (2 + key_len),
                                ot_timestamp = from_be_bytes (sliced plaintext (2 + key_len) (2 + key_len + 8)),
                                ot_lifetime = from_be_bytes (sliced plaintext (2 + key_len + 8) (2 + key_len + 12)) \<rparr>)"

definition decrypt_access_token :: "crypto \<Rightarrow> bytes \<Rightarrow> bytes list \<Rightarrow> string \<Rightarrow> u64 \<Rightarrow> (bytes \<times> u32) auth_res" where
  "decrypt_access_token C token as_rs_keys server_name now =
     bind_res (open_access_token C token as_rs_keys server_name) (\<lambda>opened.
       let ts = ot_timestamp opened; lifetime = ot_lifetime opened in
       if \<not> token_time_valid ts lifetime now OAUTH_CLOCK_SKEW_SECS then Err Expired
       else
         let remaining = min (saturating_sub (saturating_add (drop_bit 16 ts) (ucast lifetime)) now) (2 ^ 32 - 1)
         in Ok (ot_mac_key opened, ucast remaining))"

record token_contents =
  tc_mac_key :: bytes
  tc_timestamp_secs :: u64
  tc_lifetime :: u32

definition encode_access_token :: "crypto \<Rightarrow> bytes \<Rightarrow> string \<Rightarrow> bytes \<Rightarrow> token_contents \<Rightarrow> bytes auth_res" where
  "encode_access_token C as_rs_key server_name nonce contents =
     (if tc_mac_key contents = [] \<or> length (tc_mac_key contents) > 65535 then Err BadRequest
      else
        let block = be_bytes 2 (of_nat (length (tc_mac_key contents)) :: u16) @ tc_mac_key contents
              @ be_bytes 8 (push_bit 16 (tc_timestamp_secs contents)) @ be_bytes 4 (tc_lifetime contents)
        in if length as_rs_key = 16 \<or> length as_rs_key = 32 then
             (case c_gcm_seal C as_rs_key nonce (as_bytes server_name) block of
                None \<Rightarrow> Err BadRequest
              | Some sealed \<Rightarrow> Ok (be_bytes 2 (of_nat (length nonce) :: u16) @ nonce @ sealed))
           else Err BadRequest)"

definition inspect_access_token :: "crypto \<Rightarrow> bytes \<Rightarrow> bytes list \<Rightarrow> string \<Rightarrow> token_contents auth_res" where
  "inspect_access_token C token as_rs_keys server_name =
     bind_res (open_access_token C token as_rs_keys server_name) (\<lambda>opened.
       Ok \<lparr> tc_mac_key = ot_mac_key opened, tc_timestamp_secs = drop_bit 16 (ot_timestamp opened),
            tc_lifetime = ot_lifetime opened \<rparr>)"

section \<open>Validation\<close>

definition uses_sha256 :: "stun_message \<Rightarrow> bool" where
  "uses_sha256 msg \<longleftrightarrow> get_message_integrity_sha256 msg \<noteq> None"

definition check_integrity :: "crypto \<Rightarrow> bool \<Rightarrow> stun_message \<Rightarrow> bytes \<Rightarrow> bytes \<Rightarrow> bool" where
  "check_integrity C has_sha256 msg raw key =
     (if has_sha256 then verify_integrity_sha256 (c_hmac_sha256 C) msg raw key
      else verify_integrity (c_hmac_sha1 C) msg raw key)"

definition candidate_keys :: "oauth_mode \<Rightarrow> stun_message \<Rightarrow> bytes list auth_res" where
  "candidate_keys o1 msg =
     (let trial_all = map snd (oa_kid_keys o1) @ oa_as_rs_keys o1 in
      case get_username msg of
        Some kid \<Rightarrow>
          (case List.find (\<lambda>(k, _). k = kid) (oa_kid_keys o1) of
             Some (_, key) \<Rightarrow> Ok [key]
           | None \<Rightarrow> if oa_strict_kid o1 then Err InvalidCredentials else Ok trial_all)
      | None \<Rightarrow> if oa_strict_kid o1 then Err MissingCredentials else Ok trial_all)"

definition validate_oauth :: "crypto \<Rightarrow> oauth_mode \<Rightarrow> stun_message \<Rightarrow> bytes \<Rightarrow> u64 \<Rightarrow> (bytes \<times> u32) auth_res" where
  "validate_oauth C o1 msg raw now =
     (case get_access_token msg of
        None \<Rightarrow> Err MissingCredentials
      | Some token \<Rightarrow>
          bind_res (candidate_keys o1 msg) (\<lambda>keys.
          bind_res (decrypt_access_token C token keys (oa_server_name o1) now) (\<lambda>(mac_key, remaining).
            if mac_key = [] then Err InvalidCredentials
            else if \<not> check_integrity C (uses_sha256 msg) msg raw mac_key then Err IntegrityFailed
            else Ok (mac_key, remaining))))"

definition resolve_username :: "auth_mode \<Rightarrow> stun_message \<Rightarrow> string auth_res" where
  "resolve_username mode msg =
     (case get_username msg of
        Some u \<Rightarrow> Ok u
      | None \<Rightarrow>
          (case get_userhash msg of
             None \<Rightarrow> Err MissingCredentials
           | Some hash \<Rightarrow>
               (case mode of
                  LongTerm _ _ userhashes _ \<Rightarrow>
                    (case fmlookup userhashes hash of Some name \<Rightarrow> Ok name | None \<Rightarrow> Err InvalidCredentials)
                | SharedSecret _ _ _ \<Rightarrow> Err InvalidCredentials
                | OAuth _ \<Rightarrow> Panic)))"

definition select_key :: "bool \<Rightarrow> user_keys \<Rightarrow> bytes" where
  "select_key has_sha256 keys = (if has_sha256 then uk_sha256 keys else uk_md5 keys)"

definition long_term_lookup ::
  "bool \<Rightarrow> string \<Rightarrow> fetch_policy \<Rightarrow> auth_clock \<Rightarrow> (string, user_keys) fmap \<Rightarrow> credential_cache option
     \<Rightarrow> bytes auth_res \<times> credential_cache option" where
  "long_term_lookup has_sha256 username fetch clk users webhook =
     (case (fmlookup users username, webhook) of
        (Some entry, _) \<Rightarrow> (Ok (select_key has_sha256 entry), webhook)
      | (None, None) \<Rightarrow> (Err InvalidCredentials, None)
      | (None, Some cache) \<Rightarrow>
          let (answer, cache) = lookup_with username fetch (ac_now clk) (ac_order clk) cache
          in ((case answer of
                 KeysFound keys \<Rightarrow>
                   let k = select_key has_sha256 keys in if k = [] then Err InvalidCredentials else Ok k
               | KeysNotFound \<Rightarrow> Err InvalidCredentials
               | KeysUnavailable \<Rightarrow> Err AuthUnavailable
               | KeysPending w \<Rightarrow> Err (AuthPending w)
               | KeysThrottled \<Rightarrow> Err AuthThrottled), Some cache))"

definition rest_key :: "crypto \<Rightarrow> bool \<Rightarrow> string \<Rightarrow> string \<Rightarrow> bytes \<Rightarrow> bytes" where
  "rest_key C has_sha256 username server_realm s =
     (let password = c_b64 C (c_hmac_sha1 C s (as_bytes username))
      in if has_sha256 then long_term_key_sha256 C username server_realm password
         else long_term_key C username server_realm password)"

definition shared_secret_lookup ::
  "crypto \<Rightarrow> bool \<Rightarrow> stun_message \<Rightarrow> bytes \<Rightarrow> string \<Rightarrow> string \<Rightarrow> bytes \<Rightarrow> bytes option \<Rightarrow> u64 \<Rightarrow> auth_globals
     \<Rightarrow> bytes auth_res \<times> auth_globals" where
  "shared_secret_lookup C has_sha256 msg raw username server_realm secret previous now g =
     (case split_once CHR '':'' username of
        None \<Rightarrow> (Err InvalidCredentials, g)
      | Some (ts_str, _) \<Rightarrow>
          (case parse_radix 10 (2 ^ 64) ts_str of
             None \<Rightarrow> (Err InvalidCredentials, g)
           | Some expiry \<Rightarrow>
               if saturating_add (of_nat expiry) (ag_clock_skew_secs g) < now then (Err Expired, g)
               else
                 let primary = rest_key C has_sha256 username server_realm secret in
                 case previous of
                   Some prev \<Rightarrow>
                     if \<not> check_integrity C has_sha256 msg raw primary then
                       let old = rest_key C has_sha256 username server_realm prev in
                       if check_integrity C has_sha256 msg raw old
                       then (Ok old, g\<lparr>ag_previous_secret_uses := ag_previous_secret_uses g + 1\<rparr>)
                       else (Ok primary, g)
                     else (Ok primary, g)
                 | None \<Rightarrow> (Ok primary, g)))"

definition password_algorithm_ok :: "bool \<Rightarrow> stun_message \<Rightarrow> bool" where
  "password_algorithm_ok has_sha256 msg =
     (case get_password_algorithm msg of
        None \<Rightarrow> True
      | Some algo \<Rightarrow> if algo = PASSWORD_ALGORITHM_SHA256 then has_sha256
                     else if algo = PASSWORD_ALGORITHM_MD5 then \<not> has_sha256 else False)"

definition finish_validation ::
  "crypto \<Rightarrow> bool \<Rightarrow> stun_message \<Rightarrow> bytes \<Rightarrow> string \<Rightarrow> bytes \<Rightarrow> validated auth_res" where
  "finish_validation C has_sha256 msg raw username key =
     (if \<not> password_algorithm_ok has_sha256 msg then Err BadRequest
      else if \<not> check_integrity C has_sha256 msg raw key then Err IntegrityFailed
      else Ok \<lparr> vd_key = key, vd_max_lifetime_secs = None, vd_username = username \<rparr>)"

definition validate_identity_opts ::
  "crypto \<Rightarrow> stun_message \<Rightarrow> bytes \<Rightarrow> fetch_policy \<Rightarrow> auth_clock \<Rightarrow> auth_globals \<Rightarrow> auth_mode
     \<Rightarrow> validated auth_res \<times> auth_globals \<times> auth_mode" where
  "validate_identity_opts C msg raw fetch clk g mode =
     (case mode of
        OAuth o1 \<Rightarrow>
          (bind_res (validate_oauth C o1 msg raw (ac_now_secs clk)) (\<lambda>(mac_key, lifetime).
             Ok \<lparr> vd_key = mac_key, vd_max_lifetime_secs = Some lifetime,
                  vd_username = (case get_username msg of Some u \<Rightarrow> u | None \<Rightarrow> []) \<rparr>), g, mode)
      | _ \<Rightarrow>
          if \<not> has_user_identity msg then (Err MissingCredentials, g, mode)
          else case get_realm msg of
            None \<Rightarrow> (Err MissingCredentials, g, mode)
          | Some realm \<Rightarrow>
              if realm \<noteq> am_realm mode then (Err InvalidCredentials, g, mode)
              else case resolve_username mode msg of
                Err e \<Rightarrow> (Err e, g, mode)
              | Panic \<Rightarrow> (Panic, g, mode)
              | Ok username \<Rightarrow>
                  let has_sha256 = uses_sha256 msg in
                  if \<not> has_sha256 \<and> ag_require_sha256 g then (Err InvalidCredentials, g, mode)
                  else case mode of
                    LongTerm r users userhashes webhook \<Rightarrow>
                      let (key, webhook) = long_term_lookup has_sha256 username fetch clk users webhook
                      in (bind_res key (finish_validation C has_sha256 msg raw username), g,
                          LongTerm r users userhashes webhook)
                  | SharedSecret r secret previous \<Rightarrow>
                      let (key, g) = shared_secret_lookup C has_sha256 msg raw username r secret previous (ac_now_secs clk) g
                      in (bind_res key (finish_validation C has_sha256 msg raw username), g, mode)
                  | OAuth _ \<Rightarrow> (Panic, g, mode))"

section \<open>Managing users\<close>

fun supports_userhash :: "auth_mode \<Rightarrow> bool" where
  "supports_userhash (LongTerm _ _ _ _) = True"
| "supports_userhash _ = False"

definition long_term :: "crypto \<Rightarrow> string \<Rightarrow> (string \<times> string) list \<Rightarrow> auth_mode" where
  "long_term C realm users =
     (let (m, hashes) = fold (\<lambda>(u, p) (m, hashes).
            (fmupd u (UserKeys_derive C u realm p) m, fmupd (userhash C u realm) u hashes)) users (fmempty, fmempty)
      in LongTerm realm m hashes None)"

fun with_webhook :: "credential_cache \<Rightarrow> auth_mode \<Rightarrow> auth_mode" where
  "with_webhook cache (LongTerm realm users userhashes webhook) =
     (if cc_realm cache = realm then LongTerm realm users userhashes (Some cache)
      else LongTerm realm users userhashes webhook)"
| "with_webhook cache mode = mode"

fun am_webhook :: "auth_mode \<Rightarrow> credential_cache option" where
  "am_webhook (LongTerm _ _ _ webhook) = webhook"
| "am_webhook _ = None"

fun add_user_keys :: "crypto \<Rightarrow> string \<Rightarrow> user_keys \<Rightarrow> auth_mode \<Rightarrow> bool \<times> auth_mode" where
  "add_user_keys C username keys (LongTerm realm users userhashes webhook) =
     (True, LongTerm realm (fmupd username keys users) (fmupd (userhash C username realm) username userhashes) webhook)"
| "add_user_keys C username keys mode = (False, mode)"

fun add_user :: "crypto \<Rightarrow> string \<Rightarrow> string \<Rightarrow> auth_mode \<Rightarrow> bool \<times> auth_mode" where
  "add_user C username password (LongTerm realm users userhashes webhook) =
     (True, LongTerm realm (fmupd username (UserKeys_derive C username realm password) users)
              (fmupd (userhash C username realm) username userhashes) webhook)"
| "add_user C username password mode = (False, mode)"

fun remove_user :: "crypto \<Rightarrow> string \<Rightarrow> auth_mode \<Rightarrow> bool \<times> auth_mode" where
  "remove_user C username (LongTerm realm users userhashes webhook) =
     (let h = userhash C username realm;
          userhashes = (if fmlookup userhashes h = Some username then fmdrop h userhashes else userhashes)
      in (username |\<in>| fmdom users, LongTerm realm (fmdrop username users) userhashes webhook))"
| "remove_user C username mode = (False, mode)"

fun has_user :: "auth_mode \<Rightarrow> string \<Rightarrow> bool" where
  "has_user (LongTerm _ users _ _) username = (username |\<in>| fmdom users)"
| "has_user _ username = False"

definition oauth_full ::
  "string \<Rightarrow> bytes list \<Rightarrow> (string \<times> bytes) list \<Rightarrow> bool \<Rightarrow> string \<Rightarrow> string \<Rightarrow> auth_mode" where
  "oauth_full realm as_rs_keys kid_keys strict_kid server_name as_identity =
     OAuth \<lparr> oa_realm = realm, oa_as_rs_keys = as_rs_keys, oa_kid_keys = kid_keys, oa_strict_kid = strict_kid,
             oa_server_name = server_name, oa_as_identity = (if as_identity = [] then server_name else as_identity) \<rparr>"

definition oauth :: "string \<Rightarrow> bytes list \<Rightarrow> string \<Rightarrow> auth_mode" where
  "oauth realm as_rs_keys server_name =
     OAuth \<lparr> oa_realm = realm, oa_as_rs_keys = as_rs_keys, oa_kid_keys = [], oa_strict_kid = False,
             oa_server_name = server_name, oa_as_identity = server_name \<rparr>"

definition oauth_with_identity :: "string \<Rightarrow> bytes list \<Rightarrow> string \<Rightarrow> string \<Rightarrow> auth_mode" where
  "oauth_with_identity realm as_rs_keys server_name as_identity =
     OAuth \<lparr> oa_realm = realm, oa_as_rs_keys = as_rs_keys, oa_kid_keys = [], oa_strict_kid = False,
             oa_server_name = server_name, oa_as_identity = (if as_identity = [] then server_name else as_identity) \<rparr>"

fun oauth_identity :: "auth_mode \<Rightarrow> string option" where
  "oauth_identity (OAuth o1) = Some (oa_as_identity o1)"
| "oauth_identity _ = None"

end
