(* ===== verification/Auth_Registry.thy ===== *)
theory Auth_Registry
  imports Auth
begin

text \<open>
  The registry of authentication backends (\<^verbatim>\<open>crates/auth/src/tenant.rs\<close>): a base backend and one per tenant, found by the
  realm of the request. A published backend is replaced as a whole, so a validation sees one backend
  from its start to its end; the registry it returns carries what the validation changed in it.
\<close>

section \<open>The registry\<close>

record auth_resolution =
  rs_tenant_id :: "string option"
  rs_realm :: string
  rs_key :: bytes
  rs_subject :: string
  rs_max_lifetime_secs :: "u32 option"

record auth_registry =
  ar_tenants :: "(string, string \<times> auth_mode) fmap"
  ar_base :: auth_mode
  ar_base_realm :: string

definition AuthRegistry_new :: "auth_mode \<Rightarrow> auth_registry" where
  "AuthRegistry_new base = \<lparr> ar_tenants = fmempty, ar_base = base, ar_base_realm = am_realm base \<rparr>"

definition with_tenant :: "string \<Rightarrow> auth_mode \<Rightarrow> auth_registry \<Rightarrow> auth_registry" where
  "with_tenant tenant_id auth r = r\<lparr>ar_tenants := fmupd (am_realm auth) (tenant_id, auth) (ar_tenants r)\<rparr>"

definition replace_base :: "auth_mode \<Rightarrow> auth_registry \<Rightarrow> bool \<times> auth_registry" where
  "replace_base new r =
     (if am_realm new \<noteq> ar_base_realm r then (False, r)
      else if supports_userhash (ar_base r) \<noteq> supports_userhash new then (False, r)
      else (True, r\<lparr>ar_base := new\<rparr>))"

definition replace_tenant :: "string \<Rightarrow> auth_mode \<Rightarrow> auth_registry \<Rightarrow> bool \<times> auth_registry" where
  "replace_tenant realm new r =
     (if am_realm new \<noteq> realm then (False, r)
      else case fmlookup (ar_tenants r) realm of
             Some (tenant_id, slot) \<Rightarrow>
               if supports_userhash slot \<noteq> supports_userhash new then (False, r)
               else (True, r\<lparr>ar_tenants := fmupd realm (tenant_id, new) (ar_tenants r)\<rparr>)
           | None \<Rightarrow> (False, r))"

definition all_realms_support_userhash :: "auth_registry \<Rightarrow> bool" where
  "all_realms_support_userhash r \<longleftrightarrow>
     supports_userhash (ar_base r) \<and> fBall (fmran (ar_tenants r)) (\<lambda>(_, auth). supports_userhash auth)"

definition tenant_count :: "auth_registry \<Rightarrow> nat" where
  "tenant_count r = fcard (fmdom (ar_tenants r))"

definition default_realm :: "auth_registry \<Rightarrow> string" where
  "default_realm r = ar_base_realm r"

definition base_oauth_identity :: "auth_registry \<Rightarrow> string option" where
  "base_oauth_identity r = oauth_identity (ar_base r)"

definition base_webhook :: "auth_registry \<Rightarrow> credential_cache option" where
  "base_webhook r = am_webhook (ar_base r)"

definition resolution :: "string option \<Rightarrow> string \<Rightarrow> auth_mode \<Rightarrow> validated \<Rightarrow> auth_resolution" where
  "resolution tenant_id realm mode v =
     \<lparr> rs_tenant_id = tenant_id, rs_realm = realm, rs_key = vd_key v, rs_subject = subject_of mode (vd_username v),
       rs_max_lifetime_secs = vd_max_lifetime_secs v \<rparr>"

definition validate_opts ::
  "crypto \<Rightarrow> stun_message \<Rightarrow> bytes \<Rightarrow> fetch_policy \<Rightarrow> auth_clock \<Rightarrow> auth_globals \<Rightarrow> auth_registry
     \<Rightarrow> auth_resolution auth_res \<times> auth_globals \<times> auth_registry" where
  "validate_opts C msg raw fetch clk g r =
     (case get_realm msg of
        None \<Rightarrow> (Err MissingCredentials, g, r)
      | Some realm \<Rightarrow>
          (case fmlookup (ar_tenants r) realm of
             Some (tenant_id, mode) \<Rightarrow>
               let (v, g, mode') = validate_identity_opts C msg raw fetch clk g mode
               in (bind_res v (\<lambda>v. Ok (resolution (Some tenant_id) realm mode v)), g,
                   r\<lparr>ar_tenants := fmupd realm (tenant_id, mode') (ar_tenants r)\<rparr>)
           | None \<Rightarrow>
               if realm = ar_base_realm r then
                 let (v, g, base') = validate_identity_opts C msg raw fetch clk g (ar_base r)
                 in (bind_res v (\<lambda>v. Ok (resolution None realm (ar_base r) v)), g, r\<lparr>ar_base := base'\<rparr>)
               else (Err InvalidCredentials, g, r)))"

text \<open>Managing the users of one realm.\<close>

definition on_realm :: "string \<Rightarrow> (auth_mode \<Rightarrow> bool \<times> auth_mode) \<Rightarrow> auth_registry \<Rightarrow> bool \<times> auth_registry" where
  "on_realm realm f r =
     (if realm = ar_base_realm r then
        let (b, base) = f (ar_base r) in (b, r\<lparr>ar_base := base\<rparr>)
      else case fmlookup (ar_tenants r) realm of
             Some (tenant_id, auth) \<Rightarrow>
               let (b, auth) = f auth in (b, r\<lparr>ar_tenants := fmupd realm (tenant_id, auth) (ar_tenants r)\<rparr>)
           | None \<Rightarrow> (False, r))"

definition ar_add_user :: "crypto \<Rightarrow> string \<Rightarrow> string \<Rightarrow> auth_registry \<Rightarrow> bool \<times> auth_registry" where
  "ar_add_user C username password r =
     (let (b, base) = add_user C username password (ar_base r) in (b, r\<lparr>ar_base := base\<rparr>))"

definition ar_remove_user :: "crypto \<Rightarrow> string \<Rightarrow> auth_registry \<Rightarrow> bool \<times> auth_registry" where
  "ar_remove_user C username r =
     (let (b, base) = remove_user C username (ar_base r) in (b, r\<lparr>ar_base := base\<rparr>))"

definition add_user_for_realm :: "crypto \<Rightarrow> string \<Rightarrow> string \<Rightarrow> string \<Rightarrow> auth_registry \<Rightarrow> bool \<times> auth_registry" where
  "add_user_for_realm C realm username password r = on_realm realm (add_user C username password) r"

definition remove_user_for_realm :: "crypto \<Rightarrow> string \<Rightarrow> string \<Rightarrow> auth_registry \<Rightarrow> bool \<times> auth_registry" where
  "remove_user_for_realm C realm username r = on_realm realm (remove_user C username) r"

definition add_user_with_keys :: "crypto \<Rightarrow> string \<Rightarrow> string \<Rightarrow> user_keys \<Rightarrow> auth_registry \<Rightarrow> bool \<times> auth_registry" where
  "add_user_with_keys C realm username keys r = on_realm realm (add_user_keys C username keys) r"

section \<open>What a successful validation establishes\<close>

text \<open>
  The credential a key belongs to: the stored key of the user (or one the webhook vouched for),
  the key of an unexpired TURN REST credential under the current or the previous secret, or the key inside an
  access token that opens under one of the server's keys.
\<close>

definition legitimate_key ::
  "crypto \<Rightarrow> stun_message \<Rightarrow> fetch_policy \<Rightarrow> auth_clock \<Rightarrow> auth_globals \<Rightarrow> auth_mode \<Rightarrow> string \<Rightarrow> bytes \<Rightarrow> bool" where
  "legitimate_key C msg fetch clk g mode username key =
     (let sha256 = uses_sha256 msg in
      case mode of
        LongTerm realm users userhashes webhook \<Rightarrow>
          (case fmlookup users username of
             Some keys \<Rightarrow> key = select_key sha256 keys
           | None \<Rightarrow> \<exists>cache keys. webhook = Some cache \<and> key = select_key sha256 keys \<and> key \<noteq> []
               \<and> fst (lookup_with username fetch (ac_now clk) (ac_order clk) cache) = KeysFound keys)
      | SharedSecret realm secret previous \<Rightarrow>
          \<exists>ts userid expiry s. username = ts @ '':'' @ userid \<and> parse_radix 10 (2 ^ 64) ts = Some expiry
            \<and> ac_now_secs clk \<le> saturating_add (of_nat expiry) (ag_clock_skew_secs g)
            \<and> (s = secret \<or> previous = Some s) \<and> key = rest_key C sha256 username realm s
      | OAuth o1 \<Rightarrow>
          \<exists>token keys remaining. get_access_token msg = Some token \<and> candidate_keys o1 msg = Ok keys
            \<and> decrypt_access_token C token keys (oa_server_name o1) (ac_now_secs clk) = Ok (key, remaining) \<and> key \<noteq> [])"

lemma long_term_lookup_Ok:
  "fst (long_term_lookup sha256 u fetch clk users webhook) = Ok key \<Longrightarrow>
     (case fmlookup users u of
        Some keys \<Rightarrow> key = select_key sha256 keys
      | None \<Rightarrow> \<exists>cache keys. webhook = Some cache \<and> key = select_key sha256 keys \<and> key \<noteq> []
          \<and> fst (lookup_with u fetch (ac_now clk) (ac_order clk) cache) = KeysFound keys)"
  by (auto simp: long_term_lookup_def Let_def split: option.splits prod.splits wlookup.splits if_splits)

lemma shared_secret_lookup_Ok:
  assumes "fst (shared_secret_lookup C sha256 msg raw u realm secret previous now g) = Ok key"
  shows "\<exists>ts userid expiry s. u = ts @ '':'' @ userid \<and> parse_radix 10 (2 ^ 64) ts = Some expiry
            \<and> now \<le> saturating_add (of_nat expiry) (ag_clock_skew_secs g)
            \<and> (s = secret \<or> previous = Some s) \<and> key = rest_key C sha256 u realm s"
proof -
  obtain ts userid where split: "split_once CHR '':'' u = Some (ts, userid)"
    using assms by (auto simp: shared_secret_lookup_def split: option.splits)
  obtain expiry where expiry: "parse_radix 10 (2 ^ 64) ts = Some expiry"
    using assms split by (auto simp: shared_secret_lookup_def split: option.splits)
  have time: "now \<le> saturating_add (of_nat expiry) (ag_clock_skew_secs g)"
    using assms split expiry by (auto simp: shared_secret_lookup_def not_less split: if_splits)
  have "\<exists>s. (s = secret \<or> previous = Some s) \<and> key = rest_key C sha256 u realm s"
    using assms split expiry time by (auto simp: shared_secret_lookup_def Let_def split: option.splits if_splits)
  moreover have "u = ts @ '':'' @ userid" using split_once_SomeD [OF split] by simp
  ultimately show ?thesis using expiry time by blast
qed

lemma finish_validation_Ok:
  "finish_validation C sha256 msg raw u key = Ok v \<Longrightarrow>
     v = \<lparr> vd_key = key, vd_max_lifetime_secs = None, vd_username = u \<rparr> \<and> check_integrity C sha256 msg raw key
     \<and> password_algorithm_ok sha256 msg"
  by (auto simp: finish_validation_def split: if_splits)

lemma validate_oauth_Ok:
  "validate_oauth C o1 msg raw now = Ok (key, remaining) \<Longrightarrow>
     check_integrity C (uses_sha256 msg) msg raw key
     \<and> (\<exists>token keys. get_access_token msg = Some token \<and> candidate_keys o1 msg = Ok keys
          \<and> decrypt_access_token C token keys (oa_server_name o1) now = Ok (key, remaining) \<and> key \<noteq> [])"
  by (auto simp: validate_oauth_def bind_res_Ok_iff split: option.splits if_splits)

text \<open>The name a request is validated as.\<close>

definition named :: "auth_mode \<Rightarrow> stun_message \<Rightarrow> string \<Rightarrow> bool" where
  "named mode msg username =
     (case get_username msg of
        Some u \<Rightarrow> username = u
      | None \<Rightarrow>
          (case mode of
             LongTerm _ _ userhashes _ \<Rightarrow> \<exists>h. get_userhash msg = Some h \<and> fmlookup userhashes h = Some username
           | SharedSecret _ _ _ \<Rightarrow> False
           | OAuth _ \<Rightarrow> username = []))"

text \<open>The guards every backend but OAuth passes before it looks a key up.\<close>

lemma validate_guards:
  assumes "fst (validate_identity_opts C msg raw fetch clk g mode) = Ok v" and "\<And>o1. mode \<noteq> OAuth o1"
  obtains u where "has_user_identity msg" "get_realm msg = Some (am_realm mode)" "resolve_username mode msg = Ok u"
    "ag_require_sha256 g \<longrightarrow> uses_sha256 msg"
proof -
  let ?v = "validate_identity_opts C msg raw fetch clk g mode"
  have v: "?v = (if \<not> has_user_identity msg then (Err MissingCredentials, g, mode) else snd (True, ?v))"
    using assms(2) by (cases mode) (auto simp: validate_identity_opts_def)
  then have h: "has_user_identity msg" using assms(1) by (cases "has_user_identity msg") auto
  obtain realm where r: "get_realm msg = Some realm" "realm = am_realm mode"
    using assms h by (cases "get_realm msg"; cases mode; cases "the (get_realm msg) = am_realm mode") (auto simp: validate_identity_opts_def)
  moreover obtain u where u: "resolve_username mode msg = Ok u"
    using assms h r by (cases "resolve_username mode msg"; cases mode) (auto simp: validate_identity_opts_def)
  moreover have "ag_require_sha256 g \<longrightarrow> uses_sha256 msg"
    using assms h r u by (cases "uses_sha256 msg"; cases "ag_require_sha256 g"; cases mode) (auto simp: validate_identity_opts_def Let_def)
  ultimately show thesis using h that by blast
qed

lemma validate_past_guards:
  assumes "has_user_identity msg" "get_realm msg = Some (am_realm mode)" "resolve_username mode msg = Ok u"
    "ag_require_sha256 g \<longrightarrow> uses_sha256 msg"
  shows "mode = LongTerm realm users userhashes webhook \<Longrightarrow>
      fst (validate_identity_opts C msg raw fetch clk g mode) =
        bind_res (fst (long_term_lookup (uses_sha256 msg) u fetch clk users webhook))
          (finish_validation C (uses_sha256 msg) msg raw u)"
    "mode = SharedSecret realm secret previous \<Longrightarrow>
      fst (validate_identity_opts C msg raw fetch clk g mode) =
        bind_res (fst (shared_secret_lookup C (uses_sha256 msg) msg raw u realm secret previous
            (ac_now_secs clk) g))
          (finish_validation C (uses_sha256 msg) msg raw u)"
  using assms by (auto simp: validate_identity_opts_def Let_def split_beta)

lemma validate_identity_opts_Ok:
  assumes "validate_identity_opts C msg raw fetch clk g mode = (Ok v, g', mode')"
  shows "check_integrity C (uses_sha256 msg) msg raw (vd_key v)"
    "legitimate_key C msg fetch clk g mode (vd_username v) (vd_key v)" "named mode msg (vd_username v)"
    "\<not> (case mode of OAuth _ \<Rightarrow> True | _ \<Rightarrow> False) \<Longrightarrow> get_realm msg = Some (am_realm mode)
       \<and> (ag_require_sha256 g \<longrightarrow> uses_sha256 msg)"
proof -
  let ?sha = "uses_sha256 msg"
  have res: "fst (validate_identity_opts C msg raw fetch clk g mode) = Ok v" using assms by simp
  have "check_integrity C ?sha msg raw (vd_key v) \<and> legitimate_key C msg fetch clk g mode (vd_username v) (vd_key v)
    \<and> named mode msg (vd_username v)
    \<and> (\<not> (case mode of OAuth _ \<Rightarrow> True | _ \<Rightarrow> False) \<longrightarrow> get_realm msg = Some (am_realm mode)
         \<and> (ag_require_sha256 g \<longrightarrow> uses_sha256 msg))"
  proof (cases mode)
    case (OAuth o1)
    then obtain key lifetime where o1: "validate_oauth C o1 msg raw (ac_now_secs clk) = Ok (key, lifetime)" "vd_key v = key"
        "vd_username v = (case get_username msg of Some u \<Rightarrow> u | None \<Rightarrow> [])"
      using res by (auto simp: validate_identity_opts_def bind_res_Ok_iff)
    with validate_oauth_Ok [OF o1(1)] OAuth show ?thesis
      by (auto simp: legitimate_key_def Let_def named_def split: option.splits)
  next
    case (LongTerm realm users userhashes webhook)
    then obtain u where u: "has_user_identity msg" "get_realm msg = Some (am_realm mode)" "resolve_username mode msg = Ok u"
        "ag_require_sha256 g \<longrightarrow> ?sha"
      using validate_guards [OF res] by blast
    then obtain key where key: "fst (long_term_lookup ?sha u fetch clk users webhook) = Ok key"
        "finish_validation C ?sha msg raw u key = Ok v"
      using res validate_past_guards(1) [OF u LongTerm] by (auto simp: bind_res_Ok_iff)
    moreover have "named mode msg u" using u(3) LongTerm by (auto simp: resolve_username_def named_def split: option.splits)
    ultimately show ?thesis
      using u finish_validation_Ok [OF key(2)] long_term_lookup_Ok [OF key(1)]
      by (simp add: legitimate_key_def Let_def LongTerm)
  next
    case (SharedSecret realm secret previous)
    then obtain u where u: "has_user_identity msg" "get_realm msg = Some (am_realm mode)" "resolve_username mode msg = Ok u"
        "ag_require_sha256 g \<longrightarrow> ?sha"
      using validate_guards [OF res] by blast
    then obtain key where key: "fst (shared_secret_lookup C ?sha msg raw u realm secret previous (ac_now_secs clk) g) = Ok key"
        "finish_validation C ?sha msg raw u key = Ok v"
      using res validate_past_guards(2) [OF u SharedSecret] by (auto simp: bind_res_Ok_iff)
    moreover have "named mode msg u" using u(3) SharedSecret by (auto simp: resolve_username_def named_def split: option.splits)
    ultimately show ?thesis
      using u finish_validation_Ok [OF key(2)] shared_secret_lookup_Ok [OF key(1)]
      by (simp add: legitimate_key_def Let_def SharedSecret)
  qed
  then show "check_integrity C ?sha msg raw (vd_key v)"
    "legitimate_key C msg fetch clk g mode (vd_username v) (vd_key v)" "named mode msg (vd_username v)"
    "\<not> (case mode of OAuth _ \<Rightarrow> True | _ \<Rightarrow> False) \<Longrightarrow> get_realm msg = Some (am_realm mode)
       \<and> (ag_require_sha256 g \<longrightarrow> uses_sha256 msg)"
    by blast+
qed

end
