(* ===== verification/Auth_Credentials.thy ===== *)
theory Auth_Credentials
  imports Auth_Registry
begin

text \<open>
  What the credential checks promise: a successful validation is backed by a legitimate key of the backend of its
  realm, a minted TURN REST credential is accepted until it expires, and an access token opens to what was
  sealed in it.
\<close>

section \<open>Soundness\<close>

text \<open>
  C10. A request is attributed to a tenant and a subject only by credentials: whenever the registry accepts a request, the
  request carries the realm of the backend that was asked, the whole request is authenticated under the returned key by
  the integrity attribute it carries, that key is a legitimate key of that backend for the name the
  request gives (a stored or vouched-for key, an unexpired REST credential, an open access token), the tenant is the one
  registered for that realm, and the subject is the one behind that name.
\<close>

theorem auth_resolution_sound:
  assumes "validate_opts C msg raw fetch clk g r = (Ok res, g', r')"
  shows "\<exists>mode name. get_realm msg = Some (rs_realm res)
    \<and> (case fmlookup (ar_tenants r) (rs_realm res) of
         Some (tenant_id, m) \<Rightarrow> mode = m \<and> rs_tenant_id res = Some tenant_id
       | None \<Rightarrow> mode = ar_base r \<and> rs_tenant_id res = None \<and> rs_realm res = ar_base_realm r)
    \<and> named mode msg name \<and> rs_subject res = subject_of mode name
    \<and> legitimate_key C msg fetch clk g mode name (rs_key res)
    \<and> (if get_message_integrity_sha256 msg = None then verify_integrity (c_hmac_sha1 C) msg raw (rs_key res)
       else verify_integrity_sha256 (c_hmac_sha256 C) msg raw (rs_key res))"
proof -
  obtain realm where realm: "get_realm msg = Some realm"
    using assms by (auto simp: validate_opts_def split: option.splits)
  show ?thesis
  proof (cases "fmlookup (ar_tenants r) realm")
    case None
    then have base: "realm = ar_base_realm r" using assms realm by (auto simp: validate_opts_def split: if_splits)
    obtain v g1 b1 where v: "validate_identity_opts C msg raw fetch clk g (ar_base r) = (v, g1, b1)" by (rule prod_cases3)
    then obtain w where "v = Ok w" "res = resolution None realm (ar_base r) w"
      using assms realm None base by (auto simp: validate_opts_def bind_res_Ok_iff)
    with validate_identity_opts_Ok [of C msg raw fetch clk g "ar_base r" w g1 b1] v realm None base show ?thesis
      by (intro exI [of _ "ar_base r"] exI [of _ "vd_username w"]) (auto simp: resolution_def check_integrity_def uses_sha256_def)
  next
    case (Some entry)
    then obtain tid mode where m: "fmlookup (ar_tenants r) realm = Some (tid, mode)" by (cases entry) auto
    obtain v g1 m1 where v: "validate_identity_opts C msg raw fetch clk g mode = (v, g1, m1)" by (rule prod_cases3)
    then obtain w where "v = Ok w" "res = resolution (Some tid) realm mode w"
      using assms realm m by (auto simp: validate_opts_def bind_res_Ok_iff)
    with validate_identity_opts_Ok [of C msg raw fetch clk g mode w g1 m1] v realm m show ?thesis
      by (intro exI [of _ mode] exI [of _ "vd_username w"]) (auto simp: resolution_def check_integrity_def uses_sha256_def)
  qed
qed

section \<open>TURN REST credentials\<close>

lemma find_map_plain:
  "(\<And>a. \<not> plain_attr a \<Longrightarrow> f a = None) \<Longrightarrow> find_map f (filter plain_attr xs) = find_map f xs"
  by (induction xs) (auto split: option.splits)

definition signed_form :: "stun_message \<Rightarrow> bytes \<Rightarrow> u32 \<Rightarrow> stun_message" where
  "signed_form msg tag fp =
     msg\<lparr>sm_attributes := filter plain_attr (sm_attributes msg) @ [MessageIntegrity tag, Fingerprint fp]\<rparr>"

lemma signed_form_get:
  assumes "\<And>a. \<not> plain_attr a \<Longrightarrow> f a = None" "\<And>t. f (MessageIntegrity t) = None" "\<And>c. f (Fingerprint c) = None"
  shows "sm_get f (signed_form msg tag fp) = sm_get f msg"
  by (simp add: sm_get_def signed_form_def find_map_append find_map_plain [OF assms(1)] assms(2,3) split: option.split)

lemma signed_form_getters [simp]:
  "get_username (signed_form msg tag fp) = get_username msg" "get_realm (signed_form msg tag fp) = get_realm msg"
  "get_message_integrity_sha256 (signed_form msg tag fp) = get_message_integrity_sha256 msg"
  "get_password_algorithm (signed_form msg tag fp) = get_password_algorithm msg"
proof -
  note types = plain_attr_def rust_const
  show "get_username (signed_form msg tag fp) = get_username msg"
    unfolding get_username_def 
  proof (rule signed_form_get)
    fix a assume "\<not> plain_attr a"
    then show "(case a of Username u \<Rightarrow> Some u | _ \<Rightarrow> None) = None" by (cases a) (auto simp: types)
  qed simp_all
  show "get_realm (signed_form msg tag fp) = get_realm msg"
    unfolding get_realm_def 
  proof (rule signed_form_get)
    fix a assume "\<not> plain_attr a"
    then show "(case a of Realm u \<Rightarrow> Some u | _ \<Rightarrow> None) = None" by (cases a) (auto simp: types)
  qed simp_all
  show "get_message_integrity_sha256 (signed_form msg tag fp) = get_message_integrity_sha256 msg"
    unfolding get_message_integrity_sha256_def 
  proof (rule signed_form_get)
    fix a assume "\<not> plain_attr a"
    then show "(case a of Unknown t v \<Rightarrow> if t = ATTR_MESSAGE_INTEGRITY_SHA256 then Some v else None | _ \<Rightarrow> None) = None" by (cases a) (auto simp: types)
  qed simp_all
  show "get_password_algorithm (signed_form msg tag fp) = get_password_algorithm msg"
    unfolding get_password_algorithm_def 
  proof (rule signed_form_get)
    fix a assume "\<not> plain_attr a"
    then show "(case a of Unknown t v \<Rightarrow> if t = ATTR_PASSWORD_ALGORITHM \<and> length v \<ge> 2 then Some (from_be_bytes [v ! 0, v ! 1]) else None | _ \<Rightarrow> None) = None" by (cases a) (auto simp: types)
  qed simp_all
qed

lemma has_user_identity_signed: "get_username msg = Some u \<Longrightarrow> has_user_identity (signed_form msg tag fp)"
proof -
  assume "get_username msg = Some u"
  then have "get_username (signed_form msg tag fp) = Some u" by simp
  from find_map_Some [OF this [unfolded get_username_def sm_get_def]]
  obtain a where "a \<in> set (sm_attributes (signed_form msg tag fp))"
      "(case a of Username u \<Rightarrow> Some u | _ \<Rightarrow> None) = Some u" ..
  moreover from this(2) have "a = Username u" by (cases a) simp_all
  ultimately show ?thesis unfolding has_user_identity_def list_ex_iff by (intro bexI [of _ a]) simp_all
qed

lemma generated_credentials:
  assumes "generate_turn_credentials C minted user_id secret ttl = (user, password)"
  shows "user = fmt_nat (unat (minted + ttl)) @ '':'' @ user_id" "password = c_b64 C (c_hmac_sha1 C secret (as_bytes user))"
  using assms by (auto simp: generate_turn_credentials_def Let_def)

lemma generated_username:
  "split_once CHR '':'' (fmt_nat (unat (t :: u64)) @ '':'' @ user_id) = Some (fmt_nat (unat t), user_id)"
  "parse_radix 10 (2 ^ 64) (fmt_nat (unat t)) = Some (unat t)"
proof -
  have "unat t < 2 ^ 64" using unsigned_less [of t] by simp
  then show "parse_radix 10 (2 ^ 64) (fmt_nat (unat t)) = Some (unat t)" by (rule parse_fmt_nat)
qed (simp add: split_once_append)

text \<open>A key that verifies, from the current or from the previous secret, makes the look-up return a key that verifies.\<close>

lemma shared_secret_lookup_generated:
  assumes "u = fmt_nat (unat t) @ '':'' @ user_id"
    and "s = secret \<or> previous = Some secret" and "check_integrity C False msg raw (rest_key C False u realm secret)"
  shows "if now \<le> saturating_add t (ag_clock_skew_secs g)
    then \<exists>key. fst (shared_secret_lookup C False msg raw u realm s previous now g) = Ok key \<and> check_integrity C False msg raw key
    else fst (shared_secret_lookup C False msg raw u realm s previous now g) = Err Expired"
proof -
  have "split_once CHR '':'' u = Some (fmt_nat (unat t), user_id)" unfolding assms(1) by (rule generated_username)
  with assms(2,3) show ?thesis
    by (auto simp: shared_secret_lookup_def generated_username(2) [simplified] Let_def not_le split: option.splits)
qed

lemma generated_credentials_accepted:
  assumes "hmac_lengths C"
    and "generate_turn_credentials C minted user_id secret ttl = (user, password)"
    and "wf_message msg" "get_username msg = Some user" "get_realm msg = Some realm"
    and "get_message_integrity_sha256 msg = None" "get_password_algorithm msg \<in> {None, Some PASSWORD_ALGORITHM_MD5}"
    and "length (filter plain_attr (sm_attributes msg)) + 2 \<le> MAX_ATTRIBUTES_PER_MESSAGE"
    and "signed_size 20 msg \<le> HEADER_SIZE + unat MAX_MESSAGE_LEN" and "signed_size 20 msg \<le> length buf"
    and "s = secret \<or> previous = Some secret" and "\<not> ag_require_sha256 g"
  shows "\<exists>n buf' msg'.
      encode_with_integrity (c_hmac_sha1 C) crc msg buf (long_term_key C user realm password) = Ok (n, buf')
    \<and> StunMessage_decode (take n buf') = Ok msg'
    \<and> subject_of (SharedSecret realm s previous) user = user_id
    \<and> (if ac_now_secs clk \<le> saturating_add (minted + ttl) (ag_clock_skew_secs g)
       then \<exists>key. fst (validate_identity_opts C msg' (take n buf') fetch clk g (SharedSecret realm s previous))
              = Ok \<lparr> vd_key = key, vd_max_lifetime_secs = None, vd_username = user \<rparr>
       else fst (validate_identity_opts C msg' (take n buf') fetch clk g (SharedSecret realm s previous)) = Err Expired)"
proof -
  note gen = generated_credentials [OF assms(2)]
  have hm: "\<And>k m. length (c_hmac_sha1 C k m) = 20" using assms(1) by (simp add: hmac_lengths_def)
  have key: "rest_key C False user realm secret = long_term_key C user realm password"
    by (simp add: rest_key_def gen(2))
  obtain n buf' tag fp where e: "encode_with_integrity (c_hmac_sha1 C) crc msg buf (long_term_key C user realm password) = Ok (n, buf')"
      "StunMessage_decode (take n buf') = Ok (signed_form msg tag fp)"
      and v: "verify_integrity (c_hmac_sha1 C) (signed_form msg tag fp) (take n buf') (long_term_key C user realm password)"
    by (rule encode_with_integrity_accepted [where hm = "c_hmac_sha1 C" and crc = crc and key = "long_term_key C user realm password",
          OF assms(3,8,9,10) hm, folded signed_form_def])
  let ?m = "signed_form msg tag fp" and ?mode = "SharedSecret realm s previous" and ?raw = "take n buf'"
  have sha: "uses_sha256 ?m = False" using assms(6) by (simp add: uses_sha256_def)
  have guards: "has_user_identity ?m" "get_realm ?m = Some (am_realm ?mode)" "resolve_username ?mode ?m = Ok user"
      "ag_require_sha256 g \<longrightarrow> uses_sha256 ?m"
    using assms(4,5,12) by (simp_all add: has_user_identity_signed resolve_username_def)
  have res: "fst (validate_identity_opts C ?m ?raw fetch clk g ?mode)
      = bind_res (fst (shared_secret_lookup C False ?m ?raw user realm s previous (ac_now_secs clk) g))
          (finish_validation C False ?m ?raw user)"
    using validate_past_guards(2) [OF guards refl] unfolding sha by simp
  have "check_integrity C False ?m ?raw (rest_key C False user realm secret)" using v by (simp add: check_integrity_def key)
  note look = shared_secret_lookup_generated [OF gen(1) assms(11) this, of "ac_now_secs clk" g]
  have algo: "password_algorithm_ok False ?m" using assms(7) by (auto simp: password_algorithm_ok_def rust_const)
  have "subject_of ?mode user = user_id" unfolding gen(1) by (simp add: generated_username(1) [simplified])
  moreover have "if ac_now_secs clk \<le> saturating_add (minted + ttl) (ag_clock_skew_secs g)
       then \<exists>key. fst (validate_identity_opts C ?m ?raw fetch clk g ?mode)
              = Ok \<lparr> vd_key = key, vd_max_lifetime_secs = None, vd_username = user \<rparr>
       else fst (validate_identity_opts C ?m ?raw fetch clk g ?mode) = Err Expired"
    using look algo unfolding res by (auto simp: finish_validation_def split: if_splits)
  ultimately show ?thesis using e by blast
qed


text \<open>
  C37. A minted TURN REST credential works until it expires and then no longer: a request that carries the generated user name and the
  realm, signed with the key of the generated password and sent over the wire, is accepted by every node that holds the
  secret, as the current one or as the previous one of a rotation, up to the expiry plus the configured clock skew,
  and is answered Expired afterwards; its quota subject is the user id without the expiry.
\<close>

theorem rest_credentials_accepted:
  assumes "hmac_lengths C"
    and "generate_turn_credentials C minted user_id secret ttl = (user, password)"
    and "wf_message msg" "get_username msg = Some user" "get_realm msg = Some realm"
    and "get_message_integrity_sha256 msg = None" "get_password_algorithm msg \<in> {None, Some PASSWORD_ALGORITHM_MD5}"
    and "length (filter plain_attr (sm_attributes msg)) + 2 \<le> MAX_ATTRIBUTES_PER_MESSAGE"
    and "signed_size 20 msg \<le> HEADER_SIZE + unat MAX_MESSAGE_LEN" and "signed_size 20 msg \<le> length buf"
    and "s = secret \<or> previous = Some secret" and "\<not> ag_require_sha256 g"
  shows "\<exists>n buf' msg'.
      encode_with_integrity (c_hmac_sha1 C) crc msg buf (long_term_key C user realm password) = Ok (n, buf')
    \<and> StunMessage_decode (take n buf') = Ok msg'
    \<and> subject_of (SharedSecret realm s previous) user = user_id
    \<and> (if ac_now_secs clk \<le> saturating_add (minted + ttl) (ag_clock_skew_secs g)
       then \<exists>key. fst (validate_identity_opts C msg' (take n buf') fetch clk g (SharedSecret realm s previous))
              = Ok \<lparr> vd_key = key, vd_max_lifetime_secs = None, vd_username = user \<rparr>
       else fst (validate_identity_opts C msg' (take n buf') fetch clk g (SharedSecret realm s previous)) = Err Expired)"
  using assms by (rule generated_credentials_accepted)

definition sample_rest :: stun_message where
  "sample_rest = \<lparr> sm_class = Request, sm_method = M_Allocate, sm_transaction_id = replicate 12 1,
     sm_attributes = [Username ''1600:bob'', Realm ''r''] \<rparr>"

lemma sample_rest_user: "generate_turn_credentials toy_crypto 1000 ''bob'' [5] 600
    = (''1600:bob'', of_bytes (toy_mac 20 [5] (as_bytes ''1600:bob'')))"
proof -
  have "fmt_nat 1600 = ''1600''" by code_simp
  then show ?thesis by (simp add: generate_turn_credentials_def toy_crypto_def Let_def)
qed

lemma sample_rest_ok:
  "wf_message sample_rest" "length (message_wire sample_rest) = 40"
  "length (filter plain_attr (sm_attributes sample_rest)) = 2"
  by (simp_all add: sample_rest_def wf_message_def plain_attr_def fits_attr_def rust_const is_string_ascii
        message_wire_def wires_def length_attr_wire pad4_def as_bytes_def)

theorem rest_credentials_accepted_witness:
  "\<exists>n buf' msg' key.
      encode_with_integrity (c_hmac_sha1 toy_crypto) (\<lambda>m. 5) sample_rest (replicate 100 0)
        (long_term_key toy_crypto ''1600:bob'' ''r'' (of_bytes (toy_mac 20 [5] (as_bytes ''1600:bob'')))) = Ok (n, buf')
    \<and> StunMessage_decode (take n buf') = Ok msg'
    \<and> fst (validate_identity_opts toy_crypto msg' (take n buf') FetchNever \<lparr> ac_now_secs = 1500, ac_now = 0, ac_order = [] \<rparr>
         auth_globals_default (SharedSecret ''r'' [6] (Some [5])))
        = Ok \<lparr> vd_key = key, vd_max_lifetime_secs = None, vd_username = ''1600:bob'' \<rparr>"
proof -
  have "get_username sample_rest = Some ''1600:bob''" "get_realm sample_rest = Some ''r''"
    "get_message_integrity_sha256 sample_rest = None" "get_password_algorithm sample_rest \<in> {None, Some PASSWORD_ALGORITHM_MD5}"
    by (simp_all add: sample_rest_def get_username_def get_realm_def get_message_integrity_sha256_def
        get_password_algorithm_def sm_get_def)
  from rest_credentials_accepted [OF toy_laws(3) sample_rest_user sample_rest_ok(1) this, of "replicate 100 0" "[6]" "Some [5]"
      auth_globals_default "\<lambda>m. 5" "\<lparr> ac_now_secs = 1500, ac_now = 0, ac_order = [] \<rparr>" FetchNever]
  show ?thesis
    by (auto simp: sample_rest_ok rust_const signed_size_def auth_globals_default_def saturating_add_def)
qed

definition sample_registry :: auth_registry where
  "sample_registry = AuthRegistry_new (SharedSecret ''r'' [5] None)"

theorem auth_resolution_sound_witness:
  "\<exists>msg raw res g' r'. validate_opts toy_crypto msg raw FetchNever \<lparr> ac_now_secs = 1500, ac_now = 0, ac_order = [] \<rparr>
        auth_globals_default sample_registry = (Ok res, g', r')
     \<and> (\<exists>mode name. get_realm msg = Some (rs_realm res)
         \<and> named mode msg name \<and> rs_subject res = subject_of mode name
         \<and> legitimate_key toy_crypto msg FetchNever \<lparr> ac_now_secs = 1500, ac_now = 0, ac_order = [] \<rparr>
              auth_globals_default mode name (rs_key res)
         \<and> (if get_message_integrity_sha256 msg = None then verify_integrity (c_hmac_sha1 toy_crypto) msg raw (rs_key res)
            else verify_integrity_sha256 (c_hmac_sha256 toy_crypto) msg raw (rs_key res)))"
proof -
  let ?clk = "\<lparr> ac_now_secs = 1500, ac_now = 0, ac_order = [] \<rparr>"
  have m: "get_username sample_rest = Some ''1600:bob''" "get_realm sample_rest = Some ''r''"
    "get_message_integrity_sha256 sample_rest = None" "get_password_algorithm sample_rest \<in> {None, Some PASSWORD_ALGORITHM_MD5}"
    by (simp_all add: sample_rest_def get_username_def get_realm_def get_message_integrity_sha256_def
        get_password_algorithm_def sm_get_def)
  from generated_credentials_accepted [OF toy_laws(3) sample_rest_user sample_rest_ok(1) m, of "replicate 100 0" "[5]" None
      auth_globals_default "\<lambda>m. 5" ?clk FetchNever]
  obtain n buf' msg' key where v: "fst (validate_identity_opts toy_crypto msg' (take n buf') FetchNever ?clk auth_globals_default
        (SharedSecret ''r'' [5] None)) = Ok \<lparr> vd_key = key, vd_max_lifetime_secs = None, vd_username = ''1600:bob'' \<rparr>"
    by (auto simp: sample_rest_ok rust_const signed_size_def auth_globals_default_def saturating_add_def)
  then have "get_realm msg' = Some ''r''" by (rule validate_guards) simp_all
  with v obtain res g' r' where r: "validate_opts toy_crypto msg' (take n buf') FetchNever ?clk auth_globals_default sample_registry = (Ok res, g', r')"
    by (cases "validate_identity_opts toy_crypto msg' (take n buf') FetchNever ?clk auth_globals_default (SharedSecret ''r'' [5] None)")
      (auto simp: validate_opts_def sample_registry_def AuthRegistry_new_def)
  from auth_resolution_sound [OF r] r show ?thesis by blast
qed

section \<open>Access tokens\<close>

lemma from_be_pair: "from_be_bytes [be_bytes 2 (w :: u16) ! 0, be_bytes 2 w ! 1] = w"
proof -
  have "[be_bytes 2 w ! 0, be_bytes 2 w ! 1] = be_bytes 2 w" by (simp add: numeral_2_eq_2)
  then show ?thesis by (simp only: from_be_be_bytes_full) (simp add: be_simps)
qed

lemma token_layout:
  fixes kl nl :: u16
  assumes "plain = be_bytes 2 kl @ mac_key @ be_bytes 8 (ts :: u64) @ be_bytes 4 (life :: u32)" "unat kl = length mac_key"
  shows "length plain = 2 + length mac_key + 8 + 4" "from_be_bytes [plain ! 0, plain ! 1] = kl"
    "sliced plain 2 (2 + length mac_key) = mac_key"
    "from_be_bytes (sliced plain (2 + length mac_key) (2 + length mac_key + 8)) = ts"
    "from_be_bytes (sliced plain (2 + length mac_key + 8) (2 + length mac_key + 12)) = life"
proof -
  show "length plain = 2 + length mac_key + 8 + 4" by (simp add: assms(1))
  have "plain ! 0 = be_bytes 2 kl ! 0" "plain ! 1 = be_bytes 2 kl ! 1" by (simp_all add: assms(1) nth_append)
  then show "from_be_bytes [plain ! 0, plain ! 1] = kl" by (simp only: from_be_pair)
  show "sliced plain 2 (2 + length mac_key) = mac_key" by (simp add: sliced_def assms(1))
  show "from_be_bytes (sliced plain (2 + length mac_key) (2 + length mac_key + 8)) = ts"
    by (simp add: sliced_def assms(1) be_simps)
  show "from_be_bytes (sliced plain (2 + length mac_key + 8) (2 + length mac_key + 12)) = life"
    by (simp add: sliced_def assms(1) be_simps)
qed

lemma open_own_token:
  assumes "gcm_law C" "length nonce = 12" "encode_access_token C key name nonce tc = Ok token"
    and "\<And>k p. k \<in> set earlier \<Longrightarrow> aead_decrypt C k nonce (as_bytes name) (drop 14 token) \<noteq> Ok p"
  shows "open_access_token C token (earlier @ key # later) name
    = Ok \<lparr> ot_mac_key = tc_mac_key tc, ot_timestamp = push_bit 16 (tc_timestamp_secs tc), ot_lifetime = tc_lifetime tc \<rparr>"
proof -
  let ?kl = "of_nat (length (tc_mac_key tc)) :: u16"
  define plain where "plain = be_bytes 2 ?kl @ tc_mac_key tc @ be_bytes 8 (push_bit 16 (tc_timestamp_secs tc)) @ be_bytes 4 (tc_lifetime tc)"
  obtain sealed where s: "c_gcm_seal C key nonce (as_bytes name) plain = Some sealed"
      "token = be_bytes 2 (12 :: u16) @ nonce @ sealed" "length key = 16 \<or> length key = 32" "length (tc_mac_key tc) \<le> 65535"
    using assms(2,3) by (auto simp: encode_access_token_def plain_def Let_def split: if_splits option.splits)
  have kl: "unat ?kl = length (tc_mac_key tc)" using s(4) by (simp add: unat_of_nat)
  note layout = token_layout [OF plain_def kl]
  have two: "length (be_bytes 2 (12 :: u16)) = 2" by (rule length_be_bytes)
  have "token ! 0 = be_bytes 2 (12 :: u16) ! 0" "token ! 1 = be_bytes 2 (12 :: u16) ! 1"
    unfolding s(2) by (simp_all add: nth_append)
  then have nl: "(from_be_bytes [token ! 0, token ! 1] :: u16) = 12" by (simp only: from_be_pair)
  have rest: "drop 2 token = nonce @ sealed" "drop 14 token = sealed" "length token = 14 + length sealed"
    using assms(2) by (simp_all add: s(2) two)
  let ?attempt = "\<lambda>k. case aead_decrypt C k nonce (as_bytes name) sealed of Ok p \<Rightarrow> Some p | _ \<Rightarrow> None"
  have "c_gcm_open C key nonce (as_bytes name) sealed = Some plain" using assms(1) s(1) by (auto simp: gcm_law_def)
  then have "?attempt key = Some plain" using s(3) assms(2) by (auto simp: aead_decrypt_def)
  moreover have "find_map ?attempt earlier = None"
    unfolding find_map_None using assms(4) rest(2) by (auto split: res.splits)
  ultimately have found: "find_map ?attempt (earlier @ key # later) = Some plain" by (simp add: find_map_append)
  have "length token \<ge> 2" "length (nonce @ sealed) \<ge> unat (12 :: u16)" "length plain \<ge> 2"
    using assms(2) rest(3) layout(1) by simp_all
  moreover have "take (unat (12 :: u16)) (nonce @ sealed) = nonce" "drop (unat (12 :: u16)) (nonce @ sealed) = sealed"
    using assms(2) by simp_all
  ultimately show ?thesis
    unfolding open_access_token_def Let_def nl rest(1)
    by (simp only: found layout(2-5) kl not_less [symmetric] option.case if_False simp_thms layout(1) less_irrefl)
qed

text \<open>
  C38. An access token opens to what was sealed in it: a token sealed for this server under one of its keys (no earlier key of the ring
  opening it by accident), with an issue time below \<open>2\<^sup>4\<^sup>8\<close> seconds, is accepted exactly while the present time differs from the
  issue time by less than the lifetime plus five seconds, with the sealed session key and the rest of the lifetime, saturating at 0 and
  at the largest 32-bit number; otherwise the answer is Expired.
\<close>

theorem access_token_roundtrip:
  assumes "gcm_law C" "length nonce = 12" "encode_access_token C key name nonce tc = Ok token"
    and "\<And>k p. k \<in> set earlier \<Longrightarrow> aead_decrypt C k nonce (as_bytes name) (drop 14 token) \<noteq> Ok p"
    and "unat (tc_timestamp_secs tc) < 2 ^ 48"
  shows "decrypt_access_token C token (earlier @ key # later) name now =
    (let ts = unat (tc_timestamp_secs tc); life = unat (tc_lifetime tc); t = unat now in
     if max ts t - min ts t < life + 5 then Ok (tc_mac_key tc, of_nat (min (ts + life - t) (2 ^ 32 - 1))) else Err Expired)"
proof -
  let ?ts = "tc_timestamp_secs tc" and ?l = "tc_lifetime tc"
  have l: "unat ?l < 2 ^ 32" using unsigned_less [of ?l] by simp
  have shift: "drop_bit 16 (push_bit 16 ?ts) = ?ts"
  proof -
    have "take_bit 48 ?ts = ?ts" using assms(5) by (simp add: word_unat_eq_iff unsigned_take_bit_eq take_bit_nat_eq_self)
    moreover have "drop_bit 16 (push_bit 16 ?ts) = take_bit 48 ?ts"
      by (rule bit_word_eqI) (auto simp: bit_simps)
    ultimately show ?thesis by simp
  qed
  have life: "unat (ucast ?l :: u64) = unat ?l" using l by (simp add: unsigned_ucast_eq take_bit_nat_eq_self)
  have sum: "unat (saturating_add ?ts (ucast ?l)) = unat ?ts + unat ?l"
    using l assms(5) by (simp add: saturating_add_def life unat_add_lem [THEN iffD1])
  have limit: "unat (saturating_add (ucast ?l) OAUTH_CLOCK_SKEW_SECS :: u64) = unat ?l + 5"
    using l by (simp add: saturating_add_def life unat_add_lem [THEN iffD1] rust_const)
  have diff: "unat (abs_diff ?ts now) = max (unat ?ts) (unat now) - min (unat ?ts) (unat now)"
    by (auto simp: abs_diff_def unat_sub word_le_nat_alt)
  have valid: "token_time_valid (push_bit 16 ?ts) ?l now OAUTH_CLOCK_SKEW_SECS
      \<longleftrightarrow> max (unat ?ts) (unat now) - min (unat ?ts) (unat now) < unat ?l + 5"
    unfolding token_time_valid_def Let_def shift word_less_nat_alt limit diff ..
  have rem: "ucast (min (saturating_sub (saturating_add ?ts (ucast ?l)) now) (2 ^ 32 - 1))
      = (of_nat (min (unat ?ts + unat ?l - unat now) (2 ^ 32 - 1)) :: u32)"
  proof -
    let ?m = "min (saturating_sub (saturating_add ?ts (ucast ?l)) now) (2 ^ 32 - 1)"
    have "unat ?m = min (unat ?ts + unat ?l - unat now) (2 ^ 32 - 1)"
      by (simp add: min_def word_le_nat_alt unat_saturating_sub sum)
    then show ?thesis by (metis of_nat_unat)
  qed
  have opened: "open_access_token C token (earlier @ key # later) name
      = Ok \<lparr> ot_mac_key = tc_mac_key tc, ot_timestamp = push_bit 16 ?ts, ot_lifetime = ?l \<rparr>"
    using assms(1-4) by (rule open_own_token)
  show ?thesis
    unfolding decrypt_access_token_def opened bind_res.simps Let_def
    by (simp only: opened_token.simps valid rem shift not_not if_distrib [of Not] simp_thms split: if_split) simp
qed

definition sample_contents :: token_contents where
  "sample_contents = \<lparr> tc_mac_key = [1, 2, 3], tc_timestamp_secs = 1000, tc_lifetime = 600 \<rparr>"

theorem access_token_roundtrip_witness:
  "\<exists>token. encode_access_token toy_crypto (replicate 16 4) ''turn'' (replicate 12 9) sample_contents = Ok token
     \<and> decrypt_access_token toy_crypto token [replicate 16 4] ''turn'' 1100 = Ok ([1, 2, 3], 500)"
proof -
  obtain token where token: "encode_access_token toy_crypto (replicate 16 4) ''turn'' (replicate 12 9) sample_contents = Ok token"
    by (simp add: encode_access_token_def sample_contents_def Let_def toy_crypto_def)
  from access_token_roundtrip [OF toy_laws(5) _ token, of "[]" "[]" 1100] token show ?thesis
    by (simp add: sample_contents_def Let_def)
qed

end
