(* ===== verification/Peer_Filter.thy ===== *)
theory Peer_Filter
  imports Ip_Text
begin

text \<open>
  Normalisation and filtering of peer addresses (\<^verbatim>\<open>crates/relay/src/peer_filter.rs\<close>). The tests of
  \<^verbatim>\<open>std::net\<close> are written on octets and segments as the library has them; the lemmas compare them
  with address blocks given by a base and a prefix length. The environment variable that allows
  loopback peers is an argument.
\<close>

section \<open>Address tests of the standard library\<close>

fun is_loopback :: "ip_addr \<Rightarrow> bool" where
  "is_loopback (IpV4 a) = (octets4 a ! 0 = 127)"
| "is_loopback (IpV6 a) = (a = 1)"

fun is_unspecified :: "ip_addr \<Rightarrow> bool" where
  "is_unspecified (IpV4 a) = (a = 0)"
| "is_unspecified (IpV6 a) = (a = 0)"

fun is_multicast :: "ip_addr \<Rightarrow> bool" where
  "is_multicast (IpV4 a) = (224 \<le> octets4 a ! 0 \<and> octets4 a ! 0 \<le> 239)"
| "is_multicast (IpV6 a) = (octets6 a ! 0 = 255)"

definition v4_is_link_local :: "u32 \<Rightarrow> bool" where
  "v4_is_link_local a \<longleftrightarrow> octets4 a ! 0 = 169 \<and> octets4 a ! 1 = 254"

definition v4_is_private :: "u32 \<Rightarrow> bool" where
  "v4_is_private a \<longleftrightarrow>
     octets4 a ! 0 = 10
     \<or> octets4 a ! 0 = 172 \<and> 16 \<le> octets4 a ! 1 \<and> octets4 a ! 1 \<le> 31
     \<or> octets4 a ! 0 = 192 \<and> octets4 a ! 1 = 168"

section \<open>Normalisation\<close>

fun normalize_ip :: "ip_addr \<Rightarrow> ip_addr" where
  "normalize_ip (IpV6 a) = (case to_ipv4_mapped a of Some v4 \<Rightarrow> IpV4 v4 | None \<Rightarrow> IpV6 a)"
| "normalize_ip (IpV4 a) = IpV4 a"

definition normalize_addr :: "socket_addr \<Rightarrow> socket_addr" where
  "normalize_addr addr = SocketAddr_new (normalize_ip (sock_ip addr)) (sock_port addr)"

section \<open>CIDR ranges\<close>

record cidr =
  ci_addr :: ip_addr
  ci_prefix :: u8

definition Cidr_parse :: "string \<Rightarrow> cidr option" where
  "Cidr_parse s =
     Option.bind (split_once CHR ''/'' (trim s)) (\<lambda>(ip_str, pfx_str).
     Option.bind (IpAddr_parse (trim ip_str)) (\<lambda>addr.
     Option.bind (parse_radix 10 256 (trim pfx_str)) (\<lambda>prefix.
       if prefix > (case addr of IpV4 _ \<Rightarrow> 32 | IpV6 _ \<Rightarrow> 128) then None
       else Some \<lparr> ci_addr = addr, ci_prefix = of_nat prefix \<rparr>)))"

definition masked_eq_v4 :: "u32 \<Rightarrow> u32 \<Rightarrow> u8 \<Rightarrow> bool" where
  "masked_eq_v4 net ip prefix =
     (if prefix = 0 then True
      else let m = push_bit (32 - unat prefix) (- 1) in net AND m = ip AND m)"

definition masked_eq_v6 :: "u128 \<Rightarrow> u128 \<Rightarrow> u8 \<Rightarrow> bool" where
  "masked_eq_v6 net ip prefix =
     (if prefix = 0 then True
      else let m = push_bit (128 - unat prefix) (- 1) in net AND m = ip AND m)"

definition Cidr_contains :: "cidr \<Rightarrow> ip_addr \<Rightarrow> bool" where
  "Cidr_contains c ip =
     (case (ci_addr c, ip) of
        (IpV4 net, IpV4 a) \<Rightarrow> masked_eq_v4 net a (ci_prefix c)
      | (IpV6 net, IpV6 a) \<Rightarrow> masked_eq_v6 net a (ci_prefix c)
      | _ \<Rightarrow> False)"

section \<open>The policy\<close>

record peer_policy =
  pp_self_addrs :: "ip_addr list"
  pp_forbidden :: "cidr list"
  pp_deny_private :: bool
  pp_allow_loopback :: bool
  pp_denied :: "cidr list"
  pp_allowed :: "cidr list"

definition internet_facing :: "bool \<Rightarrow> peer_policy" where
  "internet_facing env_loopback =
     \<lparr> pp_self_addrs = [], pp_forbidden = [], pp_deny_private = True,
       pp_allow_loopback = env_loopback, pp_denied = [], pp_allowed = [] \<rparr>"

definition lan :: "bool \<Rightarrow> peer_policy" where
  "lan env_loopback =
     \<lparr> pp_self_addrs = [], pp_forbidden = [], pp_deny_private = False,
       pp_allow_loopback = env_loopback, pp_denied = [], pp_allowed = [] \<rparr>"

definition env_allow_loopback :: "string option \<Rightarrow> bool" where
  "env_allow_loopback v \<longleftrightarrow> v \<in> {Some ''1'', Some ''true'', Some ''yes''}"

definition parse_ranges :: "string list \<Rightarrow> cidr list" where
  "parse_ranges ranges = List.map_filter Cidr_parse ranges"

definition ascii_lower :: "char \<Rightarrow> char" where
  "ascii_lower c = (if 65 \<le> (of_char c :: nat) \<and> (of_char c :: nat) \<le> 90 then char_of (of_char c + 32 :: nat) else c)"

definition from_config :: "string \<Rightarrow> bool \<Rightarrow> string list \<Rightarrow> string list \<Rightarrow> bool \<Rightarrow> peer_policy" where
  "from_config profile allow_loopback_peers denied_peer_ranges allowed_peer_ranges env_loopback =
     \<lparr> pp_self_addrs = [], pp_forbidden = [],
       pp_deny_private = (map ascii_lower (trim profile) \<notin> {''lan'', ''trusted''}),
       pp_allow_loopback = (allow_loopback_peers \<or> env_loopback),
       pp_denied = parse_ranges denied_peer_ranges, pp_allowed = parse_ranges allowed_peer_ranges \<rparr>"

instantiation ip_addr :: linorder
begin

fun ip_key :: "ip_addr \<Rightarrow> nat \<times> nat" where
  "ip_key (IpV4 a) = (0, unat a)"
| "ip_key (IpV6 a) = (1, unat a)"

definition less_eq_ip_addr :: "ip_addr \<Rightarrow> ip_addr \<Rightarrow> bool" where
  "less_eq_ip_addr x y \<longleftrightarrow> fst (ip_key x) < fst (ip_key y) \<or> fst (ip_key x) = fst (ip_key y) \<and> snd (ip_key x) \<le> snd (ip_key y)"

definition less_ip_addr :: "ip_addr \<Rightarrow> ip_addr \<Rightarrow> bool" where
  "less_ip_addr x y \<longleftrightarrow> x \<le> y \<and> \<not> y \<le> x"

lemma ip_key_inj: "ip_key x = ip_key y \<longleftrightarrow> x = y"
  by (cases x; cases y) (auto simp: word_unat_eq_iff)

instance
  by standard (auto simp: less_eq_ip_addr_def less_ip_addr_def ip_key_inj [symmetric] prod_eq_iff)

end

definition with_self_addresses :: "ip_addr list \<Rightarrow> peer_policy \<Rightarrow> peer_policy" where
  "with_self_addresses addrs p =
     p\<lparr>pp_self_addrs := remdups_adj (sort (filter (\<lambda>a. \<not> is_unspecified a) (map normalize_ip addrs)))\<rparr>"

definition with_forbidden_ranges :: "string list \<Rightarrow> peer_policy \<Rightarrow> peer_policy" where
  "with_forbidden_ranges ranges p = p\<lparr>pp_forbidden := pp_forbidden p @ parse_ranges ranges\<rparr>"

definition is_special_v4 :: "u32 \<Rightarrow> bool" where
  "is_special_v4 a \<longleftrightarrow> v4_is_link_local a \<or> a = - 1 \<or> octets4 a ! 0 = 0"

definition is_special_v6 :: "u128 \<Rightarrow> bool" where
  "is_special_v6 a =
     (let s = segments a in
      s ! 0 AND 0xFFC0 = 0xFE80
      \<or> s ! 0 AND 0xFFC0 = 0xFEC0
      \<or> (s ! 0 = 0x0064 \<and> s ! 1 = 0xFF9B \<and> s ! 2 = 0 \<and> s ! 3 = 0 \<and> s ! 4 = 0 \<and> s ! 5 = 0)
      \<or> s ! 0 = 0x2002
      \<or> (s ! 0 = 0x2001 \<and> s ! 1 = 0)
      \<or> (s ! 0 = 0 \<and> s ! 1 = 0 \<and> s ! 2 = 0 \<and> s ! 3 = 0 \<and> s ! 4 = 0 \<and> s ! 5 = 0)
      \<or> (s ! 0 = 0x0100 \<and> s ! 1 = 0 \<and> s ! 2 = 0 \<and> s ! 3 = 0)
      \<or> (s ! 0 = 0x2001 \<and> (s ! 1 = 0x0002 \<or> s ! 1 AND 0xFFF0 = 0x0020)))"

fun is_private :: "ip_addr \<Rightarrow> bool" where
  "is_private (IpV4 a) = v4_is_private a"
| "is_private (IpV6 a) = (segments a ! 0 AND 0xFE00 = 0xFC00)"

definition is_forbidden :: "peer_policy \<Rightarrow> ip_addr \<Rightarrow> bool" where
  "is_forbidden p ip =
     (if list_ex (\<lambda>c. Cidr_contains c ip) (pp_forbidden p) then True
      else if is_loopback ip then \<not> pp_allow_loopback p
      else if is_unspecified ip \<or> is_multicast ip then True
      else if (case ip of IpV4 a \<Rightarrow> is_special_v4 a | IpV6 a \<Rightarrow> is_special_v6 a) then True
      else if ip \<in> set (pp_self_addrs p) then True
      else if list_ex (\<lambda>c. Cidr_contains c ip) (pp_allowed p) then False
      else if list_ex (\<lambda>c. Cidr_contains c ip) (pp_denied p) then True
      else pp_deny_private p \<and> is_private ip)"

text \<open>The process-wide policy: the first one installed wins, and a first use installs the default.\<close>

definition init_peer_policy :: "peer_policy \<Rightarrow> peer_policy option \<Rightarrow> peer_policy option" where
  "init_peer_policy policy cell = (case cell of None \<Rightarrow> Some policy | Some p \<Rightarrow> Some p)"

definition policy :: "bool \<Rightarrow> peer_policy option \<Rightarrow> peer_policy \<times> peer_policy option" where
  "policy env_loopback cell =
     (let p = (case cell of Some p \<Rightarrow> p | None \<Rightarrow> internet_facing env_loopback) in (p, Some p))"

definition is_forbidden_peer :: "bool \<Rightarrow> peer_policy option \<Rightarrow> ip_addr \<Rightarrow> bool" where
  "is_forbidden_peer env_loopback cell ip = is_forbidden (fst (policy env_loopback cell)) ip"

section \<open>Address blocks\<close>

definition in_block :: "nat \<Rightarrow> nat \<Rightarrow> nat \<Rightarrow> nat \<Rightarrow> bool" where
  "in_block width base len x \<longleftrightarrow> x div 2 ^ (width - len) = base div 2 ^ (width - len)"

definition v4_block :: "nat \<Rightarrow> nat \<Rightarrow> ip_addr \<Rightarrow> bool" where
  "v4_block base len ip = (case ip of IpV4 a \<Rightarrow> in_block 32 base len (unat a) | IpV6 _ \<Rightarrow> False)"

definition v6_block :: "nat \<Rightarrow> nat \<Rightarrow> ip_addr \<Rightarrow> bool" where
  "v6_block base len ip = (case ip of IpV6 a \<Rightarrow> in_block 128 base len (unat a) | IpV4 _ \<Rightarrow> False)"

lemma masked_eq_block:
  fixes x y :: "'a::len word"
  shows "x AND push_bit n (- 1) = y AND push_bit n (- 1) \<longleftrightarrow> unat x div 2 ^ n = unat y div 2 ^ n"
proof -
  have "x AND push_bit n (- 1) = push_bit n (drop_bit n x)" for x :: "'a word"
    by (rule bit_word_eqI) (auto simp: bit_simps not_le)
  then have "x AND push_bit n (- 1) = y AND push_bit n (- 1) \<longleftrightarrow> push_bit n (drop_bit n x) = push_bit n (drop_bit n y)"
    by simp
  also have "\<dots> \<longleftrightarrow> drop_bit n x = drop_bit n y"
  proof
    assume "push_bit n (drop_bit n x) = push_bit n (drop_bit n y)"
    then have "drop_bit n (push_bit n (drop_bit n x)) = drop_bit n (push_bit n (drop_bit n y))" by simp
    moreover have "drop_bit n (push_bit n (drop_bit n x)) = drop_bit n x" for x :: "'a word"
      by (rule bit_word_eqI) (auto simp: bit_simps dest: bit_imp_le_length)
    ultimately show "drop_bit n x = drop_bit n y" by simp
  qed simp
  also have "\<dots> \<longleftrightarrow> unat x div 2 ^ n = unat y div 2 ^ n"
    unfolding word_unat_eq_iff unat_drop_bit_eq by (simp add: drop_bit_eq_div)
  finally show ?thesis .
qed


lemma unat_ucast_drop: "unat (ucast (drop_bit n w :: 'a::len word) :: 'b::len word) = unat w div 2 ^ n mod 2 ^ LENGTH('b)"
  unfolding unsigned_ucast_eq unat_drop_bit_eq by (simp add: take_bit_eq_mod drop_bit_eq_div)

lemma be_bytes_nth: "i < n \<Longrightarrow> be_bytes n w ! i = ucast (drop_bit (8 * (n - 1 - i)) w)"
  by (induction n arbitrary: i) (auto simp: nth_Cons split: nat.split)

lemma oct4_nat:
  "unat (octets4 a ! 0) = unat a div 2 ^ 24" "unat (octets4 a ! 1) = unat a div 2 ^ 16 mod 256"
proof -
  have "unat a < 2 ^ 32" using unsigned_less [of a] by simp
  then have "unat a div 2 ^ 24 < 256" by (simp add: less_mult_imp_div_less)
  then show "unat (octets4 a ! 0) = unat a div 2 ^ 24" "unat (octets4 a ! 1) = unat a div 2 ^ 16 mod 256"
    by (simp_all add: octets4_def be_bytes_nth unat_ucast_drop)
qed

lemma oct6_nat: "unat (octets6 a ! 0) = unat a div 2 ^ 120"
proof -
  have "unat a < 2 ^ 128" using unsigned_less [of a] by simp
  then have "unat a div 2 ^ 120 < 256" by (simp add: less_mult_imp_div_less)
  then show ?thesis by (simp add: octets6_def be_bytes_nth unat_ucast_drop)
qed

lemma seg_nat: "i < 8 \<Longrightarrow> unat (segments a ! i) = unat a div 2 ^ (112 - 16 * i) mod 65536"
  by (simp add: segments_def unat_ucast_drop)

lemma nat_div_mod_split: "n div 2 ^ m = n div 2 ^ (m + 16) * 65536 + n div 2 ^ m mod (65536 :: nat)"
proof -
  have "n div 2 ^ (m + 16) = n div 2 ^ m div 65536" by (simp add: power_add div_mult2_eq)
  then show ?thesis by simp
qed

lemma horner_eq: "s < b \<Longrightarrow> d < b \<Longrightarrow> x * b + s = c * b + d \<longleftrightarrow> x = c \<and> s = (d :: nat)"
  by (metis div_mult_self1 div_less add.commute add_right_imp_eq gr_implies_not0 add_0_right)

text \<open>The leading segments are the leading bits of the address.\<close>

definition seg_value :: "u16 list \<Rightarrow> nat" where
  "seg_value ss = foldl (\<lambda>x s. x * 65536 + unat s) 0 ss"

lemma seg_value_snoc [simp]: "seg_value [] = 0" "seg_value (ss @ [s]) = seg_value ss * 65536 + unat s"
  by (simp_all add: seg_value_def)

lemma seg_value_inj: "length ss = length ts \<Longrightarrow> seg_value ss = seg_value ts \<longleftrightarrow> ss = ts"
proof (induction ss arbitrary: ts rule: rev_induct)
  case (snoc s ss)
  then obtain ts' t where ts: "ts = ts' @ [t]" and len: "length ss = length ts'"
    by (cases ts rule: rev_cases) auto
  have lt: "unat s < 65536" "unat t < 65536" using unsigned_less [of s] unsigned_less [of t] by simp_all
  then have "seg_value ss * 65536 + unat s = seg_value ts' * 65536 + unat t
      \<longleftrightarrow> seg_value ss = seg_value ts' \<and> unat s = unat t" by (rule horner_eq)
  with snoc.IH [OF len] show ?case by (simp add: ts word_unat_eq_iff)
qed simp

lemma length_segments [simp]: "length (segments a) = 8"
  by (simp add: segments_def)

lemma seg_value_take: "k \<le> 8 \<Longrightarrow> seg_value (take k (segments a)) = unat a div 2 ^ (128 - 16 * k)"
proof (induction k)
  case 0
  have "unat a < 2 ^ 128" using unsigned_less [of a] by simp
  then show ?case by simp
next
  case (Suc k)
  then have "take (Suc k) (segments a) = take k (segments a) @ [segments a ! k]"
    by (intro take_Suc_conv_app_nth) simp
  moreover have "128 - 16 * k = 112 - 16 * k + 16" using Suc.prems by simp
  ultimately show ?case
    using Suc nat_div_mod_split [of "unat a" "112 - 16 * k"] by (simp add: seg_nat)
qed

lemma seg_block:
  assumes "length cs = k" "k \<le> 8"
  shows "take k (segments a) = cs \<longleftrightarrow> in_block 128 (seg_value cs * 2 ^ (128 - 16 * k)) (16 * k) (unat a)"
proof -
  have "take k (segments a) = cs \<longleftrightarrow> seg_value (take k (segments a)) = seg_value cs"
    using assms by (intro seg_value_inj [symmetric]) simp
  then show ?thesis using assms by (simp add: in_block_def seg_value_take)
qed

lemma segments_expand: "segments a = map (\<lambda>i. segments a ! i) [0, 1, 2, 3, 4, 5, 6, 7]"
  by (simp add: segments_def upt_conv_Cons)

lemma take_segments:
  "take (Suc 0) (segments a) = [segments a ! 0]" "take 2 (segments a) = [segments a ! 0, segments a ! 1]"
  "take 4 (segments a) = [segments a ! 0, segments a ! 1, segments a ! 2, segments a ! 3]"
  "take 6 (segments a) = [segments a ! 0, segments a ! 1, segments a ! 2, segments a ! 3, segments a ! 4, segments a ! 5]"
  by (subst segments_expand, simp)+

text \<open>Tests of the source as membership in a block, IPv4 then IPv6.\<close>

lemma v4_tests:
  "octets4 a ! 0 = 127 \<longleftrightarrow> in_block 32 0x7F000000 8 (unat a)"
  "octets4 a ! 0 = 0 \<longleftrightarrow> in_block 32 0 8 (unat a)"
  "octets4 a ! 0 = 10 \<longleftrightarrow> in_block 32 0x0A000000 8 (unat a)"
  "v4_is_link_local a \<longleftrightarrow> in_block 32 0xA9FE0000 16 (unat a)"
  "224 \<le> octets4 a ! 0 \<and> octets4 a ! 0 \<le> 239 \<longleftrightarrow> in_block 32 0xE0000000 4 (unat a)"
  "octets4 a ! 0 = 172 \<and> 16 \<le> octets4 a ! 1 \<and> octets4 a ! 1 \<le> 31 \<longleftrightarrow> in_block 32 0xAC100000 12 (unat a)"
  "octets4 a ! 0 = 192 \<and> octets4 a ! 1 = 168 \<longleftrightarrow> in_block 32 0xC0A80000 16 (unat a)"
  "a = - 1 \<longleftrightarrow> in_block 32 0xFFFFFFFF 32 (unat a)"
proof -
  define n where "n = unat a"
  have oct: "octets4 a ! i = c \<longleftrightarrow> unat (octets4 a ! i) = unat c" for i c
    by (simp add: word_unat_eq_iff)
  have o0: "unat (octets4 a ! 0) = n div 16777216" and o1: "unat (octets4 a ! 1) = n div 65536 mod 256"
    using oct4_nat [of a] by (simp_all add: n_def)
  have "unat a < 2 ^ 32" using unsigned_less [of a] by simp
  then have n: "n < 4294967296" by (simp add: n_def)
  note word = oct word_le_nat_alt o0 o1
  show "octets4 a ! 0 = 127 \<longleftrightarrow> in_block 32 0x7F000000 8 (unat a)"
    "octets4 a ! 0 = 0 \<longleftrightarrow> in_block 32 0 8 (unat a)"
    "octets4 a ! 0 = 10 \<longleftrightarrow> in_block 32 0x0A000000 8 (unat a)"
    unfolding word in_block_def n_def [symmetric] by simp_all
  have o1_less: "unat (octets4 a ! 1) < 256" unfolding o1 by simp
  have x: "n div 65536 = n div 16777216 * 256 + unat (octets4 a ! 1)"
    unfolding o1 using div_mult2_eq [of n 65536 256] by simp
  have "n div 268435456 = n div 16777216 div 16" by (simp add: div_mult2_eq [symmetric])
  moreover have "k div 16 = 14 \<longleftrightarrow> 224 \<le> k \<and> k \<le> 239" for k :: nat by presburger
  ultimately show "224 \<le> octets4 a ! 0 \<and> octets4 a ! 0 \<le> 239 \<longleftrightarrow> in_block 32 0xE0000000 4 (unat a)"
    unfolding word_le_nat_alt o0 in_block_def n_def [symmetric] by simp
  show "v4_is_link_local a \<longleftrightarrow> in_block 32 0xA9FE0000 16 (unat a)"
    unfolding v4_is_link_local_def oct o0 in_block_def n_def [symmetric]
    using horner_eq [OF o1_less, of 254 "n div 16777216" 169] by (simp add: x)
  show "octets4 a ! 0 = 192 \<and> octets4 a ! 1 = 168 \<longleftrightarrow> in_block 32 0xC0A80000 16 (unat a)"
    unfolding oct o0 in_block_def n_def [symmetric]
    using horner_eq [OF o1_less, of 168 "n div 16777216" 192] by (simp add: x)
  have "n div 1048576 = n div 65536 div 16" by (simp add: div_mult2_eq [symmetric])
  also have "\<dots> = n div 16777216 * 16 + unat (octets4 a ! 1) div 16" unfolding x by simp
  finally have y: "n div 1048576 = n div 16777216 * 16 + unat (octets4 a ! 1) div 16" .
  have "k div 16 = 1 \<longleftrightarrow> 16 \<le> k \<and> k \<le> 31" for k :: nat by presburger
  then show "octets4 a ! 0 = 172 \<and> 16 \<le> octets4 a ! 1 \<and> octets4 a ! 1 \<le> 31 \<longleftrightarrow> in_block 32 0xAC100000 12 (unat a)"
    unfolding oct word_le_nat_alt o0 in_block_def n_def [symmetric]
    using horner_eq [of "unat (octets4 a ! 1) div 16" 16 1 "n div 16777216" 172] o1_less by (simp add: y less_mult_imp_div_less)
  have "(- 1 :: u32) = 0xFFFFFFFF" by code_simp
  then show "a = - 1 \<longleftrightarrow> in_block 32 0xFFFFFFFF 32 (unat a)"
    unfolding word_unat_eq_iff in_block_def by simp
qed

lemma v6_prefix_tests:
  fixes a :: u128
  defines "s \<equiv> segments a"
  shows "s ! 0 = 0x2002 \<longleftrightarrow> in_block 128 0x20020000000000000000000000000000 16 (unat a)"
    "s ! 0 = 0x2001 \<and> s ! 1 = 0 \<longleftrightarrow> in_block 128 0x20010000000000000000000000000000 32 (unat a)"
    "s ! 0 = 0x0100 \<and> s ! 1 = 0 \<and> s ! 2 = 0 \<and> s ! 3 = 0 \<longleftrightarrow> in_block 128 0x01000000000000000000000000000000 64 (unat a)"
    "s ! 0 = 0x0064 \<and> s ! 1 = 0xFF9B \<and> s ! 2 = 0 \<and> s ! 3 = 0 \<and> s ! 4 = 0 \<and> s ! 5 = 0
       \<longleftrightarrow> in_block 128 0x0064FF9B000000000000000000000000 96 (unat a)"
    "s ! 0 = 0 \<and> s ! 1 = 0 \<and> s ! 2 = 0 \<and> s ! 3 = 0 \<and> s ! 4 = 0 \<and> s ! 5 = 0 \<longleftrightarrow> in_block 128 0 96 (unat a)"
    "take 6 s = [0, 0, 0, 0, 0, 0xFFFF] \<longleftrightarrow> in_block 128 0xFFFF00000000 96 (unat a)"
proof -
  note e = take_segments and v = seg_value_def
  show "s ! 0 = 0x2002 \<longleftrightarrow> in_block 128 0x20020000000000000000000000000000 16 (unat a)"
    using seg_block [of "[0x2002]" 1 a] by (simp add: e v s_def)
  show "s ! 0 = 0x2001 \<and> s ! 1 = 0 \<longleftrightarrow> in_block 128 0x20010000000000000000000000000000 32 (unat a)"
    using seg_block [of "[0x2001, 0]" 2 a] by (simp add: e v s_def)
  show "s ! 0 = 0x0100 \<and> s ! 1 = 0 \<and> s ! 2 = 0 \<and> s ! 3 = 0 \<longleftrightarrow> in_block 128 0x01000000000000000000000000000000 64 (unat a)"
    using seg_block [of "[0x0100, 0, 0, 0]" 4 a] by (simp add: e v s_def)
  show "s ! 0 = 0x0064 \<and> s ! 1 = 0xFF9B \<and> s ! 2 = 0 \<and> s ! 3 = 0 \<and> s ! 4 = 0 \<and> s ! 5 = 0
       \<longleftrightarrow> in_block 128 0x0064FF9B000000000000000000000000 96 (unat a)"
    using seg_block [of "[0x0064, 0xFF9B, 0, 0, 0, 0]" 6 a] by (simp add: e v s_def)
  show "s ! 0 = 0 \<and> s ! 1 = 0 \<and> s ! 2 = 0 \<and> s ! 3 = 0 \<and> s ! 4 = 0 \<and> s ! 5 = 0 \<longleftrightarrow> in_block 128 0 96 (unat a)"
    using seg_block [of "[0, 0, 0, 0, 0, 0]" 6 a] by (simp add: e v s_def)
  show "take 6 s = [0, 0, 0, 0, 0, 0xFFFF] \<longleftrightarrow> in_block 128 0xFFFF00000000 96 (unat a)"
    using seg_block [of "[0, 0, 0, 0, 0, 0xFFFF]" 6 a] by (simp add: e v s_def)
qed

lemma mask_test:
  fixes x c m :: "'a::len word"
  assumes "m = push_bit n (- 1)" "c AND m = c"
  shows "x AND m = c \<longleftrightarrow> unat x div 2 ^ n = unat c div 2 ^ n"
  using masked_eq_block [of x n c] assms by simp

lemma v6_mask_tests:
  fixes a :: u128
  defines "s \<equiv> segments a"
  shows "s ! 0 AND 0xFFC0 = 0xFE80 \<longleftrightarrow> in_block 128 0xFE800000000000000000000000000000 10 (unat a)"
    "s ! 0 AND 0xFFC0 = 0xFEC0 \<longleftrightarrow> in_block 128 0xFEC00000000000000000000000000000 10 (unat a)"
    "s ! 0 AND 0xFE00 = 0xFC00 \<longleftrightarrow> in_block 128 0xFC000000000000000000000000000000 7 (unat a)"
    "s ! 0 = 0x2001 \<and> s ! 1 AND 0xFFF0 = 0x0020 \<longleftrightarrow> in_block 128 0x20010020000000000000000000000000 28 (unat a)"
    "s ! 0 = 0x2001 \<and> s ! 1 = 2 \<longleftrightarrow> in_block 128 0x20010002000000000000000000000000 32 (unat a)"
proof -
  note e = take_segments and v = seg_value_def
  have masks: "(0xFFC0 :: u16) = push_bit 6 (- 1)" "(0xFE00 :: u16) = push_bit 9 (- 1)" "(0xFFF0 :: u16) = push_bit 4 (- 1)"
    by code_simp+
  have s0: "unat (s ! 0) = unat a div 2 ^ 112"
    using seg_value_take [of 1 a] by (simp add: e v s_def)
  have top: "unat (s ! 0) div 2 ^ k = unat a div 2 ^ (112 + k)" for k
    by (simp only: s0 div_mult2_eq power_add)
  show "s ! 0 AND 0xFFC0 = 0xFE80 \<longleftrightarrow> in_block 128 0xFE800000000000000000000000000000 10 (unat a)"
    using mask_test [OF masks(1), of "0xFE80" "s ! 0"] unfolding top in_block_def by simp
  show "s ! 0 AND 0xFFC0 = 0xFEC0 \<longleftrightarrow> in_block 128 0xFEC00000000000000000000000000000 10 (unat a)"
    using mask_test [OF masks(1), of "0xFEC0" "s ! 0"] unfolding top in_block_def by simp
  show "s ! 0 AND 0xFE00 = 0xFC00 \<longleftrightarrow> in_block 128 0xFC000000000000000000000000000000 7 (unat a)"
    using mask_test [OF masks(2), of "0xFC00" "s ! 0"] unfolding top in_block_def by simp
  show "s ! 0 = 0x2001 \<and> s ! 1 = 2 \<longleftrightarrow> in_block 128 0x20010002000000000000000000000000 32 (unat a)"
    using seg_block [of "[0x2001, 2]" 2 a] by (simp add: e v s_def)
  have "unat a div 2 ^ 96 = unat (s ! 0) * 65536 + unat (s ! 1)"
    using seg_value_take [of 2 a] by (simp add: e v s_def)
  moreover have "unat a div 2 ^ 100 = unat a div 2 ^ 96 div 16"
    by (simp add: div_mult2_eq [symmetric])
  ultimately have "unat a div 2 ^ 100 = unat (s ! 0) * 4096 + unat (s ! 1) div 16" by simp
  moreover have "unat (s ! 1) < 65536" using unsigned_less [of "s ! 1"] by simp
  then have "unat (s ! 1) div 16 < 4096" by (simp add: less_mult_imp_div_less)
  ultimately have "unat a div 2 ^ 100 = 0x2001002 \<longleftrightarrow> unat (s ! 0) = 0x2001 \<and> unat (s ! 1) div 16 = 2"
    using horner_eq [of "unat (s ! 1) div 16" 4096 2 "unat (s ! 0)" "0x2001"] by simp
  then show "s ! 0 = 0x2001 \<and> s ! 1 AND 0xFFF0 = 0x0020 \<longleftrightarrow> in_block 128 0x20010020000000000000000000000000 28 (unat a)"
    using mask_test [OF masks(3), of "0x0020" "s ! 1"] by (simp add: in_block_def word_unat_eq_iff [of _ "0x2001"])
qed

lemma v6_octet_test: "octets6 a ! 0 = 255 \<longleftrightarrow> in_block 128 0xFF000000000000000000000000000000 8 (unat a)"
  unfolding word_unat_eq_iff oct6_nat in_block_def by simp

text \<open>The address blocks of RFC 6890 and RFC 4291 the policy speaks of.\<close>

definition loopback_block :: "ip_addr \<Rightarrow> bool" where
  "loopback_block ip \<longleftrightarrow> v4_block 0x7F000000 8 ip \<or> v6_block 1 128 ip"

definition special_block :: "ip_addr \<Rightarrow> bool" where
  "special_block ip \<longleftrightarrow>
     list_ex (\<lambda>(base, len). v4_block base len ip)
       [(0, 8), (0xA9FE0000, 16), (0xE0000000, 4), (0xFFFFFFFF, 32)]
     \<or> list_ex (\<lambda>(base, len). v6_block base len ip)
       [(0, 96), (0x0064FF9B000000000000000000000000, 96), (0x01000000000000000000000000000000, 64),
        (0x20010000000000000000000000000000, 32), (0x20010002000000000000000000000000, 32),
        (0x20010020000000000000000000000000, 28), (0x20020000000000000000000000000000, 16),
        (0xFE800000000000000000000000000000, 10), (0xFEC00000000000000000000000000000, 10),
        (0xFF000000000000000000000000000000, 8)]"

definition private_block :: "ip_addr \<Rightarrow> bool" where
  "private_block ip \<longleftrightarrow>
     list_ex (\<lambda>(base, len). v4_block base len ip) [(0x0A000000, 8), (0xAC100000, 12), (0xC0A80000, 16)]
     \<or> v6_block 0xFC000000000000000000000000000000 7 ip"

definition cidr_block :: "cidr \<Rightarrow> ip_addr \<Rightarrow> bool" where
  "cidr_block c ip =
     (case ci_addr c of
        IpV4 net \<Rightarrow> v4_block (unat net) (unat (ci_prefix c)) ip
      | IpV6 net \<Rightarrow> v6_block (unat net) (unat (ci_prefix c)) ip)"

lemma is_loopback_block: "is_loopback ip = loopback_block ip"
  by (cases ip) (simp_all add: loopback_block_def v4_block_def v6_block_def v4_tests, simp add: in_block_def word_unat_eq_iff)

lemma special_v4_block:
  "is_unspecified (IpV4 a) \<or> is_multicast (IpV4 a) \<or> is_special_v4 a \<longleftrightarrow> special_block (IpV4 a)"
proof -
  have "a = 0 \<Longrightarrow> octets4 a ! 0 = 0" by (simp add: octets4_def be_bytes_nth)
  then have "is_unspecified (IpV4 a) \<or> is_multicast (IpV4 a) \<or> is_special_v4 a
      \<longleftrightarrow> octets4 a ! 0 = 0 \<or> v4_is_link_local a \<or> (224 \<le> octets4 a ! 0 \<and> octets4 a ! 0 \<le> 239) \<or> a = - 1"
    unfolding is_special_v4_def is_unspecified.simps is_multicast.simps by argo
  also have "\<dots> \<longleftrightarrow> special_block (IpV4 a)"
    unfolding v4_tests special_block_def v4_block_def v6_block_def by simp
  finally show ?thesis .
qed

lemma special_v6_block:
  "is_unspecified (IpV6 a) \<or> is_multicast (IpV6 a) \<or> is_special_v6 a \<longleftrightarrow> special_block (IpV6 a)"
proof -
  have "a = 0 \<Longrightarrow> in_block 128 0 96 (unat a)" by (simp add: in_block_def)
  then have "is_unspecified (IpV6 a) \<or> is_multicast (IpV6 a) \<or> is_special_v6 a
      \<longleftrightarrow> in_block 128 0 96 (unat a) \<or> octets6 a ! 0 = 255 \<or> is_special_v6 a"
    unfolding is_special_v6_def Let_def v6_prefix_tests is_unspecified.simps is_multicast.simps by argo
  also have "\<dots> \<longleftrightarrow> special_block (IpV6 a)"
    unfolding is_special_v6_def Let_def conj_disj_distribL v6_prefix_tests v6_mask_tests v6_octet_test
      special_block_def v4_block_def v6_block_def
    by auto
  finally show ?thesis .
qed

lemma is_private_block: "is_private ip = private_block ip"
  by (cases ip; hypsubst; unfold private_block_def v4_block_def v6_block_def is_private.simps v4_is_private_def v4_tests v6_mask_tests)
    simp_all

lemma Cidr_contains_block: "Cidr_contains c ip = cidr_block c ip"
proof -
  have lt4: "unat x < 4294967296" for x :: u32 using unsigned_less [of x] by simp
  have lt6: "unat x < 340282366920938463463374607431768211456" for x :: u128 using unsigned_less [of x] by simp
  have v4: "masked_eq_v4 net a k = in_block 32 (unat net) (unat k) (unat a)" for net a k
    using masked_eq_block [of net "32 - unat k" a] lt4 [of net] lt4 [of a]
    by (auto simp: masked_eq_v4_def in_block_def Let_def unat_eq_0)
  have v6: "masked_eq_v6 net a k = in_block 128 (unat net) (unat k) (unat a)" for net a k
    using masked_eq_block [of net "128 - unat k" a] lt6 [of net] lt6 [of a]
    by (auto simp: masked_eq_v6_def in_block_def Let_def unat_eq_0)
  show ?thesis
    by (simp add: Cidr_contains_def cidr_block_def v4 v6 v4_block_def v6_block_def split: ip_addr.splits)
qed

section \<open>The filter decides by address blocks\<close>


lemma normalize_ip_block:
  "normalize_ip (IpV6 x) = (if v6_block 0xFFFF00000000 96 (IpV6 x) then IpV4 (ucast x) else IpV6 x)"
  by (simp add: to_ipv4_mapped_def v6_prefix_tests v6_block_def)

lemma normalize_ip_idem [simp]: "normalize_ip (normalize_ip ip) = normalize_ip ip"
  by (cases ip) (simp_all add: normalize_ip_block del: normalize_ip.simps(1))

lemma special_not_mapped:
  assumes "list_ex (\<lambda>(base, len). v6_block base len (IpV6 x))
       [(0, 96), (0x0064FF9B000000000000000000000000, 96), (0x20010000000000000000000000000000, 32),
        (0x20020000000000000000000000000000, 16)]"
  shows "\<not> v6_block 0xFFFF00000000 96 (IpV6 x)" "special_block (IpV6 x)"
proof -
  have "unat x div 2 ^ 96 = unat x div 2 ^ 32 div 2 ^ 64" "unat x div 2 ^ 112 = unat x div 2 ^ 32 div 2 ^ 80"
    by (simp_all add: div_mult2_eq [symmetric])
  with assms show "\<not> v6_block 0xFFFF00000000 96 (IpV6 x)"
    by (auto simp: v6_block_def in_block_def)
  show "special_block (IpV6 x)" using assms by (auto simp: special_block_def)
qed

text \<open>
  C17. An IPv4 destination cannot be smuggled past the filter inside an IPv6 address. An IPv4-mapped
  address is judged as the IPv4 address it carries, and the other forms that carry one (IPv4-compatible,
  NAT64, Teredo, 6to4) are refused by every policy; only the address of the IPv6 loopback, which is also of the
  IPv4-compatible form, is left to the loopback rule.
\<close>

theorem embedded_v4_no_bypass:
  "normalize_ip (IpV6 x) = (if v6_block 0xFFFF00000000 96 (IpV6 x) then IpV4 (ucast x) else IpV6 x)
   \<and> (list_ex (\<lambda>(base, len). v6_block base len (IpV6 x))
        [(0, 96), (0x0064FF9B000000000000000000000000, 96), (0x20010000000000000000000000000000, 32),
         (0x20020000000000000000000000000000, 16)] \<and> x \<noteq> 1
      \<longrightarrow> is_forbidden p (normalize_ip (IpV6 x)))"
proof (intro conjI impI)
  show "normalize_ip (IpV6 x) = (if v6_block 0xFFFF00000000 96 (IpV6 x) then IpV4 (ucast x) else IpV6 x)"
    by (rule normalize_ip_block)
next
  assume emb: "list_ex (\<lambda>(base, len). v6_block base len (IpV6 x))
        [(0, 96), (0x0064FF9B000000000000000000000000, 96), (0x20010000000000000000000000000000, 32),
         (0x20020000000000000000000000000000, 16)] \<and> x \<noteq> 1"
  then have n: "normalize_ip (IpV6 x) = IpV6 x" and special: "special_block (IpV6 x)"
    using special_not_mapped [of x] unfolding normalize_ip_block by simp_all
  have "\<not> is_loopback (IpV6 x)" using emb by simp
  with special show "is_forbidden p (normalize_ip (IpV6 x))"
    unfolding n is_forbidden_def special_v6_block [symmetric] by auto
qed

theorem embedded_v4_no_bypass_witness:
  "is_forbidden (lan True) (normalize_ip (IpV6 0x0064FF9B0000000000000000C0A80001))"
  using embedded_v4_no_bypass [of "0x0064FF9B0000000000000000C0A80001" "lan True"]
  unfolding normalize_ip_block by (simp add: v6_block_def in_block_def)

section \<open>Policies as they are built\<close>

definition wf_cidr :: "cidr \<Rightarrow> bool" where
  "wf_cidr c \<longleftrightarrow> unat (ci_prefix c) \<le> (case ci_addr c of IpV4 _ \<Rightarrow> 32 | IpV6 _ \<Rightarrow> 128)"

definition wf_policy :: "peer_policy \<Rightarrow> bool" where
  "wf_policy p \<longleftrightarrow>
     (\<forall>c \<in> set (pp_forbidden p) \<union> set (pp_denied p) \<union> set (pp_allowed p). wf_cidr c)
     \<and> sorted_wrt (<) (pp_self_addrs p)
     \<and> (\<forall>a \<in> set (pp_self_addrs p). normalize_ip a = a \<and> \<not> is_unspecified a)"

lemma Cidr_parse_wf: "Cidr_parse s = Some c \<Longrightarrow> wf_cidr c"
proof -
  assume "Cidr_parse s = Some c"
  then obtain addr prefix where "c = \<lparr> ci_addr = addr, ci_prefix = of_nat prefix \<rparr>"
      and "prefix \<le> (case addr of IpV4 _ \<Rightarrow> 32 | IpV6 _ \<Rightarrow> 128)"
    by (auto simp: Cidr_parse_def bind_eq_Some_conv split: if_splits)
  then show ?thesis
    by (cases addr) (simp_all add: wf_cidr_def unat_of_nat order_trans [OF mod_less_eq_dividend])
qed

lemma parse_ranges_wf: "c \<in> set (parse_ranges rs) \<Longrightarrow> wf_cidr c"
  by (auto simp: parse_ranges_def List.map_filter_def intro: Cidr_parse_wf)

lemma sorted_remdups_adj: "sorted xs \<Longrightarrow> sorted_wrt (<) (remdups_adj (xs :: 'a::linorder list))"
  by (induction xs rule: remdups_adj.induct) (auto simp: less_le)

text \<open>
  C34. A policy built from the configuration is well formed: every range in it has a prefix length of
  its address family, so that no mask is ever shifted by a negative amount, whatever the configured texts;
  the server's own addresses are normalised, specified and strictly sorted, so that an address is compared
  with them in the form the filter is asked about.
\<close>

theorem built_policy_wf:
  "wf_policy (with_self_addresses addrs (with_forbidden_ranges forbidden
     (from_config profile allow_loopback denied allowed env_loopback)))"
  by (auto simp: wf_policy_def with_self_addresses_def with_forbidden_ranges_def from_config_def
      intro: parse_ranges_wf sorted_remdups_adj)

end
