(* ===== verification/Rate_Limiter.thy ===== *)
theory Rate_Limiter
  imports Peer_Filter Session_Base
begin

text \<open>
  Rate limiting (\<^verbatim>\<open>crates/qos/src/lib.rs\<close>, \<^verbatim>\<open>capacity.rs\<close>): a token bucket packed into one 64-bit word, a table of
  buckets by source address, the five tiers the packet processor asks, and the node-wide byte budget. A call of
  \<^verbatim>\<open>try_acquire\<close> takes effect at its successful compare-and-exchange and is one step here. The clock is an argument, and so is
  the order in which a table is sampled when an entry has to go.
\<close>

section \<open>The packed bucket\<close>

definition TS_BITS :: nat where [rust_const]: "TS_BITS = 40"
definition TS_MASK :: u64 where [rust_const]: "TS_MASK = 0xFFFFFFFFFF"
definition TOKEN_MASK :: u64 where [rust_const]: "TOKEN_MASK = 0xFFFFFF"

definition pack :: "u64 \<Rightarrow> u64 \<Rightarrow> u64" where
  "pack tokens ts_ms = or (push_bit TS_BITS (and tokens TOKEN_MASK)) (and ts_ms TS_MASK)"

definition unpack :: "u64 \<Rightarrow> u64 \<times> u64" where
  "unpack state = (drop_bit TS_BITS state, and state TS_MASK)"

definition refill :: "u64 \<Rightarrow> u64 \<Rightarrow> u64 \<Rightarrow> u64 \<Rightarrow> u64 \<Rightarrow> u64 \<times> u64" where
  "refill tokens last_ts now_ts max_tokens rate =
     (if rate = 0 \<or> now_ts \<le> last_ts then (min tokens max_tokens, last_ts)
      else
        let elapsed = now_ts - last_ts;
            added = of_nat (unat elapsed * unat rate div 1000)
        in if added = 0 then (tokens, last_ts)
           else
             let new_tokens = min (tokens + added) max_tokens
             in (new_tokens,
                 if new_tokens \<ge> max_tokens then now_ts
                 else last_ts + of_nat (unat added * 1000 div unat rate)))"

definition try_acquire :: "u64 \<Rightarrow> u64 \<Rightarrow> u64 \<Rightarrow> u64 \<Rightarrow> bool \<times> u64" where
  "try_acquire now_ms max_tokens rate state =
     (let (tokens, last_ts) = unpack state;
          (refilled, new_ts) = refill tokens last_ts now_ms max_tokens rate
      in if refilled < 1 then (False, state) else (True, pack (refilled - 1) new_ts))"

definition last_ts :: "u64 \<Rightarrow> u64" where
  "last_ts state = snd (unpack state)"

section \<open>A table of buckets\<close>

record sharded_limiter =
  rb_buckets :: "(ip_addr, u64) fmap"
  rb_base :: instant
  rb_max_tokens :: u32
  rb_refill_rate :: u32
  rb_max_entries :: nat
  rb_evictions :: u64
  rb_table_full_events :: u64

definition ShardedRateLimiter_new :: "instant \<Rightarrow> u32 \<Rightarrow> u32 \<Rightarrow> sharded_limiter" where
  "ShardedRateLimiter_new now max_tokens refill_rate =
     \<lparr> rb_buckets = fmempty, rb_base = now, rb_max_tokens = max_tokens, rb_refill_rate = refill_rate,
       rb_max_entries = 65536, rb_evictions = 0, rb_table_full_events = 0 \<rparr>"

definition rb_now_ms :: "sharded_limiter \<Rightarrow> instant \<Rightarrow> u64" where
  "rb_now_ms l now = and (of_nat ((now - rb_base l) div 10 ^ 6)) TS_MASK"

definition BUCKET_SAMPLE :: nat where [rust_const]: "BUCKET_SAMPLE = 8"

definition idlest_bucket :: "u64 \<Rightarrow> (ip_addr, u64) fmap \<Rightarrow> ip_addr list \<Rightarrow> (ip_addr \<times> u64) option" where
  "idlest_bucket now buckets order =
     fold (\<lambda>k victim. case fmlookup buckets k of
         None \<Rightarrow> victim
       | Some b \<Rightarrow>
           let age = saturating_sub now (last_ts b)
           in case victim of
                None \<Rightarrow> Some (k, age)
              | Some (_, best) \<Rightarrow> if age > best then Some (k, age) else victim)
       (take BUCKET_SAMPLE order) None"

definition evict_bucket :: "ip_addr list \<Rightarrow> u64 \<Rightarrow> sharded_limiter \<Rightarrow> bool \<times> sharded_limiter" where
  "evict_bucket order now l =
     (case idlest_bucket now (rb_buckets l) order of
        Some (k, _) \<Rightarrow>
          (k |\<in>| fmdom (rb_buckets l),
           l\<lparr>rb_evictions := rb_evictions l + 1, rb_buckets := fmdrop k (rb_buckets l)\<rparr>)
      | None \<Rightarrow> (False, l))"

definition note_table_full :: "sharded_limiter \<Rightarrow> sharded_limiter" where
  "note_table_full l = l\<lparr>rb_table_full_events := rb_table_full_events l + 1\<rparr>"

definition rb_check :: "ip_addr list \<Rightarrow> instant \<Rightarrow> ip_addr \<Rightarrow> sharded_limiter \<Rightarrow> bool \<times> sharded_limiter" where
  "rb_check order now ip l =
     (let ms = rb_now_ms l now; mx = ucast (rb_max_tokens l); rate = ucast (rb_refill_rate l) in
      case fmlookup (rb_buckets l) ip of
        Some b \<Rightarrow> (let (ok, b) = try_acquire ms mx rate b in (ok, l\<lparr>rb_buckets := fmupd ip b (rb_buckets l)\<rparr>))
      | None \<Rightarrow>
          let l = (if fcard (fmdom (rb_buckets l)) \<ge> rb_max_entries l
                   then let (evicted, l) = evict_bucket order ms l in if evicted then l else note_table_full l
                   else l);
              (ok, b) = try_acquire ms mx rate (pack mx ms)
          in (ok, l\<lparr>rb_buckets := fmupd ip b (rb_buckets l)\<rparr>))"

definition rb_cleanup :: "u64 \<Rightarrow> instant \<Rightarrow> sharded_limiter \<Rightarrow> sharded_limiter" where
  "rb_cleanup max_age_ms now l =
     l\<lparr>rb_buckets := fmfilter (\<lambda>ip. case fmlookup (rb_buckets l) ip of
         None \<Rightarrow> False | Some b \<Rightarrow> saturating_sub (rb_now_ms l now) (last_ts b) < max_age_ms) (rb_buckets l)\<rparr>"

section \<open>Tiers\<close>

fun unmap :: "ip_addr \<Rightarrow> ip_addr" where
  "unmap (IpV6 v6) = (case to_ipv4_mapped v6 of Some v4 \<Rightarrow> IpV4 v4 | None \<Rightarrow> IpV6 v6)"
| "unmap (IpV4 v4) = IpV4 v4"

definition aggregation_prefix :: "ip_addr \<Rightarrow> ip_addr" where
  "aggregation_prefix ip =
     (case unmap ip of
        IpV4 v4 \<Rightarrow> IpV4 (from_be_bytes (take 3 (octets4 v4) @ [0]))
      | IpV6 v6 \<Rightarrow> IpV6 (from_be_bytes (take 6 (octets6 v6) @ replicate 10 0)))"

record tiered_limits =
  tl_per_ip :: "u32 \<times> u32"
  tl_per_prefix :: "u32 \<times> u32"
  tl_allocate :: "u32 \<times> u32"
  tl_create_permission :: "u32 \<times> u32"
  tl_channel_bind :: "u32 \<times> u32"

definition TieredLimits_default :: tiered_limits where
  "TieredLimits_default =
     \<lparr> tl_per_ip = (10000, 50000), tl_per_prefix = (40000, 200000), tl_allocate = (32, 16),
       tl_create_permission = (128, 64), tl_channel_bind = (128, 64) \<rparr>"

record tiered_limiter =
  tr_per_ip :: sharded_limiter
  tr_per_prefix :: sharded_limiter
  tr_allocate :: sharded_limiter
  tr_create_permission :: sharded_limiter
  tr_channel_bind :: sharded_limiter

definition TieredRateLimiter_new :: "instant \<Rightarrow> tiered_limits \<Rightarrow> tiered_limiter" where
  "TieredRateLimiter_new now limits =
     \<lparr> tr_per_ip = ShardedRateLimiter_new now (fst (tl_per_ip limits)) (snd (tl_per_ip limits)),
       tr_per_prefix = ShardedRateLimiter_new now (fst (tl_per_prefix limits)) (snd (tl_per_prefix limits)),
       tr_allocate = ShardedRateLimiter_new now (fst (tl_allocate limits)) (snd (tl_allocate limits)),
       tr_create_permission =
         ShardedRateLimiter_new now (fst (tl_create_permission limits)) (snd (tl_create_permission limits)),
       tr_channel_bind = ShardedRateLimiter_new now (fst (tl_channel_bind limits)) (snd (tl_channel_bind limits)) \<rparr>"

type_synonym bucket_orders = "nat \<Rightarrow> ip_addr list"

definition check_ingress_ip :: "bucket_orders \<Rightarrow> instant \<Rightarrow> ip_addr \<Rightarrow> tiered_limiter \<Rightarrow> bool \<times> tiered_limiter" where
  "check_ingress_ip ord now ip t =
     (let (ok, l) = rb_check (ord 0) now ip (tr_per_ip t) in (ok, t\<lparr>tr_per_ip := l\<rparr>))"

definition check_ingress :: "bucket_orders \<Rightarrow> instant \<Rightarrow> ip_addr \<Rightarrow> tiered_limiter \<Rightarrow> bool \<times> tiered_limiter" where
  "check_ingress ord now ip t =
     (let (ok, t) = check_ingress_ip ord now ip t
      in if \<not> ok then (False, t)
         else let (ok, l) = rb_check (ord 1) now (aggregation_prefix ip) (tr_per_prefix t)
              in (ok, t\<lparr>tr_per_prefix := l\<rparr>))"

definition check_allocate :: "bucket_orders \<Rightarrow> instant \<Rightarrow> ip_addr \<Rightarrow> tiered_limiter \<Rightarrow> bool \<times> tiered_limiter" where
  "check_allocate ord now ip t =
     (let (ok, l) = rb_check (ord 2) now ip (tr_allocate t) in (ok, t\<lparr>tr_allocate := l\<rparr>))"

definition check_create_permission :: "bucket_orders \<Rightarrow> instant \<Rightarrow> ip_addr \<Rightarrow> tiered_limiter \<Rightarrow> bool \<times> tiered_limiter" where
  "check_create_permission ord now ip t =
     (let (ok, l) = rb_check (ord 3) now ip (tr_create_permission t) in (ok, t\<lparr>tr_create_permission := l\<rparr>))"

definition check_channel_bind :: "bucket_orders \<Rightarrow> instant \<Rightarrow> ip_addr \<Rightarrow> tiered_limiter \<Rightarrow> bool \<times> tiered_limiter" where
  "check_channel_bind ord now ip t =
     (let (ok, l) = rb_check (ord 4) now ip (tr_channel_bind t) in (ok, t\<lparr>tr_channel_bind := l\<rparr>))"

definition tiered_cleanup :: "u64 \<Rightarrow> instant \<Rightarrow> tiered_limiter \<Rightarrow> tiered_limiter" where
  "tiered_cleanup max_age_ms now t =
     t\<lparr>tr_per_ip := rb_cleanup max_age_ms now (tr_per_ip t),
       tr_per_prefix := rb_cleanup max_age_ms now (tr_per_prefix t),
       tr_allocate := rb_cleanup max_age_ms now (tr_allocate t),
       tr_create_permission := rb_cleanup max_age_ms now (tr_create_permission t),
       tr_channel_bind := rb_cleanup max_age_ms now (tr_channel_bind t)\<rparr>"

section \<open>The byte budget of the node\<close>

record byte_limiter =
  bl_rate :: u64
  bl_burst :: u64
  bl_tokens :: u64
  bl_last_us :: u64
  bl_base :: instant

definition ByteRateLimiter_with_burst :: "instant \<Rightarrow> u64 \<Rightarrow> u64 \<Rightarrow> byte_limiter" where
  "ByteRateLimiter_with_burst now rate burst =
     (let burst = max burst 1
      in \<lparr> bl_rate = rate, bl_burst = burst, bl_tokens = burst, bl_last_us = 0, bl_base = now \<rparr>)"

definition ByteRateLimiter_new :: "instant \<Rightarrow> u64 \<Rightarrow> byte_limiter" where
  "ByteRateLimiter_new now rate = ByteRateLimiter_with_burst now rate rate"

definition bl_refill :: "u64 \<Rightarrow> byte_limiter \<Rightarrow> byte_limiter" where
  "bl_refill now_us b =
     (let last = bl_last_us b in
      if now_us \<le> last then b
      else
        let elapsed = now_us - last;
            add = (of_nat (unat elapsed * unat (bl_rate b) div 1000000) :: u64)
        in if add = 0 then b
           else
             let used_us = (of_nat (unat add * 1000000 div unat (max (bl_rate b) 1)) :: u64)
             in b\<lparr>bl_last_us := last + min used_us elapsed,
                  bl_tokens := min (saturating_add (bl_tokens b) add) (bl_burst b)\<rparr>)"

definition try_consume_at :: "u64 \<Rightarrow> u64 \<Rightarrow> byte_limiter \<Rightarrow> bool \<times> byte_limiter" where
  "try_consume_at n now_us b =
     (let b = bl_refill now_us b
      in if n \<le> bl_tokens b then (True, b\<lparr>bl_tokens := bl_tokens b - n\<rparr>) else (False, b))"

definition try_consume :: "u64 \<Rightarrow> instant \<Rightarrow> byte_limiter \<Rightarrow> bool \<times> byte_limiter" where
  "try_consume n now b = try_consume_at n (of_nat ((now - bl_base b) div 1000)) b"

section \<open>How much a bucket lets through\<close>

lemma masks: "TS_MASK = mask 40" "TOKEN_MASK = mask 24"
  by (simp_all add: rust_const mask_eq_exp_minus_1)

lemma unpack_pack:
  assumes "unat tokens < 2 ^ 24" "unat ts < 2 ^ 40"
  shows "unpack (pack tokens ts) = (tokens, ts)"
proof -
  have small: "take_bit 24 tokens = tokens" "take_bit 40 ts = ts"
    using assms by (simp_all only: word_unat_eq_iff unsigned_take_bit_eq take_bit_nat_eq_self)
  have p: "pack tokens ts = or (push_bit 40 (take_bit 24 tokens)) (take_bit 40 ts)"
    by (simp add: pack_def masks take_bit_eq_mask rust_const(1) TS_BITS_def)
  have "drop_bit 40 (pack tokens ts) = take_bit 24 tokens" "take_bit 40 (pack tokens ts) = take_bit 40 ts"
    unfolding p by (rule bit_word_eqI; auto simp: bit_simps)+
  then show ?thesis by (simp add: unpack_def masks take_bit_eq_mask [symmetric] TS_BITS_def small)
qed

text \<open>The refill in natural numbers: \<open>e\<close> milliseconds have passed and make \<open>a\<close> tokens.\<close>

lemma refill_nat:
  fixes tokens last now mx rate :: u64
  defines "e \<equiv> unat now - unat last" and "r \<equiv> unat rate"
  defines "a \<equiv> e * r div 1000"
  assumes bounds: "unat tokens < 2 ^ 24" "unat last < 2 ^ 40" "unat now < 2 ^ 40" "unat mx < 2 ^ 24" "r < 2 ^ 32"
    and r: "refill tokens last now mx rate = (tk, ts)"
  shows "a = 0 \<Longrightarrow> (tk = tokens \<or> tk = min tokens mx) \<and> ts = last"
    "a > 0 \<Longrightarrow> unat tk = min (unat tokens + a) (unat mx)
       \<and> unat ts = (if unat tokens + a \<ge> unat mx then unat now else unat last + a * 1000 div r)"
proof -
  have e: "e < 2 ^ 40" using bounds(3) by (simp add: e_def)
  have "e * r < 2 ^ 40 * 2 ^ 32" using e bounds(5) by (intro mult_strict_mono) auto
  then have a: "a < 4722366482869645214" by (simp add: a_def)
  let ?added = "of_nat (unat (now - last) * unat rate div 1000) :: u64"
  have el: "unat (now - last) = e" if "last < now" using that by (simp add: e_def unat_sub less_imp_le)
  have added: "unat ?added = a" if "last < now" using a by (simp add: el [OF that] a_def r_def unat_of_nat)
  have zero: "a = 0" if "\<not> last < now" using that by (simp add: a_def e_def word_less_nat_alt)
  show "(tk = tokens \<or> tk = min tokens mx) \<and> ts = last" if "a = 0"
  proof (cases "rate = 0 \<or> now \<le> last")
    case True then show ?thesis using r by (auto simp: refill_def)
  next
    case False
    then have "?added = 0" using added that by (simp add: word_unat_eq_iff not_le)
    with False r show ?thesis by (auto simp: refill_def)
  qed
  assume pos: "a > 0"
  then have lt: "last < now" and rp: "r > 0" using zero by (auto simp: a_def intro!: Nat.gr0I)
  have ne: "?added \<noteq> 0" "rate \<noteq> 0" using added [OF lt] pos rp by (auto simp: r_def)
  have sum: "unat (tokens + ?added) = unat tokens + a"
    using a bounds(1) added [OF lt] by (subst unat_add_lem [THEN iffD1]) auto
  have le: "a * 1000 \<le> e * r" by (simp add: a_def)
  have "a * 1000 div r \<le> e" using div_le_mono [OF le, of r] rp by simp
  then have c: "unat last + a * 1000 div r \<le> unat now" using lt by (simp add: e_def word_less_nat_alt)
  have used: "unat (of_nat (unat ?added * 1000 div unat rate) :: u64) = a * 1000 div r"
    using c bounds(3) unfolding added [OF lt] unfolding r_def [symmetric] by (simp add: unat_of_nat)
  have ts': "unat (last + of_nat (unat ?added * 1000 div unat rate)) = unat last + a * 1000 div r"
    using c bounds(3) used by (subst unat_add_lem [THEN iffD1]) auto
  have m: "unat (min (tokens + ?added) mx) = min (unat tokens + a) (unat mx)"
    by (simp add: min_def word_le_nat_alt sum)
  have full: "(mx \<le> min (tokens + ?added) mx) = (unat mx \<le> unat tokens + a)"
    by (simp add: word_le_nat_alt m)
  have tk: "tk = min (tokens + ?added) mx"
    and ts: "ts = (if mx \<le> min (tokens + ?added) mx then now else last + of_nat (unat ?added * 1000 div unat rate))"
    using r ne lt by (auto simp: refill_def Let_def not_le [symmetric])
  show "unat tk = min (unat tokens + a) (unat mx)
       \<and> unat ts = (if unat tokens + a \<ge> unat mx then unat now else unat last + a * 1000 div r)"
    unfolding tk ts m full using ts' by simp
qed

text \<open>A run of requests against one bucket, and what a millisecond of waiting can be worth at most.\<close>

fun grants :: "u64 \<Rightarrow> u64 \<Rightarrow> u64 list \<Rightarrow> u64 \<Rightarrow> nat \<times> u64" where
  "grants mx rate [] st = (0, st)"
| "grants mx rate (t # ts) st =
     (let (ok, st) = try_acquire t mx rate st; (n, st) = grants mx rate ts st in (of_bool ok + n, st))"

definition pays :: "nat \<Rightarrow> nat \<Rightarrow> nat \<Rightarrow> bool" where
  "pays num den r \<longleftrightarrow> (\<forall>e. e * r div 1000 * den \<le> num * (e * r div 1000 * 1000 div r))"

lemma try_acquire_credit:
  fixes tokens last now mx rate :: u64
  assumes bounds: "unat tokens \<le> unat mx" "unat last < 2 ^ 40" "unat now < 2 ^ 40" "unat mx < 2 ^ 24" "unat rate < 2 ^ 32"
    and p: "pays num den (unat rate)" and a: "try_acquire now mx rate (pack tokens last) = (ok, st)"
  obtains tokens' last' where "st = pack tokens' last'" "unat tokens' \<le> unat mx" "unat last' < 2 ^ 40"
    "unat last \<le> unat last'" "unat last' \<le> max (unat last) (unat now)"
    "(of_bool ok + unat tokens') * den \<le> unat tokens * den + num * (unat last' - unat last)"
proof -
  let ?e = "unat now - unat last" and ?r = "unat rate"
  let ?a = "?e * ?r div 1000"
  obtain tk ts where rf: "refill tokens last now mx rate = (tk, ts)" by force
  have tb: "unat tokens < 2 ^ 24" using bounds by simp
  note n = refill_nat [OF tb bounds(2-5) rf]
  have u: "unpack (pack tokens last) = (tokens, last)" by (rule unpack_pack [OF tb bounds(2)])
  have one: "(1 \<le> tk) = (tk \<noteq> 0)" by (simp add: word_le_nat_alt Suc_le_eq unat_gt_0)
  have st: "ok = (tk \<ge> 1)" "st = (if tk \<ge> 1 then pack (tk - 1) ts else pack tokens last)"
    using a by (auto simp: try_acquire_def u rf one split: if_splits)
  have c: "?a * 1000 div ?r \<le> ?e"
    using div_le_mono [of "?a * 1000" "?e * ?r" ?r] by (cases "?r = 0") simp_all
  have tk: "unat tk \<le> unat mx" and ts: "unat last \<le> unat ts" "unat ts \<le> max (unat last) (unat now)"
    and credit: "unat tk * den \<le> unat tokens * den + num * (unat ts - unat last)"
  proof -
    have "unat tk \<le> unat mx \<and> unat last \<le> unat ts \<and> unat ts \<le> max (unat last) (unat now)
      \<and> unat tk * den \<le> unat tokens * den + num * (unat ts - unat last)"
    proof (cases "?a = 0")
      case True
      then have "tk = tokens" "ts = last" using n(1) bounds(1) by (auto simp: min_def word_le_nat_alt)
      then show ?thesis using bounds(1) by simp
    next
      case False
      then have f: "unat tk = min (unat tokens + ?a) (unat mx)"
        "unat ts = (if unat tokens + ?a \<ge> unat mx then unat now else unat last + ?a * 1000 div ?r)"
        using n(2) by auto
      have lt: "unat last < unat now" using False by (cases "unat last < unat now") auto
      have pa: "?a * den \<le> num * (?a * 1000 div ?r)" using p by (simp add: pays_def)
      also have "\<dots> \<le> num * (unat ts - unat last)"
        using c unfolding f(2) by (intro mult_le_mono2) simp
      finally have w: "?a * den \<le> num * (unat ts - unat last)" .
      have "unat tk * den \<le> (unat tokens + ?a) * den" unfolding f(1) by (intro mult_le_mono1) simp
      then have "unat tk * den \<le> unat tokens * den + num * (unat ts - unat last)"
        using w by (simp add: distrib_right)
      moreover have "unat last \<le> unat ts" "unat ts \<le> unat now" unfolding f(2) using c lt by auto
      ultimately show ?thesis using f(1) lt by simp
    qed
    then show "unat tk \<le> unat mx" "unat last \<le> unat ts" "unat ts \<le> max (unat last) (unat now)"
      "unat tk * den \<le> unat tokens * den + num * (unat ts - unat last)" by simp_all
  qed
  show thesis
  proof (cases "tk \<ge> 1")
    case True
    then have "unat (tk - 1) = unat tk - 1" "unat tk \<ge> 1" by (simp_all add: unat_sub word_le_nat_alt)
    then show thesis using True st tk ts credit bounds by (intro that [of "tk - 1" ts]) auto
  next
    case False
    then show thesis using st bounds by (intro that [of tokens last]) auto
  qed
qed

lemma grants_credit:
  fixes tokens last mx rate :: u64
  assumes "unat tokens \<le> unat mx" "unat last < 2 ^ 40" "unat mx < 2 ^ 24" "unat rate < 2 ^ 32" "pays num den (unat rate)"
    and "\<forall>t \<in> set ts. unat t \<le> T" "T < 2 ^ 40" "unat last \<le> T"
  shows "fst (grants mx rate ts (pack tokens last)) * den \<le> unat tokens * den + num * (T - unat last)"
  using assms(1,2,6,8)
proof (induction ts arbitrary: tokens last)
  case Nil
  then show ?case by simp
next
  case (Cons t ts)
  obtain ok st where a: "try_acquire t mx rate (pack tokens last) = (ok, st)" by force
  have t: "unat t < 2 ^ 40" "unat t \<le> T" using Cons.prems assms(7) by auto
  from try_acquire_credit [OF Cons.prems(1,2) t(1) assms(3-5) a] obtain tokens' last' where
    s: "st = pack tokens' last'" "unat tokens' \<le> unat mx" "unat last' < 2 ^ 40"
    "unat last \<le> unat last'" "unat last' \<le> max (unat last) (unat t)"
    "(of_bool ok + unat tokens') * den \<le> unat tokens * den + num * (unat last' - unat last)" by metis
  have le: "unat last' \<le> T" using s(5) t(2) Cons.prems(4) by simp
  have ih: "fst (grants mx rate ts (pack tokens' last')) * den \<le> unat tokens' * den + num * (T - unat last')"
    using Cons.prems(3) by (intro Cons.IH s(2,3) le) simp
  have "(of_bool ok + fst (grants mx rate ts st)) * den
      \<le> of_bool ok * den + (unat tokens' * den + num * (T - unat last'))"
    using ih s(1) by (simp add: distrib_right)
  also have "\<dots> \<le> unat tokens * den + num * (unat last' - unat last) + num * (T - unat last')"
    using s(6) by (simp add: distrib_right)
  also have "\<dots> = unat tokens * den + num * (T - unat last)"
    using s(4) le by (simp add: distrib_left [symmetric])
  finally show ?case by (simp add: a split_beta)
qed

text \<open>What a request costs in waiting time, for the rates at which the refill does not give time away.\<close>

lemma pays_slow: "0 < r \<Longrightarrow> r \<le> 1000 \<Longrightarrow> pays 1 (1000 div r) r"
proof -
  assume r: "0 < r" "r \<le> 1000"
  have "a * (1000 div r) \<le> a * 1000 div r" for a
    using r by (simp add: less_eq_div_iff_mult_less_eq algebra_simps)
  then show ?thesis by (simp add: pays_def)
qed

lemma pays_multiple: "0 < m \<Longrightarrow> pays m 1 (1000 * m)"
  by (simp add: pays_def algebra_simps)



text \<open>
  C39. A configured rate between 1000 and 2000 per second limits nothing: one millisecond after the last refill the next refill makes a token but
  rounds the time it uses up down to 0, so any number of requests in that millisecond is granted from an empty
  bucket.
\<close>

theorem token_bucket_unlimited:
  fixes mx rate t :: u64
  assumes "1000 < unat rate" "unat rate < 2000" "1 < unat mx" "unat mx < 2 ^ 24" "unat t + 1 < 2 ^ 40"
  shows "fst (grants mx rate (replicate n (t + 1)) (pack 0 t)) = n"
proof -
  have t1: "unat (t + 1) = unat t + 1" using assms(5) by (subst unat_add_lem [THEN iffD1]) auto
  obtain tk ts where rf: "refill 0 t (t + 1) mx rate = (tk, ts)" by force
  have "unat (0 :: u64) < 2 ^ 24" "unat t < 2 ^ 40" "unat (t + 1) < 2 ^ 40" "unat rate < 2 ^ 32"
    using assms t1 by simp_all
  note f = refill_nat(2) [OF this(1-3) assms(4) this(4) rf]
  have one: "unat rate div 1000 = 1" using assms by simp
  have "unat tk = 1" "unat ts = unat t" using f assms(1-3) by (simp_all add: t1 one)
  then have "tk = 1" "ts = t" by (simp_all add: word_unat_eq_iff)
  then have step: "try_acquire (t + 1) mx rate (pack 0 t) = (True, pack 0 t)"
    using rf assms(5) by (simp add: try_acquire_def unpack_pack)
  show ?thesis by (induction n) (simp_all add: step split_beta)
qed

theorem token_bucket_unlimited_witness:
  "fst (grants 100 1500 (replicate 5000 8) (pack 0 7)) = 5000"
  using token_bucket_unlimited [of 1500 100 7 5000] by simp

end
