(* ===== verification/Auto_Ban.thy ===== *)
theory Auto_Ban
  imports Rate_Limiter
begin

text \<open>
  Temporary bans of sources (\<^verbatim>\<open>crates/relay/src/abuse.rs\<close>): offences are counted per address or prefix in a window, and
  a source that reaches a threshold is banned for a fixed time. The clock is an argument, and so is the order
  in which the counters are sampled when one has to go. The lemmas trace every ban back to the offences that caused it.
\<close>

section \<open>The table\<close>

datatype offence = AuthFailure | RateLimited | CredentialLookup

record auto_ban_settings =
  ab_auth_failures :: u32
  ab_rate_limit_violations :: u32
  ab_credential_lookups :: u32
  ab_window :: nat
  ab_ban :: nat
  ab_prefix_scope :: bool
  ab_allowlist :: "string list"
  ab_max_tracked :: nat
  ab_max_bans :: nat

record ban_event =
  be_key :: ip_addr
  be_offence :: offence
  be_count :: u32
  be_duration :: nat
  be_prefix_scope :: bool

record offence_counter =
  oc_window_start_ms :: u64
  oc_last_ms :: u64
  oc_auth :: u32
  oc_rate_limited :: u32
  oc_lookups :: u32

record auto_ban =
  ab_settings :: auto_ban_settings
  ab_allow :: "cidr list"
  ab_base :: instant
  ab_counters :: "(ip_addr, offence_counter) fmap"
  ab_bans :: "(ip_addr, u64) fmap"
  ab_active :: usize
  ab_bans_total :: u64
  ab_bans_refused_full :: u64
  ab_counter_evictions :: u64

definition AutoBan_new :: "instant \<Rightarrow> auto_ban_settings \<Rightarrow> auto_ban" where
  "AutoBan_new now settings =
     \<lparr> ab_settings = settings, ab_allow = parse_ranges (ab_allowlist settings), ab_base = now, ab_counters = fmempty,
       ab_bans = fmempty, ab_active = 0, ab_bans_total = 0, ab_bans_refused_full = 0, ab_counter_evictions = 0 \<rparr>"

definition duration_ms :: "nat \<Rightarrow> u64" where
  "duration_ms d = of_nat (d div 10 ^ 6)"

definition ab_now_ms :: "auto_ban \<Rightarrow> instant \<Rightarrow> u64" where
  "ab_now_ms b now = duration_ms (now - ab_base b)"

definition ab_key :: "auto_ban \<Rightarrow> ip_addr \<Rightarrow> ip_addr" where
  "ab_key b ip = (if ab_prefix_scope (ab_settings b) then aggregation_prefix ip else ip)"

definition allowlisted :: "auto_ban \<Rightarrow> ip_addr \<Rightarrow> bool" where
  "allowlisted b ip \<longleftrightarrow> (\<exists>c \<in> set (ab_allow b). Cidr_contains c ip)"

definition is_banned_at :: "auto_ban \<Rightarrow> ip_addr \<Rightarrow> u64 \<Rightarrow> bool" where
  "is_banned_at b ip now_ms =
     (let ip = unmap ip;
          live = (case fmlookup (ab_bans b) (ab_key b ip) of Some expiry \<Rightarrow> expiry > now_ms | None \<Rightarrow> False)
      in live \<and> \<not> (ab_prefix_scope (ab_settings b) \<and> allowlisted b ip))"

definition is_banned :: "auto_ban \<Rightarrow> instant \<Rightarrow> ip_addr \<Rightarrow> bool" where
  "is_banned b now ip = (if ab_active b = 0 then False else is_banned_at b ip (ab_now_ms b now))"

definition COUNTER_SAMPLE :: nat where [rust_const]: "COUNTER_SAMPLE = 8"

definition idlest_counter :: "(ip_addr, offence_counter) fmap \<Rightarrow> ip_addr list \<Rightarrow> (ip_addr \<times> u64) option" where
  "idlest_counter counters order =
     fold (\<lambda>k victim. case fmlookup counters k of
         None \<Rightarrow> victim
       | Some c \<Rightarrow>
           (case victim of
              None \<Rightarrow> Some (k, oc_last_ms c)
            | Some (_, best) \<Rightarrow> if oc_last_ms c < best then Some (k, oc_last_ms c) else victim))
       (take COUNTER_SAMPLE order) None"

definition evict_idlest_counter :: "ip_addr list \<Rightarrow> auto_ban \<Rightarrow> auto_ban" where
  "evict_idlest_counter order b =
     (case idlest_counter (ab_counters b) order of
        None \<Rightarrow> b
      | Some (k, _) \<Rightarrow>
          if k |\<in>| fmdom (ab_counters b)
          then b\<lparr>ab_counters := fmdrop k (ab_counters b), ab_counter_evictions := ab_counter_evictions b + 1\<rparr>
          else b)"

definition live_bans :: "u64 \<Rightarrow> (ip_addr, u64) fmap \<Rightarrow> (ip_addr, u64) fmap" where
  "live_bans now_ms bans =
     fmfilter (\<lambda>k. case fmlookup bans k of Some expiry \<Rightarrow> \<not> expiry \<le> now_ms | None \<Rightarrow> False) bans"

definition sweep_at :: "u64 \<Rightarrow> auto_ban \<Rightarrow> ip_addr fset \<times> auto_ban" where
  "sweep_at now_ms b =
     (let bans = live_bans now_ms (ab_bans b);
          expired = fmdom (ab_bans b) |-| fmdom bans;
          window_ms = duration_ms (ab_window (ab_settings b));
          counters = fmfilter (\<lambda>k. case fmlookup (ab_counters b) k of
             Some c \<Rightarrow> saturating_sub now_ms (oc_window_start_ms c) < window_ms | None \<Rightarrow> False) (ab_counters b)
      in (expired, b\<lparr>ab_bans := bans,
            ab_active := (if expired \<noteq> {||} then ab_active b - of_nat (fcard expired) else ab_active b),
            ab_counters := counters\<rparr>))"

definition ab_sweep :: "instant \<Rightarrow> auto_ban \<Rightarrow> ip_addr fset \<times> auto_ban" where
  "ab_sweep now b = sweep_at (ab_now_ms b now) b"

definition impose :: "ip_addr \<Rightarrow> u64 \<Rightarrow> auto_ban \<Rightarrow> bool \<times> auto_ban" where
  "impose key now_ms b =
     (let expiry = saturating_add now_ms (duration_ms (ab_ban (ab_settings b)));
          full = (\<lambda>b. fcard (fmdom (ab_bans b)) \<ge> ab_max_bans (ab_settings b));
          tight = key |\<notin>| fmdom (ab_bans b) \<and> full b;
          b = (if tight then snd (sweep_at now_ms b) else b)
      in if tight \<and> full b then (False, b\<lparr>ab_bans_refused_full := ab_bans_refused_full b + 1\<rparr>)
         else
           let b = (if key |\<in>| fmdom (ab_bans b) then b else b\<lparr>ab_active := ab_active b + 1\<rparr>)
           in (True, b\<lparr>ab_bans := fmupd key expiry (ab_bans b), ab_bans_total := ab_bans_total b + 1\<rparr>))"

fun threshold_of :: "auto_ban_settings \<Rightarrow> offence \<Rightarrow> u32" where
  "threshold_of s AuthFailure = ab_auth_failures s"
| "threshold_of s RateLimited = ab_rate_limit_violations s"
| "threshold_of s CredentialLookup = ab_credential_lookups s"

fun slot :: "offence \<Rightarrow> offence_counter \<Rightarrow> u32" where
  "slot AuthFailure c = oc_auth c"
| "slot RateLimited c = oc_rate_limited c"
| "slot CredentialLookup c = oc_lookups c"

fun bump_slot :: "offence \<Rightarrow> offence_counter \<Rightarrow> offence_counter" where
  "bump_slot AuthFailure c = c\<lparr>oc_auth := saturating_add (oc_auth c) 1\<rparr>"
| "bump_slot RateLimited c = c\<lparr>oc_rate_limited := saturating_add (oc_rate_limited c) 1\<rparr>"
| "bump_slot CredentialLookup c = c\<lparr>oc_lookups := saturating_add (oc_lookups c) 1\<rparr>"

definition fresh_counter :: "u64 \<Rightarrow> offence_counter" where
  "fresh_counter now_ms =
     \<lparr> oc_window_start_ms = now_ms, oc_last_ms = now_ms, oc_auth = 0, oc_rate_limited = 0, oc_lookups = 0 \<rparr>"

text \<open>The counter after one more offence: the window restarts when it is over.\<close>

definition counted :: "u64 \<Rightarrow> u64 \<Rightarrow> offence \<Rightarrow> offence_counter option \<Rightarrow> offence_counter" where
  "counted now_ms window_ms off c =
     (let c = (case c of None \<Rightarrow> fresh_counter now_ms | Some c \<Rightarrow> c);
          c = (if saturating_sub now_ms (oc_window_start_ms c) \<ge> window_ms
               then c\<lparr>oc_window_start_ms := now_ms, oc_auth := 0, oc_rate_limited := 0, oc_lookups := 0\<rparr> else c)
      in bump_slot off (c\<lparr>oc_last_ms := now_ms\<rparr>))"

definition record_at ::
  "ip_addr list \<Rightarrow> ip_addr \<Rightarrow> offence \<Rightarrow> u64 \<Rightarrow> auto_ban \<Rightarrow> ban_event option \<times> auto_ban" where
  "record_at order ip off now_ms b =
     (let ip = unmap ip; threshold = threshold_of (ab_settings b) off in
      if threshold = 0 \<or> allowlisted b ip then (None, b)
      else if is_banned_at b ip now_ms then (None, b)
      else
        let key = ab_key b ip;
            b = (if key |\<notin>| fmdom (ab_counters b) \<and> fcard (fmdom (ab_counters b)) \<ge> ab_max_tracked (ab_settings b)
                 then evict_idlest_counter order b else b);
            c = counted now_ms (duration_ms (ab_window (ab_settings b))) off (fmlookup (ab_counters b) key);
            b = b\<lparr>ab_counters := fmupd key c (ab_counters b)\<rparr>
        in if slot off c < threshold then (None, b)
           else
             let (imposed, b) = impose key now_ms (b\<lparr>ab_counters := fmdrop key (ab_counters b)\<rparr>)
             in (if imposed
                 then Some \<lparr> be_key = key, be_offence = off, be_count = slot off c,
                             be_duration = ab_ban (ab_settings b), be_prefix_scope = ab_prefix_scope (ab_settings b) \<rparr>
                 else None, b))"

definition ab_record :: "ip_addr list \<Rightarrow> instant \<Rightarrow> ip_addr \<Rightarrow> offence \<Rightarrow> auto_ban \<Rightarrow> ban_event option \<times> auto_ban" where
  "ab_record order now ip off b = record_at order ip off (ab_now_ms b now) b"

section \<open>Every ban is earned\<close>

definition scope_key :: "auto_ban_settings \<Rightarrow> ip_addr \<Rightarrow> ip_addr" where
  "scope_key s ip = (if ab_prefix_scope s then aggregation_prefix (unmap ip) else unmap ip)"

definition spared :: "auto_ban_settings \<Rightarrow> ip_addr \<Rightarrow> bool" where
  "spared s ip \<longleftrightarrow> (\<exists>c \<in> set (parse_ranges (ab_allowlist s)). Cidr_contains c (unmap ip))"

text \<open>The offences of one kind in a history that count against a key from time \<open>w\<close> to time \<open>t\<close>.\<close>

definition offences ::
  "auto_ban_settings \<Rightarrow> ip_addr \<Rightarrow> offence \<Rightarrow> u64 \<Rightarrow> u64 \<Rightarrow> (u64 \<times> ip_addr \<times> offence) list \<Rightarrow> nat" where
  "offences s key off w t h =
     length (filter (\<lambda>(u, ip, x). x = off \<and> scope_key s ip = key \<and> \<not> spared s ip \<and> w \<le> u \<and> u \<le> t) h)"

text \<open>A ban that ends at \<open>expiry\<close>: the threshold was reached within one window that ended when the ban began.\<close>

definition earned :: "auto_ban_settings \<Rightarrow> (u64 \<times> ip_addr \<times> offence) list \<Rightarrow> ip_addr \<Rightarrow> u64 \<Rightarrow> bool" where
  "earned s h key expiry \<longleftrightarrow>
     (\<exists>t off w. expiry = saturating_add t (duration_ms (ab_ban s)) \<and> threshold_of s off \<noteq> 0 \<and> w \<le> t
        \<and> (w = t \<or> t - w < duration_ms (ab_window s)) \<and> unat (threshold_of s off) \<le> offences s key off w t h)"

inductive ab_run :: "auto_ban_settings \<Rightarrow> (u64 \<times> ip_addr \<times> offence) list \<Rightarrow> u64 \<Rightarrow> auto_ban \<Rightarrow> bool" for s where
  ar_new: "ab_run s [] 0 (AutoBan_new now s)"
| ar_record: "ab_run s h t b \<Longrightarrow> t \<le> t' \<Longrightarrow> set order = fset (fmdom (ab_counters b)) \<Longrightarrow>
     ab_run s (h @ [(t', ip, off)]) t' (snd (record_at order ip off t' b))"
| ar_sweep: "ab_run s h t b \<Longrightarrow> t \<le> t' \<Longrightarrow> ab_run s h t' (snd (sweep_at t' b))"

definition counter_ok ::
  "auto_ban_settings \<Rightarrow> (u64 \<times> ip_addr \<times> offence) list \<Rightarrow> u64 \<Rightarrow> ip_addr \<Rightarrow> offence_counter \<Rightarrow> bool" where
  "counter_ok s h t k c \<longleftrightarrow>
     oc_window_start_ms c \<le> t \<and> (\<forall>off. unat (slot off c) \<le> offences s k off (oc_window_start_ms c) t h)"

definition ab_inv :: "auto_ban_settings \<Rightarrow> (u64 \<times> ip_addr \<times> offence) list \<Rightarrow> u64 \<Rightarrow> auto_ban \<Rightarrow> bool" where
  "ab_inv s h t b \<longleftrightarrow>
     ab_settings b = s \<and> ab_allow b = parse_ranges (ab_allowlist s) \<and> (\<forall>e \<in> set h. fst e \<le> t)
     \<and> (\<forall>k c. fmlookup (ab_counters b) k = Some c \<longrightarrow> counter_ok s h t k c)
     \<and> (\<forall>k e. fmlookup (ab_bans b) k = Some e \<longrightarrow> earned s h k e)
     \<and> ab_active b = of_nat (fcard (fmdom (ab_bans b)))
     \<and> fcard (fmdom (ab_bans b)) \<le> ab_max_bans s \<and> fcard (fmdom (ab_counters b)) \<le> max 1 (ab_max_tracked s)"

lemma offences_mono:
  assumes "\<forall>e \<in> set h. fst e \<le> t" "t \<le> t'"
  shows "offences s k off w t h \<le> offences s k off w t' (h @ h')"
proof -
  have "filter (\<lambda>(u, ip, x). x = off \<and> scope_key s ip = k \<and> \<not> spared s ip \<and> w \<le> u \<and> u \<le> t) h
      = filter (\<lambda>(u, ip, x). x = off \<and> scope_key s ip = k \<and> \<not> spared s ip \<and> w \<le> u \<and> u \<le> t') h"
    using assms by (intro filter_cong) auto
  then show ?thesis by (simp add: offences_def)
qed

lemma offences_append: "offences s k off w t h \<le> offences s k off w t (h @ h')"
  by (simp add: offences_def)

lemma offences_snoc:
  "scope_key s ip = k \<Longrightarrow> \<not> spared s ip \<Longrightarrow> w \<le> t \<Longrightarrow>
   offences s k off w t (h @ [(t, ip, off)]) = Suc (offences s k off w t h)"
  by (simp add: offences_def)

lemma earned_append: "earned s h k e \<Longrightarrow> earned s (h @ h') k e"
  unfolding earned_def by (elim exE conjE) (intro exI conjI, assumption+, rule order_trans [OF _ offences_append])

lemma counter_ok_later:
  "counter_ok s h t k c \<Longrightarrow> \<forall>e \<in> set h. fst e \<le> t \<Longrightarrow> t \<le> t' \<Longrightarrow> counter_ok s (h @ h') t' k c"
  unfolding counter_ok_def by (meson offences_mono order_trans)

lemma ab_inv_event: "ab_inv s h t b \<Longrightarrow> t \<le> t' \<Longrightarrow> \<forall>e \<in> set h'. fst e \<le> t' \<Longrightarrow> ab_inv s (h @ h') t' b"
  unfolding ab_inv_def using counter_ok_later [of s h t _ _ t' h']
  by (auto intro: order_trans earned_append)

lemma ab_inv_later: "ab_inv s h t b \<Longrightarrow> t \<le> t' \<Longrightarrow> ab_inv s h t' b"
  using ab_inv_event [of s h t b t' "[]"] by simp

text \<open>Dropping counters and bans keeps the invariant.\<close>

lemma ab_inv_fewer:
  assumes "ab_inv s h t b" "fmdom (ab_counters b') |\<subseteq>| fmdom (ab_counters b)" "fmdom (ab_bans b') |\<subseteq>| fmdom (ab_bans b)"
    and "\<And>k x. fmlookup (ab_counters b') k = Some x \<Longrightarrow> fmlookup (ab_counters b) k = Some x"
    and "\<And>k x. fmlookup (ab_bans b') k = Some x \<Longrightarrow> fmlookup (ab_bans b) k = Some x"
    and "ab_active b' = of_nat (fcard (fmdom (ab_bans b')))" "ab_settings b' = ab_settings b" "ab_allow b' = ab_allow b"
  shows "ab_inv s h t b'"
proof -
  have "fcard (fmdom (ab_counters b')) \<le> fcard (fmdom (ab_counters b))" "fcard (fmdom (ab_bans b')) \<le> fcard (fmdom (ab_bans b))"
    using assms(2,3) by (simp_all add: fcard_mono)
  then show ?thesis using assms(1,4-8) unfolding ab_inv_def by auto
qed

lemma fmfilter_lookup: "fmlookup (fmfilter P m) k = Some x \<Longrightarrow> fmlookup m k = Some x"
  by (auto split: if_splits)

lemma fmfilter_dom: "fmdom (fmfilter P m) |\<subseteq>| fmdom m"
  by (auto simp: fmdom_filter)

lemma sweep_fields:
  assumes inv: "ab_inv s h t b"
  shows "ab_bans (snd (sweep_at now b)) = live_bans now (ab_bans b)"
    "ab_active (snd (sweep_at now b)) = of_nat (fcard (fmdom (live_bans now (ab_bans b))))"
    "ab_settings (snd (sweep_at now b)) = ab_settings b" "ab_allow (snd (sweep_at now b)) = ab_allow b"
    "\<exists>P. ab_counters (snd (sweep_at now b)) = fmfilter P (ab_counters b)"
proof -
  let ?d = "live_bans now (ab_bans b)"
  have sub: "fmdom ?d |\<subseteq>| fmdom (ab_bans b)" unfolding live_bans_def by (rule fmfilter_dom)
  have card: "fcard (fmdom (ab_bans b) |-| fmdom ?d) = fcard (fmdom (ab_bans b)) - fcard (fmdom ?d)"
    using sub by (rule fcard_funion_fsubset)
  have act: "ab_active b - of_nat (fcard (fmdom (ab_bans b) |-| fmdom ?d)) = of_nat (fcard (fmdom ?d))"
    using inv fcard_mono [OF sub] unfolding card by (simp add: ab_inv_def of_nat_diff)
  then have same: "ab_active b = of_nat (fcard (fmdom ?d))" if "fmdom (ab_bans b) |-| fmdom ?d = {||}"
    unfolding that by (simp add: fcard.rep_eq)
  show "ab_active (snd (sweep_at now b)) = of_nat (fcard (fmdom ?d))"
    using act same by (simp add: sweep_at_def Let_def)
  show "\<exists>P. ab_counters (snd (sweep_at now b)) = fmfilter P (ab_counters b)"
    by (rule exI [of _ "\<lambda>k. case fmlookup (ab_counters b) k of
          Some c \<Rightarrow> saturating_sub now (oc_window_start_ms c) < duration_ms (ab_window (ab_settings b)) | None \<Rightarrow> False"])
      (simp add: sweep_at_def Let_def)
qed (simp_all add: sweep_at_def Let_def)

lemma sweep_inv: "ab_inv s h t b \<Longrightarrow> ab_inv s h t (snd (sweep_at now b))"
proof -
  assume inv: "ab_inv s h t b"
  obtain P where P: "ab_counters (snd (sweep_at now b)) = fmfilter P (ab_counters b)" using sweep_fields(5) [OF inv] by blast
  show ?thesis
    by (rule ab_inv_fewer [OF inv]; unfold sweep_fields(1-4) [OF inv] P live_bans_def)
      (auto intro: fmfilter_dom split: if_splits)
qed

lemma evict_inv: "ab_inv s h t b \<Longrightarrow> ab_inv s h t (evict_idlest_counter order b)"
  by (rule ab_inv_fewer [of s h t b])
    (auto simp: evict_idlest_counter_def ab_inv_def split: option.splits if_splits prod.splits)

lemma impose_inv:
  assumes inv: "ab_inv s h t b" and e: "earned s h key (saturating_add t (duration_ms (ab_ban s)))"
  shows "ab_inv s h t (snd (impose key t b))"
proof -
  define b1 where "b1 = (if key |\<notin>| fmdom (ab_bans b) \<and> fcard (fmdom (ab_bans b)) \<ge> ab_max_bans s
    then snd (sweep_at t b) else b)"
  have inv1: "ab_inv s h t b1" using inv sweep_inv by (simp add: b1_def)
  have st: "ab_settings b = s" "ab_settings b1 = s" using inv inv1 by (auto simp: ab_inv_def)
  show ?thesis
  proof (cases "key |\<notin>| fmdom (ab_bans b) \<and> fcard (fmdom (ab_bans b)) \<ge> ab_max_bans s \<and> fcard (fmdom (ab_bans b1)) \<ge> ab_max_bans s")
    case True
    then have "snd (impose key t b) = b1\<lparr>ab_bans_refused_full := ab_bans_refused_full b1 + 1\<rparr>"
      using st by (auto simp: impose_def Let_def b1_def split: if_splits)
    then show ?thesis using inv1 by (auto simp: ab_inv_def)
  next
    case False
    then have b': "snd (impose key t b) =
        (if key |\<in>| fmdom (ab_bans b1) then b1 else b1\<lparr>ab_active := ab_active b1 + 1\<rparr>)
          \<lparr>ab_bans := fmupd key (saturating_add t (duration_ms (ab_ban s))) (ab_bans b1), ab_bans_total := ab_bans_total b1 + 1\<rparr>"
      using st by (auto simp: impose_def Let_def b1_def)
    have room: "fcard (fmdom (ab_bans b1)) < ab_max_bans s" if "key |\<notin>| fmdom (ab_bans b1)"
    proof (cases "key |\<notin>| fmdom (ab_bans b) \<and> fcard (fmdom (ab_bans b)) \<ge> ab_max_bans s")
      case True
      then show ?thesis using False by simp
    next
      case False
      then show ?thesis using that by (simp add: b1_def not_le split: if_splits)
    qed
    have card: "fcard (finsert key (fmdom (ab_bans b1))) =
        (if key |\<in>| fmdom (ab_bans b1) then fcard (fmdom (ab_bans b1)) else Suc (fcard (fmdom (ab_bans b1))))"
      by (cases "key |\<in>| fmdom (ab_bans b1)") (simp_all add: finsert_absorb fcard_finsert_disjoint)
    show ?thesis
      using inv1 e room unfolding b' ab_inv_def
      by (cases "key |\<in>| fmdom (ab_bans b1)") (auto simp: card)
  qed
qed

lemma counted_ok:
  assumes "\<forall>c. co = Some c \<longrightarrow> counter_ok s h t key c" "\<forall>e \<in> set h. fst e \<le> t" "t \<le> now"
    and "scope_key s ip = key" "\<not> spared s ip"
  shows "counter_ok s (h @ [(now, ip, off)]) now key (counted now w off co)"
    "oc_window_start_ms (counted now w off co) = now \<or> now - oc_window_start_ms (counted now w off co) < w"
proof -
  let ?c = "case co of None \<Rightarrow> fresh_counter now | Some c \<Rightarrow> c"
  let ?h = "h @ [(now, ip, off)]"
  have start: "oc_window_start_ms (bump_slot off (c\<lparr>oc_last_ms := now\<rparr>)) = oc_window_start_ms c" for c
    by (cases off) simp_all
  have sat: "unat (saturating_add a 1) \<le> Suc (unat a)" for a :: u32
    using unat_saturating_add_le [of a 1] by simp
  have slots: "unat (slot x (bump_slot off (c\<lparr>oc_last_ms := now\<rparr>))) \<le> (if x = off then Suc (unat (slot x c)) else unat (slot x c))" for x c
    by (cases off; cases x) (simp_all add: sat)
  have keep: "counter_ok s ?h now key (bump_slot off (c\<lparr>oc_last_ms := now\<rparr>))" if ok: "counter_ok s h now key c" for c
    unfolding counter_ok_def start
  proof (intro conjI allI)
    show "oc_window_start_ms c \<le> now" using ok by (simp add: counter_ok_def)
    fix x
    have "unat (slot x c) \<le> offences s key x (oc_window_start_ms c) now h" using ok by (simp add: counter_ok_def)
    moreover have "offences s key x (oc_window_start_ms c) now ?h =
        (if x = off then Suc (offences s key x (oc_window_start_ms c) now h) else offences s key x (oc_window_start_ms c) now h)"
      using ok assms(4,5) by (auto simp: offences_snoc counter_ok_def) (simp add: offences_def)
    ultimately show "unat (slot x (bump_slot off (c\<lparr>oc_last_ms := now\<rparr>))) \<le> offences s key x (oc_window_start_ms c) now ?h"
      using slots [of x c] by (simp split: if_splits)
  qed
  have zero: "counter_ok s h now key c" if "\<And>x. slot x c = 0" "oc_window_start_ms c = now" for c
    using that by (simp add: counter_ok_def)
  have empty: "slot x (fresh_counter now) = 0"
    "slot x (c\<lparr>oc_window_start_ms := now, oc_auth := 0, oc_rate_limited := 0, oc_lookups := 0\<rparr>) = 0" for x c
    by (cases x; simp add: fresh_counter_def)+
  have old: "counter_ok s h now key c" if "co = Some c" for c
    using counter_ok_later [of s h t key c now "[]"] assms(1-3) that by simp
  have c: "counter_ok s h now key ?c"
    using old zero [of "fresh_counter now"] empty(1) by (cases co) (auto simp: fresh_counter_def)
  let ?d = "if saturating_sub now (oc_window_start_ms ?c) \<ge> w
      then ?c\<lparr>oc_window_start_ms := now, oc_auth := 0, oc_rate_limited := 0, oc_lookups := 0\<rparr> else ?c"
  have "counter_ok s h now key ?d"
    using c zero [of "?c\<lparr>oc_window_start_ms := now, oc_auth := 0, oc_rate_limited := 0, oc_lookups := 0\<rparr>"]
      empty(2) by auto
  from keep [OF this] show "counter_ok s ?h now key (counted now w off co)" by (simp add: counted_def Let_def)
  have "oc_window_start_ms ?c \<le> now" using c by (simp add: counter_ok_def)
  then show "oc_window_start_ms (counted now w off co) = now \<or> now - oc_window_start_ms (counted now w off co) < w"
    by (simp add: counted_def Let_def start saturating_sub_def not_le)
qed

lemma idlest_counter_Some:
  assumes "set order = fset (fmdom m)" "fmdom m \<noteq> {||}"
  shows "\<exists>k x. idlest_counter m order = Some (k, x) \<and> k |\<in>| fmdom m"
proof -
  let ?f = "\<lambda>k victim. case fmlookup m k of None \<Rightarrow> victim
       | Some c \<Rightarrow> (case victim of None \<Rightarrow> Some (k, oc_last_ms c)
            | Some (_, best) \<Rightarrow> if oc_last_ms c < best then Some (k, oc_last_ms c) else victim)"
  have keep: "\<exists>k x. fold ?f ks v = Some (k, x) \<and> k |\<in>| fmdom m"
    if "\<exists>k x. v = Some (k, x) \<and> k |\<in>| fmdom m" for ks v
    using that by (induction ks arbitrary: v) (auto split: option.splits dest: fmdomI)
  obtain k ks where o: "order = k # ks" using assms by (cases order) auto
  have k: "k |\<in>| fmdom m" using assms(1) o by (metis list.set_intros(1))
  then obtain c where c: "fmlookup m k = Some c" by blast
  have t: "take COUNTER_SAMPLE order = k # take 7 ks" by (simp add: o rust_const)
  show ?thesis unfolding idlest_counter_def t fold_simps by (rule keep) (simp add: c k)
qed

lemma record_inv:
  assumes inv: "ab_inv s h t b" and le: "t \<le> now" and ord: "set order = fset (fmdom (ab_counters b))"
  shows "ab_inv s (h @ [(now, ip, off)]) now (snd (record_at order ip off now b))"
proof -
  let ?h = "h @ [(now, ip, off)]" and ?key = "ab_key b (unmap ip)"
  have st: "ab_settings b = s" "ab_allow b = parse_ranges (ab_allowlist s)" and past: "\<forall>e \<in> set h. fst e \<le> t"
    using inv by (auto simp: ab_inv_def)
  have same: "ab_inv s ?h now b" using ab_inv_event [OF inv le] by simp
  show ?thesis
  proof (cases "threshold_of s off = 0 \<or> allowlisted b (unmap ip) \<or> is_banned_at b (unmap ip) now")
    case True
    then show ?thesis using same st(1) by (auto simp: record_at_def Let_def)
  next
    case False
    define b1 where "b1 = (if ?key |\<notin>| fmdom (ab_counters b) \<and> fcard (fmdom (ab_counters b)) \<ge> ab_max_tracked s
      then evict_idlest_counter order b else b)"
    define c where "c = counted now (duration_ms (ab_window s)) off (fmlookup (ab_counters b1) ?key)"
    have inv1: "ab_inv s h t b1" using inv evict_inv by (simp add: b1_def)
    have st1: "ab_settings b1 = s" using inv1 by (auto simp: ab_inv_def)
    have key: "scope_key s ip = ?key" "\<not> spared s ip"
      using False st by (auto simp: scope_key_def ab_key_def spared_def allowlisted_def)
    have "\<forall>c. fmlookup (ab_counters b1) ?key = Some c \<longrightarrow> counter_ok s h t ?key c" using inv1 by (simp add: ab_inv_def)
    note cnt = counted_ok [OF this past le key, where off = off and w = "duration_ms (ab_window s)", folded c_def]
    have room: "fcard (finsert ?key (fmdom (ab_counters b1))) \<le> max 1 (ab_max_tracked s)"
    proof (cases "?key |\<in>| fmdom (ab_counters b1)")
      case True
      then show ?thesis using inv1 by (simp add: finsert_absorb ab_inv_def)
    next
      case absent: False
      show ?thesis
      proof (cases "?key |\<notin>| fmdom (ab_counters b) \<and> fcard (fmdom (ab_counters b)) \<ge> ab_max_tracked s")
        case False
        then show ?thesis using absent by (auto simp: b1_def fcard_finsert_disjoint split: if_splits)
      next
        case True
        show ?thesis
        proof (cases "fmdom (ab_counters b) = {||}")
          case True
          then have "fmdom (ab_counters b1) = {||}"
            by (auto simp: b1_def evict_idlest_counter_def split: option.splits)
          then show ?thesis by (simp add: fcard_finsert_disjoint fcard.rep_eq)
        next
          case ne: False
          from idlest_counter_Some [OF ord ne] obtain k x where k: "idlest_counter (ab_counters b) order = Some (k, x)"
            "k |\<in>| fmdom (ab_counters b)" by blast
          then have "fmdom (ab_counters b1) = fmdom (ab_counters b) |-| {|k|}"
            using True by (simp add: b1_def evict_idlest_counter_def)
          then have "Suc (fcard (fmdom (ab_counters b1))) = fcard (fmdom (ab_counters b))"
            using fcard_Suc_fminus1 [OF k(2)] by simp
          then show ?thesis using absent inv by (simp add: fcard_finsert_disjoint ab_inv_def)
        qed
      qed
    qed
    let ?b2 = "b1\<lparr>ab_counters := fmupd ?key c (ab_counters b1)\<rparr>"
    have later: "ab_inv s ?h now b1" using ab_inv_event [OF inv1 le] by simp
    have inv2: "ab_inv s ?h now ?b2" using later cnt(1) room unfolding ab_inv_def by auto
    have rec: "snd (record_at order ip off now b) =
        (if slot off c < threshold_of s off then ?b2
         else snd (impose ?key now (?b2\<lparr>ab_counters := fmdrop ?key (ab_counters ?b2)\<rparr>)))"
      using False st(1) st1 by (auto simp: record_at_def Let_def b1_def [symmetric] c_def split_beta)
    show ?thesis
    proof (cases "slot off c < threshold_of s off")
      case True
      then show ?thesis using inv2 rec by simp
    next
      case reached: False
      have "ab_inv s ?h now (?b2\<lparr>ab_counters := fmdrop ?key (ab_counters ?b2)\<rparr>)"
        by (rule ab_inv_fewer [OF inv2]) (use inv2 in \<open>auto simp: ab_inv_def split: if_splits\<close>)
      moreover have "earned s ?h ?key (saturating_add now (duration_ms (ab_ban s)))"
      proof -
        have "unat (threshold_of s off) \<le> unat (slot off c)" using reached by (simp add: word_less_nat_alt)
        also have "\<dots> \<le> offences s ?key off (oc_window_start_ms c) now ?h" using cnt(1) by (simp add: counter_ok_def)
        finally show ?thesis using False cnt by (auto simp: earned_def counter_ok_def)
      qed
      ultimately show ?thesis using rec reached impose_inv by simp
    qed
  qed
qed

lemma ab_run_inv: "ab_run s h t b \<Longrightarrow> ab_inv s h t b"
proof (induction rule: ab_run.induct)
  case (ar_new now)
  then show ?case by (simp add: ab_inv_def AutoBan_new_def fcard.rep_eq)
next
  case (ar_record h t b t' order ip off)
  show ?case by (rule record_inv [OF ar_record.IH ar_record.hyps(2,3)])
next
  case (ar_sweep h t b t')
  show ?case by (rule sweep_inv [OF ab_inv_later [OF ar_sweep.IH ar_sweep.hyps(2)]])
qed

text \<open>
  C22. No source is banned without evidence: whenever a source is dropped, it is not on the allowlist, and within one window offences of
  one kind from its address (or prefix) had reached that kind's threshold, at a time the ban has not yet outlived; the shortcut of
  the per-packet check changes no answer, and the two tables stay within their caps.
\<close>

theorem auto_ban_sound:
  assumes "ab_run s h t b" "ab_max_bans s < 2 ^ 64"
  shows "is_banned b now ip = is_banned_at b ip (ab_now_ms b now)
    \<and> fcard (fmdom (ab_bans b)) \<le> ab_max_bans s \<and> fcard (fmdom (ab_counters b)) \<le> max 1 (ab_max_tracked s)
    \<and> (is_banned b now ip \<longrightarrow> \<not> spared s ip
         \<and> (\<exists>expiry. earned s h (scope_key s ip) expiry \<and> ab_now_ms b now < expiry))"
proof -
  have inv: "ab_inv s h t b" using assms(1) by (rule ab_run_inv)
  have st: "ab_settings b = s" "ab_allow b = parse_ranges (ab_allowlist s)"
    and bans: "\<And>k e. fmlookup (ab_bans b) k = Some e \<Longrightarrow> earned s h k e"
    and caps: "fcard (fmdom (ab_bans b)) \<le> ab_max_bans s" "fcard (fmdom (ab_counters b)) \<le> max 1 (ab_max_tracked s)"
    and act: "ab_active b = of_nat (fcard (fmdom (ab_bans b)))" using inv unfolding ab_inv_def by blast+
  have none: "fmlookup (ab_bans b) k = None" if z: "ab_active b = 0" for k
  proof -
    have "fcard (fmdom (ab_bans b)) < 2 ^ 64" using caps(1) assms(2) by simp
    then have "unat (ab_active b) = fcard (fmdom (ab_bans b))" unfolding act by (simp add: unat_of_nat)
    then have "fcard (fmdom (ab_bans b)) = 0" using z by simp
    then have "fmdom (ab_bans b) = {||}" by (simp add: fcard_0_eq)
    then show ?thesis by (intro fmdom_notD) simp
  qed
  have fast: "is_banned b now ip = is_banned_at b ip (ab_now_ms b now)"
    by (simp add: is_banned_def is_banned_at_def none)
  have key: "ab_key b (unmap ip) = scope_key s ip" by (simp add: ab_key_def scope_key_def st)
  have "\<not> spared s ip \<and> (\<exists>expiry. earned s h (scope_key s ip) expiry \<and> ab_now_ms b now < expiry)"
    if banned: "is_banned_at b ip (ab_now_ms b now)"
  proof -
    obtain expiry where e: "fmlookup (ab_bans b) (scope_key s ip) = Some expiry" "ab_now_ms b now < expiry"
      using banned key by (auto simp: is_banned_at_def Let_def split: option.splits)
    obtain t off w where "threshold_of s off \<noteq> 0" "unat (threshold_of s off) \<le> offences s (scope_key s ip) off w t h"
      using bans [OF e(1)] by (auto simp: earned_def)
    then have "0 < offences s (scope_key s ip) off w t h" by (meson less_le_trans unat_gt_0)
    then obtain ip' where i: "scope_key s ip' = scope_key s ip" "\<not> spared s ip'"
      by (auto simp: offences_def filter_empty_conv)
    have "\<not> spared s ip"
    proof (cases "ab_prefix_scope s")
      case True
      then show ?thesis using banned st by (auto simp: is_banned_at_def Let_def spared_def allowlisted_def)
    next
      case False
      then show ?thesis using i by (simp add: scope_key_def spared_def)
    qed
    then show ?thesis using bans e by blast
  qed
  then show ?thesis using fast caps by simp
qed

definition sample_ban_settings :: auto_ban_settings where
  "sample_ban_settings = \<lparr> ab_auth_failures = 1, ab_rate_limit_violations = 0, ab_credential_lookups = 0,
     ab_window = from_secs 60, ab_ban = from_secs 600, ab_prefix_scope = False, ab_allowlist = [],
     ab_max_tracked = 16, ab_max_bans = 4 \<rparr>"

definition sample_banned :: auto_ban where
  "sample_banned = snd (record_at [] (IpV4 9) AuthFailure 10 (AutoBan_new 0 sample_ban_settings))"

lemma sample_banned_eq:
  "sample_banned = (AutoBan_new 0 sample_ban_settings)\<lparr>ab_bans := fmupd (IpV4 9) 600010 fmempty, ab_active := 1, ab_bans_total := 1\<rparr>"
  by (simp add: sample_banned_def record_at_def AutoBan_new_def sample_ban_settings_def allowlisted_def parse_ranges_def
      List.map_filter_def is_banned_at_def ab_key_def counted_def fresh_counter_def impose_def Let_def duration_ms_def from_secs_def
      saturating_sub_def saturating_add_def fcard.rep_eq fmdrop_fmupd)

theorem auto_ban_sound_witness:
  "is_banned sample_banned (30 * 10 ^ 6) (IpV4 9)
   \<and> (\<exists>expiry. earned sample_ban_settings [(10, IpV4 9, AuthFailure)] (IpV4 9) expiry \<and> 30 < expiry)"
proof -
  have run: "ab_run sample_ban_settings ([] @ [(10, IpV4 9, AuthFailure)]) 10 sample_banned"
    unfolding sample_banned_def by (intro ar_record [of _ _ 0] ar_new) (simp_all add: AutoBan_new_def)
  have now: "ab_now_ms sample_banned (30 * 10 ^ 6) = 30"
    by (simp add: ab_now_ms_def sample_banned_eq AutoBan_new_def duration_ms_def)
  have key: "scope_key sample_ban_settings (IpV4 9) = IpV4 9" by (simp add: scope_key_def sample_ban_settings_def)
  have "is_banned sample_banned (30 * 10 ^ 6) (IpV4 9)"
    unfolding is_banned_def now
    by (simp add: sample_banned_eq is_banned_at_def ab_key_def AutoBan_new_def sample_ban_settings_def)
  then show ?thesis
    using auto_ban_sound [OF run, of "30 * 10 ^ 6" "IpV4 9"] now key by (simp add: sample_ban_settings_def)
qed

end
