(* ===== verification/Hash_Ring.thy ===== *)
theory Hash_Ring
  imports Utf8 Net "HOL-Library.List_Lexorder" "HOL-Library.Char_ord" "HOL-Library.Product_Lexorder"
begin

text \<open>
  Rendezvous hashing of clients to cluster nodes (\<^verbatim>\<open>crates/cluster/src/hash_ring.rs\<close>). The hash function of the \<^verbatim>\<open>xxhash\<close> crate is a
  parameter and nothing is assumed about it; strings compare by their bytes. The lemmas show that every node with
  the same membership picks the same owner and that a change of the membership moves no client that it does not have to.
\<close>

section \<open>The ring\<close>

record cluster_node =
  cn_node_id :: string
  cn_turn_addr :: socket_addr

record hash_ring =
  hr_nodes :: "cluster_node list"

fun dedup_by_id :: "cluster_node list \<Rightarrow> cluster_node list" where
  "dedup_by_id [] = []"
| "dedup_by_id [x] = [x]"
| "dedup_by_id (x # y # ys) =
     (if cn_node_id x = cn_node_id y then dedup_by_id (x # ys) else x # dedup_by_id (y # ys))"

definition HashRing_new :: "cluster_node list \<Rightarrow> hash_ring" where
  "HashRing_new nodes = \<lparr> hr_nodes = dedup_by_id (sort_key cn_node_id nodes) \<rparr>"

definition hrw_score :: "(bytes \<Rightarrow> u64) \<Rightarrow> string \<Rightarrow> string \<Rightarrow> u64" where
  "hrw_score xxh node_id key = xxh (as_bytes node_id @ [0x1F] @ as_bytes key)"

text \<open>\<^verbatim>\<open>Iterator::max_by\<close> returns the last of several maximal elements.\<close>

fun max_by_key :: "('a \<Rightarrow> 'b::linorder) \<Rightarrow> 'a list \<Rightarrow> 'a option" where
  "max_by_key f [] = None"
| "max_by_key f (x # xs) = Some (fold (\<lambda>y best. if f best > f y then best else y) xs x)"

definition hrw_rank :: "(bytes \<Rightarrow> u64) \<Rightarrow> string \<Rightarrow> cluster_node \<Rightarrow> u64 \<times> string" where
  "hrw_rank xxh key n = (hrw_score xxh (cn_node_id n) key, cn_node_id n)"

definition get_node :: "(bytes \<Rightarrow> u64) \<Rightarrow> hash_ring \<Rightarrow> string \<Rightarrow> cluster_node option" where
  "get_node xxh ring key = (if hr_nodes ring = [] then None else max_by_key (hrw_rank xxh key) (hr_nodes ring))"

definition update_nodes :: "cluster_node list \<Rightarrow> hash_ring \<Rightarrow> hash_ring" where
  "update_nodes new_nodes ring = HashRing_new new_nodes"

definition get_node_excluding :: "(bytes \<Rightarrow> u64) \<Rightarrow> hash_ring \<Rightarrow> string \<Rightarrow> string \<Rightarrow> cluster_node option" where
  "get_node_excluding xxh ring key exclude_id =
     max_by_key (hrw_rank xxh key) (filter (\<lambda>n. cn_node_id n \<noteq> exclude_id) (hr_nodes ring))"

section \<open>Ownership\<close>

lemma fold_max:
  "let m = fold (\<lambda>y best. if f best > f y then best else y) xs x
   in m \<in> insert x (set xs) \<and> (\<forall>y \<in> insert x (set xs). f y \<le> (f m :: 'b::linorder))"
proof (induction xs arbitrary: x)
  case (Cons y ys)
  from Cons.IH [of "if f x > f y then x else y"] show ?case by (auto simp: Let_def not_less split: if_splits)
qed simp

lemma max_by_key_max:
  "max_by_key f xs = Some m \<Longrightarrow> m \<in> set xs \<and> (\<forall>y \<in> set xs. f y \<le> f m)"
  using fold_max [of f] by (cases xs) (auto simp: Let_def)

lemma max_by_key_None: "max_by_key f xs = None \<longleftrightarrow> xs = []"
  by (cases xs) auto

lemma max_by_key_unique:
  assumes "inj_on f (set xs)" "m \<in> set xs" "\<And>y. y \<in> set xs \<Longrightarrow> f y \<le> f m"
  shows "max_by_key f xs = Some m"
proof -
  obtain m' where m': "max_by_key f xs = Some m'" using assms(2) max_by_key_None [of f xs] by (cases "max_by_key f xs") auto
  with max_by_key_max [OF m'] assms have "f m' = f m" by (intro antisym) auto
  then show ?thesis using m' max_by_key_max [OF m'] assms(1,2) by (auto dest: inj_onD)
qed

lemma dedup_set: "set (dedup_by_id xs) \<subseteq> set xs \<and> cn_node_id ` set (dedup_by_id xs) = cn_node_id ` set xs"
  by (induction xs rule: dedup_by_id.induct) auto

lemma dedup_distinct: "sorted (map cn_node_id xs) \<Longrightarrow> distinct (map cn_node_id (dedup_by_id xs))"
proof (induction xs rule: dedup_by_id.induct)
  case (3 x y ys)
  show ?case
  proof (cases "cn_node_id x = cn_node_id y")
    case True
    then show ?thesis using 3 by auto
  next
    case False
    have "cn_node_id x \<notin> cn_node_id ` set (y # ys)" using False "3.prems" by force
    then have "cn_node_id x \<notin> cn_node_id ` set (dedup_by_id (y # ys))" using dedup_set [of "y # ys"] by simp
    then show ?thesis using 3 False by auto
  qed
qed auto

lemma dedup_filter:
  assumes P: "\<And>a b. cn_node_id a = cn_node_id b \<Longrightarrow> P a = P b" and "sorted (map cn_node_id xs)"
  shows "filter P (dedup_by_id xs) = dedup_by_id (filter P xs)"
  using assms(2)
proof (induction xs rule: dedup_by_id.induct)
  case (3 x y ys)
  show ?case
  proof (cases "cn_node_id x = cn_node_id y")
    case True
    then show ?thesis using 3 P [OF True] by (cases "P y") auto
  next
    case False
    have new: "\<forall>z \<in> set (y # ys). cn_node_id z \<noteq> cn_node_id x" using False "3.prems" by force
    have skip: "dedup_by_id (x # zs) = x # dedup_by_id zs" if "\<forall>z \<in> set zs. cn_node_id z \<noteq> cn_node_id x" for zs
      using that by (cases zs) auto
    have "dedup_by_id (x # filter P (y # ys)) = x # dedup_by_id (filter P (y # ys))" using new by (intro skip) auto
    moreover have "filter P (dedup_by_id (y # ys)) = dedup_by_id (filter P (y # ys))" using 3 False by simp
    ultimately show ?thesis using False by (cases "P x") simp_all
  qed
qed auto

lemma ring_ids: "distinct (map cn_node_id (hr_nodes (HashRing_new nodes)))"
  unfolding HashRing_new_def hash_ring.simps by (rule dedup_distinct) simp

lemma ring_rank_inj: "inj_on (hrw_rank xxh key) (set (hr_nodes (HashRing_new nodes)))"
  using ring_ids [of nodes] by (auto simp: hrw_rank_def inj_on_def distinct_map)

lemma ring_without:
  "hr_nodes (HashRing_new (filter (\<lambda>n. cn_node_id n \<noteq> i) nodes)) = filter (\<lambda>n. cn_node_id n \<noteq> i) (hr_nodes (HashRing_new nodes))"
  by (simp add: HashRing_new_def filter_sort [symmetric] dedup_filter)

lemma ring_set: "inj_on cn_node_id (set nodes) \<Longrightarrow> set (hr_nodes (HashRing_new nodes)) = set nodes"
proof -
  assume inj: "inj_on cn_node_id (set nodes)"
  have "set (hr_nodes (HashRing_new nodes)) \<subseteq> set nodes" "cn_node_id ` set (hr_nodes (HashRing_new nodes)) = cn_node_id ` set nodes"
    using dedup_set [of "sort_key cn_node_id nodes"] by (simp_all add: HashRing_new_def)
  then show ?thesis using inj by (metis inj_on_image_eq_iff order_refl)
qed

lemma get_node_Some:
  "get_node xxh (HashRing_new nodes) key = Some m \<longleftrightarrow>
     m \<in> set (hr_nodes (HashRing_new nodes)) \<and> (\<forall>y \<in> set (hr_nodes (HashRing_new nodes)). hrw_rank xxh key y \<le> hrw_rank xxh key m)"
  using max_by_key_unique [OF ring_rank_inj [of xxh key nodes], of m] max_by_key_max [of "hrw_rank xxh key"]
  by (auto simp: get_node_def)

text \<open>
  C26. The owner of a client is well defined and moves as little as possible: every node with the same membership, in whatever order it
  learned it, names the same owner; taking a node out leaves the clients of all others where they were; and draining a node gives its
  clients exactly the owners they will have once it is gone.
\<close>

theorem rendezvous_stable:
  assumes "inj_on cn_node_id (set nodes)" "set nodes' = set nodes"
  shows "get_node xxh (HashRing_new nodes') key = get_node xxh (HashRing_new nodes) key
    \<and> (\<forall>own. get_node xxh (HashRing_new nodes) key = Some own \<longrightarrow> own \<in> set nodes
          \<and> (cn_node_id own \<noteq> i \<longrightarrow> get_node xxh (HashRing_new (filter (\<lambda>n. cn_node_id n \<noteq> i) nodes)) key = Some own))
    \<and> get_node_excluding xxh (HashRing_new nodes) key i
        = get_node xxh (HashRing_new (filter (\<lambda>n. cn_node_id n \<noteq> i) nodes)) key"
proof (intro conjI allI impI)
  have "get_node xxh (HashRing_new nodes') key = Some x \<longleftrightarrow> get_node xxh (HashRing_new nodes) key = Some x" for x
    using assms by (simp add: get_node_Some ring_set)
  then show "get_node xxh (HashRing_new nodes') key = get_node xxh (HashRing_new nodes) key" by (metis option.exhaust)
next
  fix own
  assume own: "get_node xxh (HashRing_new nodes) key = Some own"
  then show "own \<in> set nodes" using assms(1) by (simp add: get_node_Some ring_set)
  show "get_node xxh (HashRing_new (filter (\<lambda>n. cn_node_id n \<noteq> i) nodes)) key = Some own" if "cn_node_id own \<noteq> i"
    using own that by (simp add: get_node_Some ring_without)
next
  show "get_node_excluding xxh (HashRing_new nodes) key i
      = get_node xxh (HashRing_new (filter (\<lambda>n. cn_node_id n \<noteq> i) nodes)) key"
    unfolding get_node_excluding_def get_node_def ring_without by (simp add: max_by_key_None)
qed

theorem rendezvous_stable_witness:
  "\<exists>own. get_node (\<lambda>b. of_nat (length b)) (HashRing_new [\<lparr> cn_node_id = ''ab'', cn_turn_addr = SockV4 1 3478 \<rparr>,
        \<lparr> cn_node_id = ''c'', cn_turn_addr = SockV4 2 3478 \<rparr>]) ''k'' = Some own
     \<and> get_node (\<lambda>b. of_nat (length b)) (HashRing_new [\<lparr> cn_node_id = ''ab'', cn_turn_addr = SockV4 1 3478 \<rparr>]) ''k'' = Some own"
proof -
  let ?a = "\<lparr> cn_node_id = ''ab'', cn_turn_addr = SockV4 1 3478 \<rparr>" and ?c = "\<lparr> cn_node_id = ''c'', cn_turn_addr = SockV4 2 3478 \<rparr>"
  let ?h = "\<lambda>b :: bytes. of_nat (length b) :: u64"
  have inj: "inj_on cn_node_id (set [?a, ?c])" by simp
  have rank: "hrw_rank ?h ''k'' ?c \<le> hrw_rank ?h ''k'' ?a" by (simp add: hrw_rank_def hrw_score_def less_eq_prod_def)
  have "get_node ?h (HashRing_new [?a, ?c]) ''k'' = Some ?a"
    using rank unfolding get_node_Some ring_set [OF inj] by simp
  moreover have "filter (\<lambda>n. cn_node_id n \<noteq> ''c'') [?a, ?c] = [?a]" by simp
  ultimately show ?thesis using rendezvous_stable [OF inj refl, of ?h "''k''" "''c''"] by auto
qed

end
