(* ===== verification/Turn_Proto.thy ===== *)
theory Turn_Proto
  imports Stun_Message
begin

text \<open>
  TURN constants and message builders (\<^verbatim>\<open>proto-turn/src/lib.rs\<close>). The builders that call
  \<^verbatim>\<open>StunMessage::new\<close> take the transaction id it draws as an argument. The lemmas show that every
  message the server builds for a client survives the wire.
\<close>

definition TRANSPORT_UDP :: u8 where [rust_const]: "TRANSPORT_UDP = 17"
definition TRANSPORT_TCP :: u8 where [rust_const]: "TRANSPORT_TCP = 6"
definition TRANSPORT_SCTP :: u8 where [rust_const]: "TRANSPORT_SCTP = 132"
definition DEFAULT_LIFETIME :: u32 where [rust_const]: "DEFAULT_LIFETIME = 600"
definition MAX_LIFETIME :: u32 where [rust_const]: "MAX_LIFETIME = 3600"
definition CHANNEL_MIN :: u16 where [rust_const]: "CHANNEL_MIN = 0x4000"
definition CHANNEL_MAX :: u16 where [rust_const]: "CHANNEL_MAX = 0x7FFE"

definition is_valid_channel :: "u16 \<Rightarrow> bool" where
  "is_valid_channel ch \<longleftrightarrow> CHANNEL_MIN \<le> ch \<and> ch \<le> CHANNEL_MAX"

definition build_allocate_request :: "bytes \<Rightarrow> string \<Rightarrow> string \<Rightarrow> string \<Rightarrow> stun_message" where
  "build_allocate_request rand_tid username realm nonce =
     (let msg = StunMessage_new M_Allocate Request rand_tid;
          msg = sm_add msg (RequestedTransport TRANSPORT_UDP);
          msg = sm_add msg (Username username);
          msg = sm_add msg (Realm realm)
      in sm_add msg (Nonce nonce))"

definition build_allocate_response :: "bytes \<Rightarrow> socket_addr \<Rightarrow> socket_addr \<Rightarrow> u32 \<Rightarrow> stun_message" where
  "build_allocate_response tid relayed_addr mapped_addr lifetime =
     (let msg = with_transaction_id M_Allocate SuccessResponse tid;
          msg = sm_add msg (XorRelayedAddress relayed_addr);
          msg = sm_add msg (XorMappedAddress mapped_addr)
      in sm_add msg (Lifetime lifetime))"

definition build_create_permission_request ::
  "bytes \<Rightarrow> socket_addr \<Rightarrow> string \<Rightarrow> string \<Rightarrow> string \<Rightarrow> stun_message" where
  "build_create_permission_request rand_tid peer_addr username realm nonce =
     (let msg = StunMessage_new M_CreatePermission Request rand_tid;
          msg = sm_add msg (XorPeerAddress peer_addr);
          msg = sm_add msg (Username username);
          msg = sm_add msg (Realm realm)
      in sm_add msg (Nonce nonce))"

definition build_channel_bind_request ::
  "bytes \<Rightarrow> u16 \<Rightarrow> socket_addr \<Rightarrow> string \<Rightarrow> string \<Rightarrow> string \<Rightarrow> stun_message" where
  "build_channel_bind_request rand_tid channel peer_addr username realm nonce =
     (let msg = StunMessage_new M_ChannelBind Request rand_tid;
          msg = sm_add msg (ChannelNumber channel);
          msg = sm_add msg (XorPeerAddress peer_addr);
          msg = sm_add msg (Username username);
          msg = sm_add msg (Realm realm)
      in sm_add msg (Nonce nonce))"

definition build_connection_attempt :: "bytes \<Rightarrow> u32 \<Rightarrow> socket_addr \<Rightarrow> stun_message" where
  "build_connection_attempt rand_tid connection_id peer_addr =
     (let msg = StunMessage_new M_ConnectionAttempt Indication rand_tid;
          msg = sm_add msg (ConnectionId connection_id)
      in sm_add msg (XorPeerAddress peer_addr))"

definition build_success_response :: "stun_method \<Rightarrow> bytes \<Rightarrow> stun_message" where
  "build_success_response m tid = with_transaction_id m SuccessResponse tid"

definition build_error_response :: "stun_method \<Rightarrow> bytes \<Rightarrow> u16 \<Rightarrow> string \<Rightarrow> stun_message" where
  "build_error_response m tid code reason =
     sm_add (with_transaction_id m ErrorResponse tid) (ErrorCode code reason)"

definition build_redirect_response ::
  "stun_method \<Rightarrow> bytes \<Rightarrow> socket_addr \<Rightarrow> socket_addr \<Rightarrow> stun_message" where
  "build_redirect_response m tid alternate_addr src =
     sm_add (build_error_response m tid 300 ''Try Alternate'') (AlternateServer alternate_addr)"

definition build_auth_challenge :: "stun_method \<Rightarrow> bytes \<Rightarrow> string \<Rightarrow> string \<Rightarrow> stun_message" where
  "build_auth_challenge m tid realm nonce =
     (let msg = build_error_response m tid 401 ''Unauthorized'';
          msg = sm_add msg (Realm realm);
          msg = sm_add msg (Nonce nonce);
          algos = foldl (\<lambda>acc algo. acc @ be16 algo @ be16 0) []
                    [PASSWORD_ALGORITHM_MD5, PASSWORD_ALGORITHM_SHA256]
      in sm_add msg (Unknown ATTR_PASSWORD_ALGORITHMS algos))"

definition build_oauth_challenge ::
  "stun_method \<Rightarrow> bytes \<Rightarrow> string \<Rightarrow> string \<Rightarrow> bytes \<Rightarrow> stun_message" where
  "build_oauth_challenge m tid realm nonce as_identity =
     sm_add (build_auth_challenge m tid realm nonce) (ThirdPartyAuthorization as_identity)"

section \<open>The builders' messages survive the wire\<close>

lemmas builder_defs =
  build_success_response_def build_error_response_def build_redirect_response_def
  build_auth_challenge_def build_oauth_challenge_def build_allocate_response_def
  build_connection_attempt_def sm_add_def with_transaction_id_def StunMessage_new_def

text \<open>
  \<open>survives msg\<close>: some buffer of 20 + 4096 bytes suffices, and decoding what was written returns
  the message.
\<close>

definition survives :: "stun_message \<Rightarrow> bool" where
  "survives msg \<longleftrightarrow>
     (case StunMessage_encode msg (replicate (HEADER_SIZE + ATTR_BUF_SIZE) 0) of
        Ok (n, buf) \<Rightarrow> StunMessage_decode (take n buf) = Ok msg
      | _ \<Rightarrow> False)"

lemma survives_intro:
  assumes "length (sm_transaction_id msg) = 12"
    and "\<forall>a \<in> set (sm_attributes msg). plain_attr a \<and> fits_attr (sm_transaction_id msg) a"
    and "length (sm_attributes msg) \<le> 32"
    and "length (wires (sm_transaction_id msg) (sm_attributes msg)) \<le> 4096"
  shows "survives msg"
proof -
  let ?tid = "sm_transaction_id msg"
  let ?w = "wires ?tid (sm_attributes msg)"
  have f: "filter plain_attr (sm_attributes msg) = sm_attributes msg"
    using assms(2) by (simp add: filter_id_conv)
  have "StunMessage_decode (message_wire msg) = Ok msg"
    using StunMessage_decode_wire [of "sm_attributes msg" ?tid ?w "sm_method msg" "sm_class msg" "[]"]
      assms by (simp add: f wires_def message_wire_def Let_def rust_const)
  moreover have "StunMessage_encode msg (replicate (HEADER_SIZE + ATTR_BUF_SIZE) 0) =
     Ok (length (message_wire msg), message_wire msg
           @ drop (length (message_wire msg)) (replicate (HEADER_SIZE + ATTR_BUF_SIZE) 0))"
    using assms by (intro StunMessage_encode_eq) (simp_all add: message_wire_def Let_def rust_const)
  ultimately show ?thesis by (simp add: survives_def)
qed

lemma length_wires_le:
  "length (wires tid as) \<le> (\<Sum>a\<leftarrow>as. length (value_bytes a tid) + 7)"
proof (induction as)
  case (Cons a as)
  then show ?case
    using pad4_bounds(2) [of "length (value_bytes a tid)"] by (simp add: length_attr_wire)
qed simp

lemma length_xor_address_bytes: "length (xor_address_bytes a tid) \<le> 20"
  by (cases a) (simp_all add: octets6_def)

lemma length_address_bytes: "length (address_bytes a) \<le> 20"
  by (cases a) (simp_all add: octets4_def octets6_def)

lemma survives_bound:
  assumes "length (sm_transaction_id msg) = 12"
    and "\<forall>a \<in> set (sm_attributes msg). plain_attr a \<and> fits_attr (sm_transaction_id msg) a"
    and "length (sm_attributes msg) \<le> 32"
    and "(\<Sum>a\<leftarrow>sm_attributes msg. length (value_bytes a (sm_transaction_id msg)) + 7) \<le> 4096"
  shows "survives msg"
  using assms length_wires_le [of "sm_transaction_id msg" "sm_attributes msg"]
  by (intro survives_intro) simp_all

text \<open>
  Every response the server builds reaches the client intact: success, error, redirect, Allocate
  success and both 401 challenges (realm, nonce, reason and authorization-server identity of at most
  763 bytes each, the texts valid UTF-8) encode, and decode to the very message that was built.
\<close>

theorem responses_survive:
  assumes "length tid = 12" and "plain_addr relayed" and "plain_addr mapped"
    and "is_string realm" "length realm \<le> 763" "is_string nonce" "length nonce \<le> 763"
    and "length identity \<le> 763" and "unat code < 25600" "is_string reason" "length reason \<le> 763"
  shows "survives (build_success_response m tid)
    \<and> survives (build_error_response m tid code reason)
    \<and> survives (build_redirect_response m tid mapped src)
    \<and> survives (build_allocate_response tid relayed mapped lifetime)
    \<and> survives (build_auth_challenge m tid realm nonce)
    \<and> survives (build_oauth_challenge m tid realm nonce identity)"
proof -
  have "is_string ''Try Alternate''" "is_string ''Unauthorized''" by code_simp+
  with assms length_xor_address_bytes [of relayed tid] length_xor_address_bytes [of mapped tid]
    length_address_bytes [of mapped]
  show ?thesis
    by (intro conjI survives_bound)
       (simp_all add: builder_defs fits_attr_def plain_attr_def unread_value_def typed_codes_def
          rust_const Let_def)
qed

theorem responses_survive_witness:
  "survives (build_auth_challenge M_Allocate (replicate 12 9) ''example.org'' ''n0'')"
proof -
  have "is_string ''example.org''" "is_string ''n0''" "is_string ''x''" by code_simp+
  then show ?thesis
    using responses_survive [of "replicate 12 9" "SockV4 0 1" "SockV4 0 1" "''example.org''" "''n0''"
        "[]" 400 "''x''"] by simp
qed

end
