(* ===== verification/Processor.thy ===== *)
theory Processor
  imports Store_Refinement Nonce Migration_Token Udp_Transactions Auth_Credentials Auto_Ban Hash_Ring Turn_Proto
begin

text \<open>
  The packet processor (\<^verbatim>\<open>crates/relay/src/processor.rs\<close>): the actions it returns for a packet and the state it leaves. The state is the record
  \<open>processor\<close> with a field for each field of the code but metrics and RTP statistics, which decide nothing; of the metrics only the
  drain flag is read. What a call takes from outside is the record \<open>readings\<close>: clock readings, one field per part of the code that reads
  a clock, the outcomes of binding sockets, random tokens and the order in which tables are sampled. Functions of other crates are the record
  \<open>libs\<close>. A handler returns \<open>Panic\<close> where the code would panic and \<open>Err Diverges\<close> where the port search
  would not end.
\<close>

section \<open>Actions and state\<close>

datatype action =
    Send bytes socket_addr
  | Forward bytes socket_addr u16
  | ForwardZeroCopy nat nat socket_addr u16 \<comment> \<open>offset, length, target, relay port\<close>
  | SendViaRelay bytes socket_addr u16
  | RegisterRelay u16 relay_family socket_addr string \<comment> \<open>port, family of the bound socket, client, allocation id\<close>
  | RegisterTcpListener u16 relay_family socket_addr bytes
  | CloseRelay u16
  | AwaitCredentials waiter
  | NoAction

datatype proc_error = Diverges

type_synonym acts = "(proc_error, action list) res"

record libs =
  lb_crypto :: crypto
  lb_crc32 :: "bytes \<Rightarrow> u32"
  lb_xxh64 :: "bytes \<Rightarrow> u64"
  lb_hash_addr :: "socket_addr \<Rightarrow> u64"

record cluster_routing =
  cl_local_node_id :: string
  cl_hash_ring :: hash_ring
  cl_draining :: bool

definition ClusterRouting_new :: "string \<Rightarrow> hash_ring \<Rightarrow> cluster_routing" where
  "ClusterRouting_new local_node_id ring = \<lparr> cl_local_node_id = local_node_id, cl_hash_ring = ring, cl_draining = False \<rparr>"

definition begin_drain :: "cluster_routing \<Rightarrow> cluster_routing" where
  "begin_drain r = r\<lparr>cl_draining := True\<rparr>"

definition end_drain :: "cluster_routing \<Rightarrow> cluster_routing" where
  "end_drain r = r\<lparr>cl_draining := False\<rparr>"

definition cluster_members :: "cluster_routing \<Rightarrow> cluster_node list" where
  "cluster_members r = hr_nodes (cl_hash_ring r)"

record processor =
  px_udp_transactions :: "utx_cache list"
  px_store :: allocation_store
  px_auth :: auth_registry
  px_auth_globals :: auth_globals
  px_rate_limiter :: tiered_limiter
  px_trusted_limiter :: "tiered_limiter option"
  px_trusted_prefixes :: "cidr list"
  px_auto_ban :: "auto_ban option"
  px_bandwidth_cap :: "byte_limiter option"
  px_require_binding_auth :: bool
  px_webhook_lookup_limiter :: "tiered_limiter option"
  px_unauth_reply_limiter :: tiered_limiter
  px_external_ip :: ip_addr
  px_external_ip6 :: "u128 option"
  px_nonce_mgr :: nonce_manager
  px_mtu :: u16
  px_cluster :: "cluster_routing option"
  px_migration :: "migration_manager option"
  px_tcp_relay :: "bool option" \<comment> \<open>of the TCP relay manager: IPv6 enabled\<close>
  px_is_draining :: bool
  px_software :: "string option"
  px_zerocopy :: bool
  px_peer_env :: bool
  px_peer_policy :: "peer_policy option"

record readings =
  rd_arrival :: instant
  rd_orders :: bucket_orders
  rd_counters :: "ip_addr list"
  rd_nonce :: instant
  rd_issue :: instant
  rd_auth :: auth_clock
  rd_cache :: "instant \<times> instant" \<comment> \<open>before the lookup, at the insertion\<close>
  rd_store :: "nat \<Rightarrow> instant" \<comment> \<open>of the \<open>i\<close>-th operation on the store\<close>
  rd_epoch_ms :: "nat \<Rightarrow> u64"
  rd_created_ms :: u64
  rd_capacity :: instant
  rd_ticket_secs :: "nat \<Rightarrow> u64"
  rd_bind :: "nat \<Rightarrow> relay_family \<Rightarrow> u16 \<Rightarrow> bool" \<comment> \<open>attempt, family, port\<close>
  rd_bind_tcp :: "relay_family \<Rightarrow> u16 \<Rightarrow> bool"
  rd_token :: "nat \<Rightarrow> bytes"

definition UnauthReplyBudget_new :: "instant \<Rightarrow> tiered_limiter" where
  "UnauthReplyBudget_new now = TieredRateLimiter_new now
     \<lparr> tl_per_ip = (64, 8), tl_per_prefix = (512, 64), tl_allocate = (64, 8),
       tl_create_permission = (64, 8), tl_channel_bind = (64, 8) \<rparr>"

definition nonce_cookie_for :: "auth_registry \<Rightarrow> bool \<Rightarrow> string option" where
  "nonce_cookie_for auth advertise =
     (if \<not> advertise then None
      else if \<not> all_realms_support_userhash auth then None
      else Some USERHASH_NONCE_COOKIE)"

text \<open>The deprecated overrides of the limits from the environment.\<close>

definition env_pair :: "(string \<Rightarrow> string option) \<Rightarrow> string \<Rightarrow> string \<Rightarrow> u32 \<times> u32 \<Rightarrow> u32 \<times> u32" where
  "env_pair env bkey rkey pair =
     (let get = (\<lambda>key old. case Option.bind (env key) (parse_radix 10 (2 ^ 32)) of Some v \<Rightarrow> of_nat v | None \<Rightarrow> old)
      in (get bkey (fst pair), get rkey (snd pair)))"

definition env_overrides :: "(string \<Rightarrow> string option) \<Rightarrow> tiered_limits \<Rightarrow> tiered_limits" where
  "env_overrides env base =
     \<lparr> tl_per_ip = env_pair env ''TURNA_RATE_LIMIT_BURST'' ''TURNA_RATE_LIMIT_RPS'' (tl_per_ip base),
       tl_per_prefix = env_pair env ''TURNA_PREFIX_BURST'' ''TURNA_PREFIX_RPS'' (tl_per_prefix base),
       tl_allocate = env_pair env ''TURNA_ALLOCATE_BURST'' ''TURNA_ALLOCATE_RPS'' (tl_allocate base),
       tl_create_permission = env_pair env ''TURNA_CREATE_PERM_BURST'' ''TURNA_CREATE_PERM_RPS'' (tl_create_permission base),
       tl_channel_bind = env_pair env ''TURNA_CHANNEL_BIND_BURST'' ''TURNA_CHANNEL_BIND_RPS'' (tl_channel_bind base) \<rparr>"

record rate_limit_settings =
  rs_default :: tiered_limits
  rs_trusted :: tiered_limits
  rs_trusted_prefixes :: "string list"
  rs_auto_ban :: "auto_ban option"
  rs_bandwidth_cap :: "byte_limiter option"
  rs_require_binding_auth :: bool
  rs_webhook_lookup_limiter :: "tiered_limiter option"

definition with_rate_limits :: "(string \<Rightarrow> string option) \<Rightarrow> instant \<Rightarrow> rate_limit_settings \<Rightarrow> processor \<Rightarrow> processor" where
  "with_rate_limits env now settings p =
     (let prefixes = parse_ranges (rs_trusted_prefixes settings)
      in p\<lparr>px_rate_limiter := TieredRateLimiter_new now (env_overrides env (rs_default settings)),
           px_trusted_prefixes := prefixes,
           px_trusted_limiter := (if prefixes = [] then None else Some (TieredRateLimiter_new now (rs_trusted settings))),
           px_auto_ban := rs_auto_ban settings,
           px_bandwidth_cap := rs_bandwidth_cap settings,
           px_require_binding_auth := rs_require_binding_auth settings,
           px_webhook_lookup_limiter := rs_webhook_lookup_limiter settings\<rparr>)"

definition PacketProcessor_with_mtu_and_cluster ::
  "(string \<Rightarrow> string option) \<Rightarrow> instant \<Rightarrow> bytes \<Rightarrow> bool \<Rightarrow> allocation_store \<Rightarrow> auth_registry \<Rightarrow> auth_globals \<Rightarrow> ip_addr \<Rightarrow> u16
     \<Rightarrow> cluster_routing option \<Rightarrow> bool \<Rightarrow> string option \<Rightarrow> bool \<Rightarrow> bool \<Rightarrow> peer_policy option \<Rightarrow> processor" where
  "PacketProcessor_with_mtu_and_cluster env now random_key advertise store auth globals external_ip mtu cluster
      is_draining software zerocopy peer_env peer_policy =
     \<lparr> px_udp_transactions = UdpTransactions_new, px_store = store, px_auth = auth, px_auth_globals = globals,
       px_rate_limiter = TieredRateLimiter_new now (env_overrides env TieredLimits_default),
       px_trusted_limiter = None, px_trusted_prefixes = [], px_auto_ban = None, px_bandwidth_cap = None,
       px_require_binding_auth = False, px_webhook_lookup_limiter = None,
       px_unauth_reply_limiter = UnauthReplyBudget_new now, px_external_ip = external_ip, px_external_ip6 = None,
       px_nonce_mgr = NonceManager_with_cookie random_key now (nonce_cookie_for auth advertise), px_mtu = mtu,
       px_cluster = cluster, px_migration = None, px_tcp_relay = None, px_is_draining = is_draining,
       px_software = software, px_zerocopy = zerocopy, px_peer_env = peer_env, px_peer_policy = peer_policy \<rparr>"

definition with_unauth_reply_budget :: "tiered_limiter \<Rightarrow> processor \<Rightarrow> processor" where
  "with_unauth_reply_budget budget p = p\<lparr>px_unauth_reply_limiter := budget\<rparr>"

definition with_migration :: "migration_manager option \<Rightarrow> processor \<Rightarrow> processor" where
  "with_migration migration p = p\<lparr>px_migration := migration\<rparr>"

definition with_tcp_relay :: "bool option \<Rightarrow> processor \<Rightarrow> processor" where
  "with_tcp_relay tcp_relay p = p\<lparr>px_tcp_relay := tcp_relay\<rparr>"

definition with_external_ip6 :: "u128 option \<Rightarrow> processor \<Rightarrow> processor" where
  "with_external_ip6 ip6 p = p\<lparr>px_external_ip6 := ip6\<rparr>"

definition cleanup_rate_limiter :: "u64 \<Rightarrow> instant \<Rightarrow> processor \<Rightarrow> processor" where
  "cleanup_rate_limiter max_age_ms now p =
     p\<lparr>px_rate_limiter := tiered_cleanup max_age_ms now (px_rate_limiter p),
       px_trusted_limiter := map_option (tiered_cleanup max_age_ms now) (px_trusted_limiter p)\<rparr>"

section \<open>Limits, bans, budgets\<close>

definition within_capacity :: "readings \<Rightarrow> nat \<Rightarrow> processor \<Rightarrow> bool \<times> processor" where
  "within_capacity rd len p =
     (case px_bandwidth_cap p of
        None \<Rightarrow> (True, p)
      | Some cap \<Rightarrow>
          let (ok, cap) = try_consume (of_nat len) (rd_capacity rd) cap in (ok, p\<lparr>px_bandwidth_cap := Some cap\<rparr>))"

definition note_offence :: "readings \<Rightarrow> socket_addr \<Rightarrow> offence \<Rightarrow> processor \<Rightarrow> processor" where
  "note_offence rd src off p =
     (case px_auto_ban p of
        None \<Rightarrow> p
      | Some ban \<Rightarrow>
          p\<lparr>px_auto_ban := Some (snd (ab_record (rd_counters rd) (rd_arrival rd) (sock_ip src) off ban))\<rparr>)"

definition note_rate_limited :: "readings \<Rightarrow> socket_addr \<Rightarrow> processor \<Rightarrow> processor" where
  "note_rate_limited rd src p = note_offence rd src RateLimited p"

definition note_auth_failure :: "readings \<Rightarrow> socket_addr \<Rightarrow> auth_error \<Rightarrow> processor \<Rightarrow> processor" where
  "note_auth_failure rd src e p = (if e \<noteq> auth_error.Expired then note_offence rd src AuthFailure p else p)"

definition admit_lookup :: "readings \<Rightarrow> socket_addr \<Rightarrow> processor \<Rightarrow> bool \<times> processor" where
  "admit_lookup rd src p =
     (case px_webhook_lookup_limiter p of
        None \<Rightarrow> (True, p)
      | Some l \<Rightarrow>
          let (ok, l) = check_ingress (rd_orders rd) (rd_arrival rd) (sock_ip src) l
          in (ok, p\<lparr>px_webhook_lookup_limiter := Some l\<rparr>))"

definition banned :: "readings \<Rightarrow> socket_addr \<Rightarrow> processor \<Rightarrow> bool" where
  "banned rd src p = (case px_auto_ban p of None \<Rightarrow> False | Some ban \<Rightarrow> is_banned ban (rd_arrival rd) (sock_ip src))"

text \<open>One question to the limiter that governs a source.\<close>

definition limiter_for ::
  "ip_addr \<Rightarrow> (tiered_limiter \<Rightarrow> bool \<times> tiered_limiter) \<Rightarrow> processor \<Rightarrow> bool \<times> processor" where
  "limiter_for ip check p =
     (case px_trusted_limiter p of
        Some trusted \<Rightarrow>
          if list_ex (\<lambda>c. Cidr_contains c ip) (px_trusted_prefixes p)
          then let (ok, l) = check trusted in (ok, p\<lparr>px_trusted_limiter := Some l\<rparr>)
          else let (ok, l) = check (px_rate_limiter p) in (ok, p\<lparr>px_rate_limiter := l\<rparr>)
      | None \<Rightarrow> let (ok, l) = check (px_rate_limiter p) in (ok, p\<lparr>px_rate_limiter := l\<rparr>))"

definition ask_limiter ::
  "(bucket_orders \<Rightarrow> instant \<Rightarrow> ip_addr \<Rightarrow> tiered_limiter \<Rightarrow> bool \<times> tiered_limiter) \<Rightarrow> readings \<Rightarrow> socket_addr
     \<Rightarrow> processor \<Rightarrow> bool \<times> processor" where
  "ask_limiter check rd src p = limiter_for (sock_ip src) (check (rd_orders rd) (rd_arrival rd) (sock_ip src)) p"

definition allow_unauth_reply :: "readings \<Rightarrow> socket_addr \<Rightarrow> processor \<Rightarrow> bool \<times> processor" where
  "allow_unauth_reply rd src p =
     (let (ok, l) = check_ingress_ip (rd_orders rd) (rd_arrival rd) (sock_ip src) (px_unauth_reply_limiter p)
      in (ok, p\<lparr>px_unauth_reply_limiter := l\<rparr>))"

section \<open>Responses\<close>

text \<open>An encoded response as the action that sends it, between other actions; nothing where it did not encode.\<close>

definition sent_among :: "action list \<Rightarrow> action list \<Rightarrow> (nat \<times> bytes) stun_res \<Rightarrow> socket_addr \<Rightarrow> acts" where
  "sent_among before after r dst =
     (case r of
        Ok (len, buf) \<Rightarrow> Ok (before @ [Send (take len buf) dst] @ after)
      | Err _ \<Rightarrow> Ok [NoAction]
      | Panic \<Rightarrow> Panic)"

definition sent :: "(nat \<times> bytes) stun_res \<Rightarrow> socket_addr \<Rightarrow> acts" where
  "sent r dst = sent_among [] [] r dst"

definition encode_plain :: "nat \<Rightarrow> stun_message \<Rightarrow> (nat \<times> bytes) stun_res" where
  "encode_plain cap resp = StunMessage_encode resp (replicate cap 0)"

definition encode_with_integrity_auto ::
  "libs \<Rightarrow> nat \<Rightarrow> stun_message \<Rightarrow> bytes \<Rightarrow> stun_message \<Rightarrow> (nat \<times> bytes) stun_res" where
  "encode_with_integrity_auto L cap resp key req =
     (if get_message_integrity_sha256 req \<noteq> None
      then encode_with_integrity_sha256 (c_hmac_sha256 (lb_crypto L)) (lb_crc32 L) resp (replicate cap 0) key
      else encode_with_integrity (c_hmac_sha1 (lb_crypto L)) (lb_crc32 L) resp (replicate cap 0) key)"

definition encode_error :: "stun_message \<Rightarrow> socket_addr \<Rightarrow> u16 \<Rightarrow> string \<Rightarrow> acts" where
  "encode_error msg dst code reason =
     sent (encode_plain 512 (build_error_response (sm_method msg) (sm_transaction_id msg) code reason)) dst"

definition encode_auth_challenge :: "libs \<Rightarrow> readings \<Rightarrow> stun_message \<Rightarrow> socket_addr \<Rightarrow> processor \<Rightarrow> acts \<times> processor" where
  "encode_auth_challenge L rd msg dst p =
     (let (ok, p) = allow_unauth_reply rd dst p
      in if \<not> ok then (Ok [NoAction], p)
         else
           let realm = default_realm (px_auth p);
               nonce = nm_issue (lb_crypto L) (px_nonce_mgr p) (rd_issue rd) dst;
               resp = (case base_oauth_identity (px_auth p) of
                         Some as_id \<Rightarrow> build_oauth_challenge (sm_method msg) (sm_transaction_id msg) realm nonce (as_bytes as_id)
                       | None \<Rightarrow> build_auth_challenge (sm_method msg) (sm_transaction_id msg) realm nonce)
           in (sent (encode_plain 512 resp) dst, p))"

definition encode_stale_nonce :: "libs \<Rightarrow> readings \<Rightarrow> stun_message \<Rightarrow> socket_addr \<Rightarrow> processor \<Rightarrow> acts" where
  "encode_stale_nonce L rd msg dst p =
     (let resp = build_error_response (sm_method msg) (sm_transaction_id msg) 438 ''Stale Nonce'';
          resp = sm_add resp (Realm (default_realm (px_auth p)));
          resp = sm_add resp (Nonce (nm_issue (lb_crypto L) (px_nonce_mgr p) (rd_issue rd) dst))
      in sent (encode_plain 512 resp) dst)"

definition validate_nonce :: "libs \<Rightarrow> readings \<Rightarrow> stun_message \<Rightarrow> socket_addr \<Rightarrow> processor \<Rightarrow> acts option \<times> processor" where
  "validate_nonce L rd msg dst p =
     (case get_nonce msg of
        Some nonce \<Rightarrow>
          (case nm_validate (lb_crypto L) (px_nonce_mgr p) (rd_nonce rd) dst nonce of
             NonceValid \<Rightarrow> (None, p)
           | NonceStale \<Rightarrow> (Some (encode_stale_nonce L rd msg dst p), p))
      | None \<Rightarrow> let (a, p) = encode_auth_challenge L rd msg dst p in (Some a, p))"

section \<open>Authentication\<close>

text \<open>
  The lookup budget is charged only when the credential webhook asks for it, and it asks exactly when a
  refusal would show as \<^const>\<open>AuthThrottled\<close>.
\<close>

definition auth_validate ::
  "libs \<Rightarrow> readings \<Rightarrow> stun_message \<Rightarrow> bytes \<Rightarrow> socket_addr \<Rightarrow> bool \<Rightarrow> processor \<Rightarrow> auth_resolution auth_res \<times> processor" where
  "auth_validate L rd msg raw src allow_fetch p =
     (let validate = (\<lambda>fetch p. validate_opts (lb_crypto L) msg raw fetch (rd_auth rd) (px_auth_globals p) (px_auth p));
          (fetch, p) =
            (if \<not> allow_fetch then (FetchNever, p)
             else if fst (validate (FetchAdmit False) p) = Err AuthThrottled
             then let (admit, p) = admit_lookup rd src p in (FetchAdmit admit, p)
             else (FetchAdmit True, p));
          (r, g, reg) = validate fetch p
      in (r, p\<lparr>px_auth_globals := g, px_auth := reg\<rparr>))"

definition auth_deferred ::
  "readings \<Rightarrow> auth_error \<Rightarrow> stun_message \<Rightarrow> socket_addr \<Rightarrow> processor \<Rightarrow> acts option \<times> processor" where
  "auth_deferred rd e msg src p =
     (case e of
        AuthPending wait \<Rightarrow>
          (Some (Ok [AwaitCredentials wait]),
           if wt_started wait then note_offence rd src CredentialLookup p else p)
      | AuthThrottled \<Rightarrow> (Some (encode_error msg src 500 ''Server Error''), note_offence rd src CredentialLookup p)
      | AuthUnavailable \<Rightarrow> (Some (encode_error msg src 500 ''Server Error''), p)
      | _ \<Rightarrow> (None, p))"

text \<open>The prefix every authenticated handler begins with: an answer that ends it, or who the client is.\<close>

definition authenticate ::
  "libs \<Rightarrow> readings \<Rightarrow> stun_message \<Rightarrow> bytes \<Rightarrow> socket_addr \<Rightarrow> processor \<Rightarrow> (acts + auth_resolution) \<times> processor" where
  "authenticate L rd msg raw src p =
     (if \<not> has_user_identity msg then (let (a, p) = encode_auth_challenge L rd msg src p in (Inl a, p))
      else
        case validate_nonce L rd msg src p of
          (Some stale, p) \<Rightarrow> (Inl stale, p)
        | (None, p) \<Rightarrow>
            (case auth_validate L rd msg raw src True p of
               (Ok r, p) \<Rightarrow> (Inr r, p)
             | (Panic, p) \<Rightarrow> (Inl Panic, p)
             | (Err e, p) \<Rightarrow>
                 (case auth_deferred rd e msg src p of
                    (Some a, p) \<Rightarrow> (Inl a, p)
                  | (None, p) \<Rightarrow>
                      let p = note_auth_failure rd src e p
                      in if e = BadRequest then (Inl (encode_error msg src 400 ''Bad Request''), p)
                         else let (a, p) = encode_auth_challenge L rd msg src p in (Inl a, p))))"

section \<open>Relaying\<close>

text \<open>The bandwidth check of the data path on the allocation it found.\<close>

definition bandwidth_gate :: "instant \<Rightarrow> socket_addr \<Rightarrow> allocation \<Rightarrow> allocation_store \<Rightarrow> bool \<times> allocation_store" where
  "bandwidth_gate now client a s =
     (let (bw_limit, bandwidth_disabled) = bandwidth_policy_for_user s (al_realm a) (al_tenant_id a) (al_username a)
      in if bandwidth_disabled then (False, s)
         else if bw_limit > 0 then
           (case alloc_check_bandwidth now bw_limit a of
              (Ok _, a) \<Rightarrow> (True, upd_alloc client a s)
            | (_, a) \<Rightarrow> (False, upd_alloc client a s))
         else (True, s))"

text \<open>
  The gates a packet of the data path passes, in the direction given, before it is relayed: the bandwidth quota of the allocation, the
  capacity of the node, and the allocation's counters.
\<close>

definition relay_gates :: "readings \<Rightarrow> bool \<Rightarrow> socket_addr \<Rightarrow> allocation \<Rightarrow> nat \<Rightarrow> processor \<Rightarrow> bool \<times> processor" where
  "relay_gates rd to_client client alloc len p =
     (let (ok, s) = bandwidth_gate (rd_store rd 2) client alloc (px_store p); p = p\<lparr>px_store := s\<rparr>
      in if \<not> ok then (False, p)
         else
           let (ok, p) = within_capacity rd len p
           in if \<not> ok then (False, p)
              else (True, p\<lparr>px_store := st_count_packet to_client (of_nat len) client (px_store p)\<rparr>))"

definition channel_data_decision ::
  "readings \<Rightarrow> bytes \<Rightarrow> socket_addr \<Rightarrow> processor \<Rightarrow> (nat \<times> nat \<times> socket_addr \<times> u16) option \<times> processor" where
  "channel_data_decision rd raw src p =
     (case decode_channel_data raw of
        Ok (channel, data) \<Rightarrow>
          (case st_get (px_store p) src of
             None \<Rightarrow> (None, p)
           | Some alloc \<Rightarrow>
               if Allocation_is_expired (rd_store rd 0) alloc then (None, p)
               else
                 (case get_channel_peer (rd_store rd 1) alloc channel of
                    None \<Rightarrow> (None, p)
                  | Some peer_addr \<Rightarrow>
                      let (ok, p) = relay_gates rd False src alloc (length data) p
                      in (if ok then Some (4, length data, peer_addr, sock_port (al_relay_addr alloc)) else None, p)))
      | _ \<Rightarrow> (None, p))"

definition process_channel_data :: "readings \<Rightarrow> bytes \<Rightarrow> socket_addr \<Rightarrow> processor \<Rightarrow> acts \<times> processor" where
  "process_channel_data rd raw src p =
     (case channel_data_decision rd raw src p of
        (Some (offset, len, target, port), p) \<Rightarrow>
          (bind_res (slice_r raw offset (offset + len)) (\<lambda>data. Ok [Forward data target port]), p)
      | (None, p) \<Rightarrow> (Ok [NoAction], p))"

definition relay_frame :: "u16 option \<Rightarrow> socket_addr \<Rightarrow> bytes \<Rightarrow> (nat \<times> bytes) stun_res" where
  "relay_frame channel peer_addr data =
     (case channel of
        Some ch \<Rightarrow> encode_channel_data (replicate (pad4 (4 + length data)) 0) ch data
      | None \<Rightarrow>
          encode_plain 4096 (sm_add (sm_add (with_transaction_id M_Data Indication (replicate 12 0))
            (XorPeerAddress peer_addr)) (Data data)))"

definition process_relay_recv ::
  "readings \<Rightarrow> bytes \<Rightarrow> socket_addr \<Rightarrow> socket_addr \<Rightarrow> processor \<Rightarrow> acts \<times> processor" where
  "process_relay_recv rd data peer_addr relay_addr p =
     (let peer_addr = normalize_addr peer_addr in
      case get_by_relay (px_store p) relay_addr of
        None \<Rightarrow> (Ok [NoAction], p)
      | Some client_addr \<Rightarrow>
          (case st_get (px_store p) client_addr of
             None \<Rightarrow> (Ok [NoAction], p)
           | Some alloc \<Rightarrow>
               if Allocation_is_expired (rd_store rd 0) alloc then (Ok [NoAction], p)
               else if \<not> has_permission (rd_store rd 1) alloc peer_addr then (Ok [NoAction], p)
               else
                 let (ok, p) = relay_gates rd True client_addr alloc (length data) p
                 in (if ok
                     then sent (relay_frame (get_peer_channel (rd_store rd 3) alloc peer_addr) peer_addr data)
                            (al_client_addr alloc)
                     else Ok [NoAction], p)))"

definition forbidden_peer :: "processor \<Rightarrow> ip_addr \<Rightarrow> bool" where
  "forbidden_peer p ip = is_forbidden_peer (px_peer_env p) (px_peer_policy p) ip"

fun ip_is_ipv6 :: "ip_addr \<Rightarrow> bool" where
  "ip_is_ipv6 (IpV6 _) = True"
| "ip_is_ipv6 (IpV4 _) = False"

definition peer_family_mismatch :: "processor \<Rightarrow> socket_addr \<Rightarrow> ip_addr \<Rightarrow> bool" where
  "peer_family_mismatch p src peer =
     (case st_get (px_store p) src of
        Some a \<Rightarrow> is_ipv6 (al_relay_addr a) \<noteq> ip_is_ipv6 peer
      | None \<Rightarrow> False)"

definition has_dont_fragment :: "stun_message \<Rightarrow> bool" where
  "has_dont_fragment msg = list_ex (\<lambda>a. a = DontFragment) (sm_attributes msg)"

definition handle_send_indication :: "readings \<Rightarrow> stun_message \<Rightarrow> socket_addr \<Rightarrow> processor \<Rightarrow> acts \<times> processor" where
  "handle_send_indication rd msg src p =
     (case (get_xor_peer_address msg, get_data msg) of
        (Some peer_addr, Some data) \<Rightarrow>
          (let peer_addr = normalize_addr peer_addr in
           if forbidden_peer p (sock_ip peer_addr) then (Ok [NoAction], p)
           else if peer_family_mismatch p src (sock_ip peer_addr) then (Ok [NoAction], p)
           else if has_dont_fragment msg \<and> length data > unat (px_mtu p) then (Ok [NoAction], p)
           else
             case st_get (px_store p) src of
               None \<Rightarrow> (Ok [NoAction], p)
             | Some alloc \<Rightarrow>
                 if Allocation_is_expired (rd_store rd 0) alloc then (Ok [NoAction], p)
                 else if \<not> has_permission (rd_store rd 1) alloc peer_addr then (Ok [NoAction], p)
                 else
                   let (ok, p) = relay_gates rd False src alloc (length data) p
                   in (Ok [if ok then SendViaRelay data peer_addr (sock_port (al_relay_addr alloc)) else NoAction], p))
      | _ \<Rightarrow> (Ok [NoAction], p))"

end
