(* ===== verification/Handlers.thy ===== *)
theory Handlers
  imports Processor
begin

text \<open>
  The handlers of the packet processor (\<^verbatim>\<open>crates/relay/src/processor.rs\<close>) for STUN requests: Binding, Allocate over
  UDP and TCP, Refresh with the migration of RFC 8016, CreatePermission, ChannelBind, and the decisions for Connect and
  ConnectionBind of RFC 6062; their dispatch with the replay cache; and the entry points for a packet. The bound relay socket of an allocation is its port
  and family.
\<close>

section \<open>Binding\<close>

definition has_integrity :: "stun_message \<Rightarrow> bool" where
  "has_integrity msg = (get_message_integrity msg \<noteq> None \<or> get_message_integrity_sha256 msg \<noteq> None)"

definition add_software :: "processor \<Rightarrow> stun_message \<Rightarrow> stun_message" where
  "add_software p resp = (case px_software p of Some sw \<Rightarrow> sm_add resp (Software sw) | None \<Rightarrow> resp)"

definition binding_reply :: "libs \<Rightarrow> bytes option \<Rightarrow> stun_message \<Rightarrow> socket_addr \<Rightarrow> processor \<Rightarrow> acts" where
  "binding_reply L binding_key msg src p =
     (let resp = with_transaction_id M_Binding SuccessResponse (sm_transaction_id msg);
          resp = sm_add resp (XorMappedAddress src);
          resp = add_software p resp
      in sent (case (binding_key, px_require_binding_auth p) of
                 (Some key, True) \<Rightarrow> encode_with_integrity_auto L 256 resp key msg
               | _ \<Rightarrow> encode_plain 256 resp) src)"

definition binding_answer :: "libs \<Rightarrow> readings \<Rightarrow> stun_message \<Rightarrow> bytes \<Rightarrow> socket_addr \<Rightarrow> processor \<Rightarrow> acts \<times> processor" where
  "binding_answer L rd msg raw src p =
     (if has_integrity msg
      then
        (case auth_validate L rd msg raw src (px_require_binding_auth p) p of
           (Ok r, p) \<Rightarrow> (binding_reply L (Some (rs_key r)) msg src p, p)
         | (Panic, p) \<Rightarrow> (Panic, p)
         | (Err e, p) \<Rightarrow>
             (case auth_deferred rd e msg src p of
                (Some a, p) \<Rightarrow> (a, p)
              | (None, p) \<Rightarrow> encode_auth_challenge L rd msg src p))
      else (binding_reply L None msg src p, p))"

definition handle_binding :: "libs \<Rightarrow> readings \<Rightarrow> stun_message \<Rightarrow> bytes \<Rightarrow> socket_addr \<Rightarrow> processor \<Rightarrow> acts \<times> processor" where
  "handle_binding L rd msg raw src p =
     (let (ok, p) = allow_unauth_reply rd src p
      in if \<not> ok then (Ok [NoAction], p)
         else if px_require_binding_auth p then
           (if \<not> has_integrity msg \<or> get_username msg = None then encode_auth_challenge L rd msg src p
            else
              case validate_nonce L rd msg src p of
                (Some stale, p) \<Rightarrow> (stale, p)
              | (None, p) \<Rightarrow> binding_answer L rd msg raw src p)
         else binding_answer L rd msg raw src p)"

section \<open>Allocate\<close>

definition granted_lifetime :: "u32 option \<Rightarrow> stun_message \<Rightarrow> u32" where
  "granted_lifetime token_max_lifetime msg =
     (let lifetime = min (case get_lifetime msg of Some l \<Rightarrow> l | None \<Rightarrow> DEFAULT_LIFETIME) MAX_LIFETIME
      in case token_max_lifetime of Some m \<Rightarrow> min lifetime m | None \<Rightarrow> lifetime)"

definition capped_lifetime :: "u32 \<Rightarrow> u32 \<Rightarrow> u32" where
  "capped_lifetime dynamic_lifetime lifetime = (if dynamic_lifetime > 0 then min lifetime dynamic_lifetime else lifetime)"

text \<open>The port an Allocate request asks for; no value where the port search does not end.\<close>

definition acquire_port ::
  "readings \<Rightarrow> stun_message \<Rightarrow> relay_family \<Rightarrow> port_allocator \<Rightarrow> ((u16 \<times> bytes option) option \<times> port_allocator) option" where
  "acquire_port rd msg family pa =
     (let plain = (\<lambda>(r, pa). (map_option (\<lambda>port. (port, None)) r, pa))
      in case get_reservation_token msg of
           Some token \<Rightarrow> Some (plain (claim_and_bind (rd_bind rd 0) token (rd_store rd 0) pa))
         | None \<Rightarrow>
             (case get_even_port msg of
                Some reserve_next \<Rightarrow>
                  Some (allocate_even_and_bind_family (rd_bind rd) (rd_token rd) (rd_store rd 0) reserve_next family pa)
              | None \<Rightarrow> map_option plain (allocate_and_bind_family (rd_bind rd) family pa)))"

definition relay_ip :: "relay_family \<Rightarrow> processor \<Rightarrow> ip_addr option" where
  "relay_ip family p =
     (case family of FamV6 \<Rightarrow> map_option IpV6 (px_external_ip6 p) | FamV4 \<Rightarrow> Some (px_external_ip p))"

definition create_refused :: "session_error \<Rightarrow> stun_message \<Rightarrow> socket_addr \<Rightarrow> acts" where
  "create_refused e msg src =
     (if e = AllocationExists then encode_error msg src 437 ''Allocation Mismatch''
      else encode_error msg src 508 ''Insufficient Capacity'')"

definition allocate_reply ::
  "libs \<Rightarrow> readings \<Rightarrow> stun_message \<Rightarrow> socket_addr \<Rightarrow> bytes \<Rightarrow> relay_family \<Rightarrow> socket_addr \<Rightarrow> u32 \<Rightarrow> bytes option
     \<Rightarrow> processor \<Rightarrow> acts" where
  "allocate_reply L rd msg src key family relay_addr lifetime issued_token p =
     (let (allocation_id, migration_epoch) =
            (case st_get (px_store p) src of Some a \<Rightarrow> (al_allocation_id a, al_migration_epoch a) | None \<Rightarrow> ('''', 0));
          resp = build_allocate_response (sm_transaction_id msg) relay_addr src lifetime;
          resp = (case px_migration p of
                    Some mgr \<Rightarrow>
                      if has_mobility_ticket msg
                      then sm_add resp (MobilityTicket (mt_token
                             (issue_token (lb_crypto L) mgr allocation_id migration_epoch (rd_ticket_secs rd 0) (rd_store rd 2))))
                      else resp
                  | None \<Rightarrow> resp);
          resp = (case issued_token of Some tok \<Rightarrow> sm_add resp (ReservationToken tok) | None \<Rightarrow> resp)
      in sent_among [RegisterRelay (sock_port relay_addr) family src allocation_id] []
           (encode_with_integrity_auto L 1024 resp key msg) src)"

definition handle_allocate_udp ::
  "libs \<Rightarrow> readings \<Rightarrow> stun_message \<Rightarrow> socket_addr \<Rightarrow> auth_resolution \<Rightarrow> relay_family \<Rightarrow> processor \<Rightarrow> acts \<times> processor" where
  "handle_allocate_udp L rd msg src r family p =
     (let tenant_id = rs_tenant_id r; realm = rs_realm r; subject = rs_subject r in
      case acquire_port rd msg family (pool (px_store p) tenant_id) of
        None \<Rightarrow> (Err Diverges, p)
      | Some (None, pa) \<Rightarrow>
          (encode_error msg src 508 ''Insufficient Capacity'', p\<lparr>px_store := upd_pool tenant_id (\<lambda>_. pa) (px_store p)\<rparr>)
      | Some (Some (port, issued_token), pa) \<Rightarrow>
          let s = upd_pool tenant_id (\<lambda>_. pa) (px_store p) in
          (case relay_ip family p of
             None \<Rightarrow> (Panic, p\<lparr>px_store := s\<rparr>)
           | Some ip \<Rightarrow>
               let relay_addr = SocketAddr_new ip port;
                   lifetime = granted_lifetime (rs_max_lifetime_secs r) msg;
                   (dynamic_lifetime, lifetime_disabled) = lifetime_policy_for_user s realm tenant_id subject
               in if lifetime_disabled
                  then (encode_error msg src 486 ''Allocation Quota Reached'',
                        p\<lparr>px_store := finish_allocate port issued_token (Err LimitExceeded) s\<rparr>)
                  else
                    let lifetime = capped_lifetime dynamic_lifetime lifetime;
                        (created, s) = create_for_identity (rd_store rd 1) (rd_created_ms rd) (rd_epoch_ms rd 0) src relay_addr
                                         subject (rs_key r) lifetime realm tenant_id s;
                        p = p\<lparr>px_store := finish_allocate port issued_token created s\<rparr>
                    in case created of
                         Ok _ \<Rightarrow> (allocate_reply L rd msg src (rs_key r) family relay_addr lifetime issued_token p, p)
                       | Err e \<Rightarrow> (create_refused e msg src, p)
                       | Panic \<Rightarrow> (Panic, p)))"

text \<open>The address a TCP allocation advertises.\<close>

definition tcp_relay_addr :: "relay_family \<Rightarrow> u16 \<Rightarrow> processor \<Rightarrow> socket_addr" where
  "tcp_relay_addr family port p =
     SocketAddr_new (case (family, px_external_ip6 p) of (FamV6, Some ip6) \<Rightarrow> IpV6 ip6 | _ \<Rightarrow> px_external_ip p) port"

text \<open>The part of \<^verbatim>\<open>handle_allocate_tcp\<close> that takes a port, binds the listener and creates the allocation.\<close>

definition create_tcp ::
  "libs \<Rightarrow> readings \<Rightarrow> stun_message \<Rightarrow> socket_addr \<Rightarrow> auth_resolution \<Rightarrow> relay_family \<Rightarrow> u32 \<Rightarrow> processor \<Rightarrow> acts \<times> processor" where
  "create_tcp L rd msg src r family lifetime p =
     (let tenant_id = rs_tenant_id r; key = rs_key r in
      case pa_allocate (pool (px_store p) tenant_id) of
        None \<Rightarrow> (Err Diverges, p)
      | Some (Err _, pa) \<Rightarrow>
          (encode_error msg src 508 ''Insufficient Capacity'',
           p\<lparr>px_store := upd_pool tenant_id (\<lambda>_. pa) (px_store p)\<rparr>)
      | Some (Panic, pa) \<Rightarrow> (Panic, p\<lparr>px_store := upd_pool tenant_id (\<lambda>_. pa) (px_store p)\<rparr>)
      | Some (Ok port, pa) \<Rightarrow>
          let s = upd_pool tenant_id (\<lambda>_. pa) (px_store p); relay_addr = tcp_relay_addr family port p
          in if \<not> rd_bind_tcp rd family port
             then (encode_error msg src 508 ''Insufficient Capacity'',
                   p\<lparr>px_store := finish_allocate port None (Err NoPortsAvailable) s\<rparr>)
             else
               let (created, s) = create_for_identity (rd_store rd 1) (rd_created_ms rd) (rd_epoch_ms rd 0) src
                                    relay_addr (rs_subject r) key lifetime (rs_realm r) tenant_id s;
                   s = finish_allocate port None created s
               in case created of
                    Ok _ \<Rightarrow>
                      (sent_among [RegisterTcpListener port family src key] []
                         (encode_with_integrity_auto L 1024
                            (build_allocate_response (sm_transaction_id msg) relay_addr src lifetime) key msg) src,
                       p\<lparr>px_store := snd (set_transport src Tcp s)\<rparr>)
                  | Err e \<Rightarrow> (create_refused e msg src, p\<lparr>px_store := s\<rparr>)
                  | Panic \<Rightarrow> (Panic, p\<lparr>px_store := s\<rparr>))"

definition handle_allocate_tcp ::
  "libs \<Rightarrow> readings \<Rightarrow> stun_message \<Rightarrow> socket_addr \<Rightarrow> auth_resolution \<Rightarrow> processor \<Rightarrow> acts \<times> processor" where
  "handle_allocate_tcp L rd msg src r p =
     (let requested_v6 = (get_requested_address_family msg = Some Ipv6);
          v6_allowed = (px_external_ip6 p \<noteq> None \<and> px_tcp_relay p = Some True)
      in
      if get_even_port msg \<noteq> None \<or> get_reservation_token msg \<noteq> None \<or> has_dont_fragment msg
      then (encode_error msg src 400 ''Bad Request'', p)
      else if requested_v6 \<and> \<not> v6_allowed then (encode_error msg src 440 ''Address Family not Supported'', p)
      else if \<not> requested_v6 \<and> ip_is_ipv6 (px_external_ip p)
      then (encode_error msg src 440 ''Address Family not Supported'', p)
      else
        let (dynamic_lifetime, lifetime_disabled) =
              lifetime_policy_for_user (px_store p) (rs_realm r) (rs_tenant_id r) (rs_subject r)
        in if lifetime_disabled then (encode_error msg src 486 ''Allocation Quota Reached'', p)
           else create_tcp L rd msg src r (if requested_v6 then FamV6 else FamV4)
                  (capped_lifetime dynamic_lifetime (granted_lifetime (rs_max_lifetime_secs r) msg)) p)"

text \<open>What an authenticated Allocate request does.\<close>

definition allocate_for ::
  "libs \<Rightarrow> readings \<Rightarrow> stun_message \<Rightarrow> socket_addr \<Rightarrow> bool \<Rightarrow> auth_resolution \<Rightarrow> processor \<Rightarrow> acts \<times> processor" where
  "allocate_for L rd msg src ingress_tcp r p =
     (let transport = get_requested_transport msg;
          want_tcp = (transport = Some TRANSPORT_TCP \<and> px_tcp_relay p \<noteq> None);
          family = get_requested_address_family msg
      in
      if px_is_draining p then (encode_error msg src 508 ''Server Draining'', p)
      else if rs_max_lifetime_secs r = Some 0 then (encode_error msg src 401 ''Unauthorized'', p)
      else if st_get (px_store p) src \<noteq> None then (encode_error msg src 437 ''Allocation Mismatch'', p)
      else if transport \<noteq> Some TRANSPORT_UDP \<and> \<not> want_tcp
      then (encode_error msg src 442 ''Unsupported Transport Protocol'', p)
      else if want_tcp \<and> \<not> ingress_tcp then (encode_error msg src 400 ''Bad Request'', p)
      else if want_tcp then handle_allocate_tcp L rd msg src r p
      else if family = Some Ipv6 \<and> px_external_ip6 p = None
      then (encode_error msg src 440 ''Address Family not Supported'', p)
      else if family \<noteq> None \<and> get_reservation_token msg \<noteq> None then (encode_error msg src 400 ''Bad Request'', p)
      else if get_even_port msg \<noteq> None \<and> get_reservation_token msg \<noteq> None
      then (encode_error msg src 400 ''Bad Request'', p)
      else handle_allocate_udp L rd msg src r (if family = Some Ipv6 then FamV6 else FamV4) p)"

definition handle_allocate ::
  "libs \<Rightarrow> readings \<Rightarrow> stun_message \<Rightarrow> bytes \<Rightarrow> socket_addr \<Rightarrow> bool \<Rightarrow> processor \<Rightarrow> acts \<times> processor" where
  "handle_allocate L rd msg raw src ingress_tcp p =
     (case authenticate L rd msg raw src p of
        (Inl a, p) \<Rightarrow> (a, p)
      | (Inr r, p) \<Rightarrow> allocate_for L rd msg src ingress_tcp r p)"

section \<open>Refresh\<close>

definition migrated_reply ::
  "libs \<Rightarrow> readings \<Rightarrow> migration_manager \<Rightarrow> stun_message \<Rightarrow> socket_addr \<Rightarrow> bytes \<Rightarrow> u32 \<Rightarrow> string \<Rightarrow> u64 \<Rightarrow> u16
     \<Rightarrow> processor \<Rightarrow> acts" where
  "migrated_reply L rd mgr msg src key lifetime alloc_id epoch port p =
     (let new_epoch = (case st_get (px_store p) src of Some a \<Rightarrow> al_migration_epoch a | None \<Rightarrow> epoch + 1);
          resp = build_success_response M_Refresh (sm_transaction_id msg);
          resp = sm_add resp (Lifetime lifetime);
          resp = sm_add resp (XorMappedAddress src);
          resp = sm_add resp (MobilityTicket (mt_token
                   (issue_token (lb_crypto L) mgr alloc_id new_epoch (rd_ticket_secs rd 1) (rd_store rd 1))))
      in sent_among [] (if lifetime = 0 then [CloseRelay port] else [])
           (encode_with_integrity_auto L 1024 resp key msg) src)"

definition try_migration_refresh ::
  "libs \<Rightarrow> readings \<Rightarrow> stun_message \<Rightarrow> socket_addr \<Rightarrow> bytes \<Rightarrow> u32 \<Rightarrow> processor \<Rightarrow> acts option \<times> processor" where
  "try_migration_refresh L rd msg src key lifetime p =
     (let mismatch = (\<lambda>p. (Some (encode_error msg src 437 ''Allocation Mismatch''), p)) in
      case (px_migration p, get_mobility_ticket msg) of
        (Some mgr, Some ticket) \<Rightarrow>
          if ticket = [] then (None, p)
          else
            (case verify_ticket (lb_crypto L) mgr ticket (rd_ticket_secs rd 0) of
               None \<Rightarrow> mismatch p
             | Some (alloc_id, epoch) \<Rightarrow>
                 (case get_by_id (px_store p) alloc_id of
                    None \<Rightarrow> mismatch p
                  | Some old_addr \<Rightarrow>
                      if map_option al_migration_epoch (st_get (px_store p) old_addr) \<noteq> Some epoch then mismatch p
                      else
                        (case re_key (rd_epoch_ms rd 0) id id old_addr src (px_store p) of
                           (Err _, s) \<Rightarrow> mismatch (p\<lparr>px_store := s\<rparr>)
                         | (Panic, s) \<Rightarrow> (Some Panic, p\<lparr>px_store := s\<rparr>)
                         | (Ok relay_addr, s) \<Rightarrow>
                             (case st_refresh (rd_store rd 0) (rd_epoch_ms rd 1) src lifetime s of
                                (Panic, s) \<Rightarrow> (Some Panic, p\<lparr>px_store := s\<rparr>)
                              | (_, s) \<Rightarrow>
                                  let p = p\<lparr>px_store := s\<rparr>
                                  in (Some (migrated_reply L rd mgr msg src key lifetime alloc_id epoch
                                              (sock_port relay_addr) p), p)))))
      | _ \<Rightarrow> (None, p))"

definition plain_refresh ::
  "libs \<Rightarrow> readings \<Rightarrow> stun_message \<Rightarrow> socket_addr \<Rightarrow> bytes \<Rightarrow> u32 \<Rightarrow> processor \<Rightarrow> acts \<times> processor" where
  "plain_refresh L rd msg src key lifetime p =
     (let port = map_option (\<lambda>a. sock_port (al_relay_addr a)) (st_get (px_store p) src);
          (refreshed, s) = st_refresh (rd_store rd 2) (rd_epoch_ms rd 2) src lifetime (px_store p);
          p = p\<lparr>px_store := s\<rparr>
      in case refreshed of
           Ok _ \<Rightarrow>
             (sent_among []
                (if lifetime = 0 then (case port of Some port \<Rightarrow> [CloseRelay port] | None \<Rightarrow> []) else [])
                (encode_with_integrity_auto L 1024
                   (sm_add (build_success_response M_Refresh (sm_transaction_id msg)) (Lifetime lifetime)) key msg) src, p)
         | Err _ \<Rightarrow> (encode_error msg src 437 ''Allocation Mismatch'', p)
         | Panic \<Rightarrow> (Panic, p))"

text \<open>What an authenticated Refresh request does.\<close>

definition refresh_for ::
  "libs \<Rightarrow> readings \<Rightarrow> stun_message \<Rightarrow> socket_addr \<Rightarrow> auth_resolution \<Rightarrow> processor \<Rightarrow> acts \<times> processor" where
  "refresh_for L rd msg src r p =
     (let token_max_lifetime = rs_max_lifetime_secs r;
          requested = granted_lifetime None msg;
          lifetime = granted_lifetime token_max_lifetime msg;
          username = (case get_username msg of Some u \<Rightarrow> u | None \<Rightarrow> rs_subject r);
          (dynamic_max, lifetime_disabled) =
            (if lifetime > 0 then lifetime_policy_for_user (px_store p) (rs_realm r) (rs_tenant_id r) username
             else (0, False))
      in
      if token_max_lifetime = Some 0 \<and> requested > 0 then (encode_error msg src 401 ''Unauthorized'', p)
      else if lifetime_disabled then (encode_error msg src 486 ''Allocation Quota Reached'', p)
      else
        let lifetime = capped_lifetime dynamic_max lifetime in
        if st_get (px_store p) src = None
        then (case try_migration_refresh L rd msg src (rs_key r) lifetime p of
                (Some a, p) \<Rightarrow> (a, p)
              | (None, p) \<Rightarrow> plain_refresh L rd msg src (rs_key r) lifetime p)
        else plain_refresh L rd msg src (rs_key r) lifetime p)"

definition handle_refresh ::
  "libs \<Rightarrow> readings \<Rightarrow> stun_message \<Rightarrow> bytes \<Rightarrow> socket_addr \<Rightarrow> processor \<Rightarrow> acts \<times> processor" where
  "handle_refresh L rd msg raw src p =
     (case authenticate L rd msg raw src p of
        (Inl a, p) \<Rightarrow> (a, p)
      | (Inr r, p) \<Rightarrow> refresh_for L rd msg src r p)"

section \<open>Permissions and channels\<close>

definition MAX_PEERS :: nat where [rust_const]: "MAX_PEERS = 32"

definition requested_peers :: "stun_message \<Rightarrow> ip_addr list" where
  "requested_peers msg =
     List.map_filter (\<lambda>a. case a of XorPeerAddress q \<Rightarrow> Some (normalize_ip (sock_ip q)) | _ \<Rightarrow> None) (sm_attributes msg)"

fun peer_refusal :: "processor \<Rightarrow> socket_addr \<Rightarrow> ip_addr list \<Rightarrow> (u16 \<times> string) option" where
  "peer_refusal p src [] = None"
| "peer_refusal p src (peer_ip # peers) =
     (if forbidden_peer p peer_ip then Some (403, ''Forbidden'')
      else if peer_family_mismatch p src peer_ip then Some (443, ''Peer Address Family Mismatch'')
      else peer_refusal p src peers)"

fun install_permissions ::
  "readings \<Rightarrow> nat \<Rightarrow> socket_addr \<Rightarrow> ip_addr list \<Rightarrow> allocation_store \<Rightarrow> unit session_res \<times> allocation_store" where
  "install_permissions rd i src [] s = (Ok (), s)"
| "install_permissions rd i src (peer_ip # peers) s =
     (case st_add_permission (rd_store rd i) (rd_epoch_ms rd i) src peer_ip s of
        (Ok _, s) \<Rightarrow> install_permissions rd (i + 1) src peers s
      | (r, s) \<Rightarrow> (r, s))"

definition permit_for ::
  "libs \<Rightarrow> readings \<Rightarrow> stun_message \<Rightarrow> socket_addr \<Rightarrow> bytes \<Rightarrow> processor \<Rightarrow> acts \<times> processor" where
  "permit_for L rd msg src key p =
     (let peers = requested_peers msg in
      if peers = [] then (encode_error msg src 400 ''Bad Request'', p)
      else if length peers > MAX_PEERS then (encode_error msg src 400 ''Bad Request: too many peers'', p)
      else
        case peer_refusal p src peers of
          Some (code, reason) \<Rightarrow> (encode_error msg src code reason, p)
        | None \<Rightarrow>
            let (r, s) = install_permissions rd 0 src peers (px_store p); p = p\<lparr>px_store := s\<rparr>
            in case r of
                 Ok _ \<Rightarrow>
                   (sent (encode_with_integrity_auto L 1024
                      (build_success_response M_CreatePermission (sm_transaction_id msg)) key msg) src, p)
               | Err LimitExceeded \<Rightarrow> (encode_error msg src 486 ''Allocation Quota Reached'', p)
               | Err _ \<Rightarrow> (encode_error msg src 437 ''Allocation Mismatch'', p)
               | Panic \<Rightarrow> (Panic, p))"

definition handle_create_permission ::
  "libs \<Rightarrow> readings \<Rightarrow> stun_message \<Rightarrow> bytes \<Rightarrow> socket_addr \<Rightarrow> processor \<Rightarrow> acts \<times> processor" where
  "handle_create_permission L rd msg raw src p =
     (case authenticate L rd msg raw src p of
        (Inl a, p) \<Rightarrow> (a, p)
      | (Inr r, p) \<Rightarrow> permit_for L rd msg src (rs_key r) p)"

definition bind_for ::
  "libs \<Rightarrow> readings \<Rightarrow> stun_message \<Rightarrow> socket_addr \<Rightarrow> bytes \<Rightarrow> processor \<Rightarrow> acts \<times> processor" where
  "bind_for L rd msg src key p =
     (case (get_channel_number msg, get_xor_peer_address msg) of
        (Some channel, Some peer_addr) \<Rightarrow>
          if \<not> is_valid_channel channel then (encode_error msg src 400 ''Bad Request: invalid channel'', p)
          else
            let peer_addr = normalize_addr peer_addr in
            if forbidden_peer p (sock_ip peer_addr) then (encode_error msg src 403 ''Forbidden'', p)
            else if peer_family_mismatch p src (sock_ip peer_addr)
            then (encode_error msg src 443 ''Peer Address Family Mismatch'', p)
            else
              let (r, s) = st_add_channel (rd_store rd 0) (rd_epoch_ms rd 0) src channel peer_addr (px_store p);
                  p = p\<lparr>px_store := s\<rparr>
              in (case r of
                    Ok _ \<Rightarrow>
                      (sent (encode_with_integrity_auto L 1024
                         (build_success_response M_ChannelBind (sm_transaction_id msg)) key msg) src, p)
                  | Err ChannelConflict \<Rightarrow> (encode_error msg src 400 ''Bad Request'', p)
                  | Err LimitExceeded \<Rightarrow> (encode_error msg src 486 ''Allocation Quota Reached'', p)
                  | Err _ \<Rightarrow> (encode_error msg src 437 ''Allocation Mismatch'', p)
                  | Panic \<Rightarrow> (Panic, p))
      | _ \<Rightarrow> (encode_error msg src 400 ''Bad Request'', p))"

definition handle_channel_bind ::
  "libs \<Rightarrow> readings \<Rightarrow> stun_message \<Rightarrow> bytes \<Rightarrow> socket_addr \<Rightarrow> processor \<Rightarrow> acts \<times> processor" where
  "handle_channel_bind L rd msg raw src p =
     (case authenticate L rd msg raw src p of
        (Inl a, p) \<Rightarrow> (a, p)
      | (Inr r, p) \<Rightarrow> bind_for L rd msg src (rs_key r) p)"

section \<open>TCP allocations\<close>

datatype ConnectDecision = ConnectReject acts | ConnectProceed socket_addr bytes u16

datatype ConnBindDecision = BindReject acts | BindProceed u32 bytes bytes

definition encoded :: "(nat \<times> bytes) stun_res \<Rightarrow> bytes option" where
  "encoded r = (case r of Ok (len, buf) \<Rightarrow> Some (take len buf) | _ \<Rightarrow> None)"

definition decide_connect :: "readings \<Rightarrow> stun_message \<Rightarrow> socket_addr \<Rightarrow> bytes \<Rightarrow> processor \<Rightarrow> ConnectDecision" where
  "decide_connect rd msg src key p =
     (case get_xor_peer_address msg of
        None \<Rightarrow> ConnectReject (encode_error msg src 400 ''Bad Request'')
      | Some peer \<Rightarrow>
          (case st_get (px_store p) src of
             None \<Rightarrow> ConnectReject (encode_error msg src 437 ''Allocation Mismatch'')
           | Some a \<Rightarrow>
               if al_transport a \<noteq> Tcp then ConnectReject (encode_error msg src 400 ''Bad Request'')
               else if \<not> has_permission (rd_store rd 0) a peer then ConnectReject (encode_error msg src 403 ''Forbidden'')
               else ConnectProceed peer key (sock_port (al_relay_addr a))))"

definition connect_decision ::
  "libs \<Rightarrow> readings \<Rightarrow> stun_message \<Rightarrow> bytes \<Rightarrow> socket_addr \<Rightarrow> processor \<Rightarrow> ConnectDecision \<times> processor" where
  "connect_decision L rd msg raw src p =
     (case authenticate L rd msg raw src p of
        (Inl a, p) \<Rightarrow> (ConnectReject a, p)
      | (Inr r, p) \<Rightarrow> (decide_connect rd msg src (rs_key r) p, p))"

definition peer_connection_permitted :: "readings \<Rightarrow> socket_addr \<Rightarrow> u16 \<Rightarrow> socket_addr \<Rightarrow> processor \<Rightarrow> bool" where
  "peer_connection_permitted rd client port peer p =
     (let peer = normalize_addr peer
      in \<not> forbidden_peer p (sock_ip peer)
         \<and> (case st_get (px_store p) client of
              Some a \<Rightarrow>
                \<not> Allocation_is_expired (rd_store rd 0) a \<and> al_transport a = Tcp \<and> sock_port (al_relay_addr a) = port
                \<and> is_ipv6 (al_relay_addr a) = is_ipv6 peer \<and> has_permission (rd_store rd 1) a peer
            | None \<Rightarrow> False))"

definition tcp_listener_live :: "readings \<Rightarrow> socket_addr \<Rightarrow> u16 \<Rightarrow> processor \<Rightarrow> bool" where
  "tcp_listener_live rd client port p =
     (case st_get (px_store p) client of
        Some a \<Rightarrow>
          \<not> Allocation_is_expired (rd_store rd 0) a \<and> al_transport a = Tcp \<and> sock_port (al_relay_addr a) = port
      | None \<Rightarrow> False)"

definition build_connect_success :: "libs \<Rightarrow> u32 \<Rightarrow> bytes \<Rightarrow> stun_message \<Rightarrow> bytes option" where
  "build_connect_success L conn_id key orig =
     encoded (encode_with_integrity_auto L 512
       (sm_add (build_success_response M_Connect (sm_transaction_id orig)) (ConnectionId conn_id)) key orig)"

definition encode_connect_error :: "stun_message \<Rightarrow> socket_addr \<Rightarrow> u16 \<Rightarrow> string \<Rightarrow> acts" where
  "encode_connect_error orig src code reason = encode_error orig src code reason"

definition build_connection_bind_success :: "libs \<Rightarrow> bytes \<Rightarrow> stun_message \<Rightarrow> bytes option" where
  "build_connection_bind_success L key orig =
     encoded (encode_with_integrity_auto L 256 (build_success_response M_ConnectionBind (sm_transaction_id orig)) key orig)"

definition decide_connection_bind ::
  "libs \<Rightarrow> stun_message \<Rightarrow> socket_addr \<Rightarrow> bytes \<Rightarrow> ConnBindDecision" where
  "decide_connection_bind L msg src key =
     (case get_connection_id msg of
        None \<Rightarrow> BindReject (encode_error msg src 400 ''Bad Request'')
      | Some connection_id \<Rightarrow>
          (case build_connection_bind_success L key msg of
             Some success \<Rightarrow> BindProceed connection_id key success
           | None \<Rightarrow> BindReject (encode_error msg src 500 ''Server Error'')))"

definition connection_bind_decision ::
  "libs \<Rightarrow> readings \<Rightarrow> stun_message \<Rightarrow> bytes \<Rightarrow> socket_addr \<Rightarrow> processor \<Rightarrow> ConnBindDecision \<times> processor" where
  "connection_bind_decision L rd msg raw src p =
     (case authenticate L rd msg raw src p of
        (Inl a, p) \<Rightarrow> (BindReject a, p)
      | (Inr r, p) \<Rightarrow> (decide_connection_bind L msg src (rs_key r), p))"

definition build_connection_attempt_indication :: "bytes \<Rightarrow> u32 \<Rightarrow> socket_addr \<Rightarrow> bytes option" where
  "build_connection_attempt_indication tid connection_id peer =
     encoded (encode_plain 256 (build_connection_attempt tid connection_id peer))"

section \<open>Dispatch\<close>

definition unknown_required :: "bool \<Rightarrow> stun_message \<Rightarrow> u16 list" where
  "unknown_required change_request_ok msg =
     List.map_filter (\<lambda>a. case a of
         Unknown t v \<Rightarrow>
           if t < 0x8000 \<and> t \<noteq> ATTR_MESSAGE_INTEGRITY_SHA256 \<and> t \<noteq> ATTR_PASSWORD_ALGORITHM then Some t else None
       | ChangeRequest ip port \<Rightarrow> if change_request_ok then None else Some ATTR_CHANGE_REQUEST
       | _ \<Rightarrow> None) (sm_attributes msg)"

definition reject_unknown_comprehension_required ::
  "stun_message \<Rightarrow> socket_addr \<Rightarrow> bool \<Rightarrow> acts option" where
  "reject_unknown_comprehension_required msg src change_request_ok =
     (let unknown = unknown_required change_request_ok msg
      in if unknown = [] then None
         else Some (sent (encode_plain 512
                (sm_add (build_error_response (sm_method msg) (sm_transaction_id msg) 420 ''Unknown Attribute'')
                   (UnknownAttributes unknown))) src))"

definition redirect_to :: "socket_addr \<Rightarrow> stun_message \<Rightarrow> socket_addr \<Rightarrow> acts" where
  "redirect_to alternate_addr msg src =
     sent (encode_plain 512 (build_redirect_response (sm_method msg) (sm_transaction_id msg) alternate_addr src)) src"

fun fmt_ip :: "ip_addr \<Rightarrow> string" where
  "fmt_ip (IpV4 a) = fmt_ipv4 a"
| "fmt_ip (IpV6 a) = fmt_ipv6 a"

definition redirect_key :: "socket_addr \<Rightarrow> string" where
  "redirect_key src = fmt_ip (sock_ip src) @ '':'' @ fmt_nat (unat (sock_port src))"

definition maybe_redirect_new_client :: "libs \<Rightarrow> stun_message \<Rightarrow> socket_addr \<Rightarrow> processor \<Rightarrow> acts option" where
  "maybe_redirect_new_client L msg src p =
     (case px_cluster p of
        None \<Rightarrow> None
      | Some routing \<Rightarrow>
          if st_get (px_store p) src \<noteq> None then None
          else
            let key = redirect_key src; draining = cl_draining routing
            in case (if draining then get_node_excluding (lb_xxh64 L) (cl_hash_ring routing) key (cl_local_node_id routing)
                     else get_node (lb_xxh64 L) (cl_hash_ring routing) key) of
                 None \<Rightarrow> None
               | Some target \<Rightarrow>
                   if \<not> draining \<and> cn_node_id target = cl_local_node_id routing then None
                   else Some (redirect_to (cn_turn_addr target) msg src))"

text \<open>A handler behind the limit of its method.\<close>

definition limited ::
  "(bucket_orders \<Rightarrow> instant \<Rightarrow> ip_addr \<Rightarrow> tiered_limiter \<Rightarrow> bool \<times> tiered_limiter) \<Rightarrow> readings \<Rightarrow> stun_message
     \<Rightarrow> socket_addr \<Rightarrow> (processor \<Rightarrow> acts \<times> processor) \<Rightarrow> processor \<Rightarrow> acts \<times> processor" where
  "limited check rd msg src handle p =
     (let (ok, p) = ask_limiter check rd src p
      in if ok then handle p
         else (encode_error msg src 486 ''Allocation Quota Reached'', note_rate_limited rd src p))"

definition route_stun ::
  "libs \<Rightarrow> readings \<Rightarrow> stun_message \<Rightarrow> bytes \<Rightarrow> socket_addr \<Rightarrow> bool \<Rightarrow> processor \<Rightarrow> acts \<times> processor" where
  "route_stun L rd msg raw src ingress_tcp p =
     (case (sm_class msg, sm_method msg) of
        (Request, M_Binding) \<Rightarrow> handle_binding L rd msg raw src p
      | (Request, M_Allocate) \<Rightarrow> limited check_allocate rd msg src (handle_allocate L rd msg raw src ingress_tcp) p
      | (Request, M_Refresh) \<Rightarrow> limited check_allocate rd msg src (handle_refresh L rd msg raw src) p
      | (Request, M_CreatePermission) \<Rightarrow>
          limited check_create_permission rd msg src (handle_create_permission L rd msg raw src) p
      | (Request, M_ChannelBind) \<Rightarrow> limited check_channel_bind rd msg src (handle_channel_bind L rd msg raw src) p
      | (Indication, M_Send) \<Rightarrow> handle_send_indication rd msg src p
      | _ \<Rightarrow> (Ok [NoAction], p))"

definition dispatch_stun ::
  "libs \<Rightarrow> readings \<Rightarrow> stun_message \<Rightarrow> bytes \<Rightarrow> socket_addr \<Rightarrow> bool \<Rightarrow> processor \<Rightarrow> acts \<times> processor" where
  "dispatch_stun L rd msg raw src ingress_tcp p =
     (if sm_class msg = Request
      then
        (case reject_unknown_comprehension_required msg src False of
           Some a \<Rightarrow> (a, p)
         | None \<Rightarrow>
             (case maybe_redirect_new_client L msg src p of
                Some a \<Rightarrow> (a, p)
              | None \<Rightarrow> route_stun L rd msg raw src ingress_tcp p))
      else route_stun L rd msg raw src ingress_tcp p)"

section \<open>Entry points\<close>

definition cacheable :: "stun_message \<Rightarrow> bytes \<Rightarrow> bool \<Rightarrow> bool" where
  "cacheable msg raw ingress_tcp =
     (\<not> ingress_tcp \<and> length raw \<le> 4096 \<and> sm_class msg = Request \<and> has_user_identity msg
      \<and> (sm_method msg = M_Refresh \<or> sm_method msg = M_Allocate \<and> get_requested_transport msg = Some 17))"

fun success_reply :: "socket_addr \<Rightarrow> action list \<Rightarrow> bytes option" where
  "success_reply src [] = None"
| "success_reply src (Send data target # as) =
     (if target = src \<and> length data \<ge> 20 \<and> data ! 0 AND 0x01 \<noteq> 0 \<and> data ! 1 AND 0x10 = 0 then Some data
      else success_reply src as)"
| "success_reply src (a # as) = success_reply src as"

definition set_cache :: "libs \<Rightarrow> socket_addr \<Rightarrow> utx_cache \<Rightarrow> processor \<Rightarrow> processor" where
  "set_cache L src cache p =
     p\<lparr>px_udp_transactions := (px_udp_transactions p)[utx_shard (lb_hash_addr L) src := cache]\<rparr>"

definition process_cached ::
  "libs \<Rightarrow> readings \<Rightarrow> stun_message \<Rightarrow> bytes \<Rightarrow> socket_addr \<Rightarrow> bool \<Rightarrow> processor \<Rightarrow> acts \<times> processor" where
  "process_cached L rd msg raw src ingress_tcp p =
     (case utx_lock (lb_hash_addr L) (px_udp_transactions p) src of
        Err (e :: proc_error) \<Rightarrow> (Err e, p)
      | Panic \<Rightarrow> (Panic, p)
      | Ok cache \<Rightarrow>
          let cache = utx_expire (fst (rd_cache rd)) cache; p = set_cache L src cache p in
          (case utx_lookup src raw cache of
             Err (e :: proc_error) \<Rightarrow> (Err e, p)
           | Panic \<Rightarrow> (Panic, p)
           | Ok (UtxReply data) \<Rightarrow> (Ok [Send data src], p)
           | Ok UtxConflict \<Rightarrow> (Ok [NoAction], p)
           | Ok UtxMiss \<Rightarrow>
               (case dispatch_stun L rd msg raw src ingress_tcp p of
                  (Ok actions, p) \<Rightarrow>
                    (case success_reply src actions of
                       None \<Rightarrow> (Ok actions, p)
                     | Some data \<Rightarrow>
                         (case utx_insert src raw data (snd (rd_cache rd)) cache of
                            Ok cache \<Rightarrow> (Ok actions, set_cache L src cache p)
                          | Err (e :: proc_error) \<Rightarrow> (Err e, p)
                          | Panic \<Rightarrow> (Panic, p)))
                | (r, p) \<Rightarrow> (r, p))))"

definition process_stun :: "libs \<Rightarrow> readings \<Rightarrow> bytes \<Rightarrow> socket_addr \<Rightarrow> bool \<Rightarrow> processor \<Rightarrow> acts \<times> processor" where
  "process_stun L rd raw src ingress_tcp p =
     (case StunMessage_decode raw of
        Err _ \<Rightarrow> (Ok [NoAction], p)
      | Panic \<Rightarrow> (Panic, p)
      | Ok msg \<Rightarrow>
          if cacheable msg raw ingress_tcp then process_cached L rd msg raw src ingress_tcp p
          else dispatch_stun L rd msg raw src ingress_tcp p)"

definition process_impl :: "libs \<Rightarrow> readings \<Rightarrow> bytes \<Rightarrow> socket_addr \<Rightarrow> bool \<Rightarrow> processor \<Rightarrow> acts \<times> processor" where
  "process_impl L rd raw src ingress_tcp p =
     (if banned rd src p then (Ok [NoAction], p)
      else if \<not> is_channel_data raw \<and> \<not> is_stun_message raw then (Ok [NoAction], p)
      else if is_channel_data raw then
        (let (ok, p) = ask_limiter check_ingress_ip rd src p
         in if \<not> ok then (Ok [NoAction], note_rate_limited rd src p) else process_channel_data rd raw src p)
      else
        (let (ok, p) = ask_limiter check_ingress rd src p
         in if \<not> ok then (Ok [NoAction], note_rate_limited rd src p) else process_stun L rd raw src ingress_tcp p))"

definition process :: "libs \<Rightarrow> readings \<Rightarrow> bytes \<Rightarrow> socket_addr \<Rightarrow> processor \<Rightarrow> acts \<times> processor" where
  "process L rd raw src p = process_impl L rd raw src False p"

definition process_tcp_control :: "libs \<Rightarrow> readings \<Rightarrow> bytes \<Rightarrow> socket_addr \<Rightarrow> processor \<Rightarrow> acts \<times> processor" where
  "process_tcp_control L rd raw src p = process_impl L rd raw src True p"

definition process_owned :: "libs \<Rightarrow> readings \<Rightarrow> bytes \<Rightarrow> socket_addr \<Rightarrow> processor \<Rightarrow> acts \<times> processor" where
  "process_owned L rd raw src p = process_impl L rd raw src False p"

definition process_slice :: "libs \<Rightarrow> readings \<Rightarrow> bytes \<Rightarrow> socket_addr \<Rightarrow> processor \<Rightarrow> acts \<times> processor" where
  "process_slice L rd raw src p =
     (if px_zerocopy p \<and> is_channel_data raw then
        (if banned rd src p then (Ok [NoAction], p)
         else
           let (ok, p) = ask_limiter check_ingress_ip rd src p
           in if \<not> ok then (Ok [NoAction], note_rate_limited rd src p)
              else
                case channel_data_decision rd raw src p of
                  (Some (offset, len, target, port), p) \<Rightarrow> (Ok [ForwardZeroCopy offset len target port], p)
                | (None, p) \<Rightarrow> (Ok [NoAction], p))
      else process L rd raw src p)"

definition release_for_closed_connection :: "readings \<Rightarrow> socket_addr \<Rightarrow> processor \<Rightarrow> acts \<times> processor" where
  "release_for_closed_connection rd client p =
     (case st_get (px_store p) client of
        None \<Rightarrow> (Ok [], p)
      | Some a \<Rightarrow>
          let (r, s) = st_refresh (rd_store rd 0) (rd_epoch_ms rd 0) client 0 (px_store p); p = p\<lparr>px_store := s\<rparr>
          in (case r of
                Ok _ \<Rightarrow> (Ok [CloseRelay (sock_port (al_relay_addr a))], p)
              | Err _ \<Rightarrow> (Ok [], p)
              | Panic \<Rightarrow> (Panic, p)))"

definition migrate_quic_allocation ::
  "readings \<Rightarrow> socket_addr \<Rightarrow> socket_addr \<Rightarrow> processor \<Rightarrow> unit session_res \<times> processor" where
  "migrate_quic_allocation rd old_addr new_addr p =
     (if old_addr = new_addr then (Ok (), p)
      else if st_get (px_store p) old_addr \<noteq> None
      then (case re_key (rd_epoch_ms rd 0) id id old_addr new_addr (px_store p) of
              (r, s) \<Rightarrow> (bind_res r (\<lambda>_. Ok ()), p\<lparr>px_store := s\<rparr>))
      else if st_get (px_store p) new_addr \<noteq> None then (Err MigrationTargetInUse, p)
      else (Ok (), p))"

end
