(* ===== verification/Nat_Discovery.thy ===== *)
theory Nat_Discovery
  imports Handlers
begin

text \<open>
  NAT behaviour discovery of RFC 5780: the four sockets (\<^verbatim>\<open>crates/relay/src/nat_discovery.rs\<close>) and
  the processor's answer to a Binding request on one of them (\<^verbatim>\<open>handle_nat_discovery\<close> of
  \<^verbatim>\<open>crates/relay/src/processor.rs\<close>). The lemmas show from which socket an answer leaves
  and that the four combinations of the CHANGE-REQUEST flags reach the four sockets.
\<close>

section \<open>The topology\<close>

record topology =
  nt_primary_ip :: ip_addr
  nt_alternate_ip :: ip_addr
  nt_primary_port :: u16
  nt_alternate_port :: u16

definition NatDiscoveryTopology_new :: "ip_addr \<Rightarrow> ip_addr \<Rightarrow> u16 \<Rightarrow> u16 \<Rightarrow> (string, topology) res" where
  "NatDiscoveryTopology_new primary_ip alternate_ip primary_port alternate_port =
     (if primary_ip = alternate_ip then Err ''primary_ip and alternate_ip must be different addresses''
      else if ip_is_ipv6 primary_ip \<noteq> ip_is_ipv6 alternate_ip
      then Err ''primary_ip and alternate_ip must be the same address family''
      else if is_unspecified primary_ip \<or> is_unspecified alternate_ip
      then Err ''primary_ip and alternate_ip must be concrete, not wildcard''
      else if primary_port = 0 \<or> alternate_port = 0 \<or> primary_port = alternate_port
      then Err ''primary_port and alternate_port must be non-zero and different''
      else Ok \<lparr> nt_primary_ip = primary_ip, nt_alternate_ip = alternate_ip,
                nt_primary_port = primary_port, nt_alternate_port = alternate_port \<rparr>)"

definition nt_sockets :: "topology \<Rightarrow> socket_addr list" where
  "nt_sockets t =
     [SocketAddr_new (nt_primary_ip t) (nt_primary_port t), SocketAddr_new (nt_primary_ip t) (nt_alternate_port t),
      SocketAddr_new (nt_alternate_ip t) (nt_primary_port t), SocketAddr_new (nt_alternate_ip t) (nt_alternate_port t)]"

definition other_ip :: "topology \<Rightarrow> ip_addr \<Rightarrow> ip_addr option" where
  "other_ip t ip =
     (if ip = nt_primary_ip t then Some (nt_alternate_ip t)
      else if ip = nt_alternate_ip t then Some (nt_primary_ip t) else None)"

definition other_port :: "topology \<Rightarrow> u16 \<Rightarrow> u16 option" where
  "other_port t port =
     (if port = nt_primary_port t then Some (nt_alternate_port t)
      else if port = nt_alternate_port t then Some (nt_primary_port t) else None)"

definition response_source :: "topology \<Rightarrow> socket_addr \<Rightarrow> bool \<Rightarrow> bool \<Rightarrow> socket_addr option" where
  "response_source t local change_ip change_port =
     (case (if change_ip then other_ip t (sock_ip local) else map_option (\<lambda>_. sock_ip local) (other_ip t (sock_ip local))) of
        None \<Rightarrow> None
      | Some ip \<Rightarrow>
          (case (if change_port then other_port t (sock_port local)
                 else map_option (\<lambda>_. sock_port local) (other_port t (sock_port local))) of
             None \<Rightarrow> None
           | Some port \<Rightarrow> Some (SocketAddr_new ip port)))"

definition other_address :: "topology \<Rightarrow> socket_addr \<Rightarrow> socket_addr option" where
  "other_address t local =
     (case (other_ip t (sock_ip local), other_port t (sock_port local)) of
        (Some ip, Some port) \<Rightarrow> Some (SocketAddr_new ip port) | _ \<Rightarrow> None)"

section \<open>The responder\<close>

type_synonym discovery = "(proc_error, (bytes \<times> socket_addr) option) res"

definition answered :: "(nat \<times> bytes) stun_res \<Rightarrow> socket_addr \<Rightarrow> discovery" where
  "answered r from_addr =
     (case r of Ok (len, buf) \<Rightarrow> Ok (Some (take len buf, from_addr)) | Err _ \<Rightarrow> Ok None | Panic \<Rightarrow> Panic)"

text \<open>The first datagram of the processor's actions, as the discovery service sends it.\<close>

fun first_sent :: "socket_addr \<Rightarrow> action list \<Rightarrow> (bytes \<times> socket_addr) option" where
  "first_sent local [] = None"
| "first_sent local (Send data _ # as) = Some (data, local)"
| "first_sent local (_ # as) = first_sent local as"

definition discovery_error ::
  "libs \<Rightarrow> readings \<Rightarrow> stun_message \<Rightarrow> socket_addr \<Rightarrow> socket_addr \<Rightarrow> u16 \<Rightarrow> string \<Rightarrow> bool \<Rightarrow> processor \<Rightarrow> discovery" where
  "discovery_error L rd msg src local code reason with_nonce p =
     (let resp = build_error_response (sm_method msg) (sm_transaction_id msg) code reason;
          resp = (if with_nonce
                  then sm_add (sm_add resp (Realm (default_realm (px_auth p))))
                         (Nonce (nm_issue (lb_crypto L) (px_nonce_mgr p) (rd_issue rd) src))
                  else resp)
      in answered (encode_plain 512 resp) local)"

definition discovery_challenge ::
  "libs \<Rightarrow> readings \<Rightarrow> stun_message \<Rightarrow> socket_addr \<Rightarrow> socket_addr \<Rightarrow> processor \<Rightarrow> discovery" where
  "discovery_challenge L rd msg src local p =
     answered (encode_plain 512 (build_auth_challenge (sm_method msg) (sm_transaction_id msg) (default_realm (px_auth p))
       (nm_issue (lb_crypto L) (px_nonce_mgr p) (rd_issue rd) src))) local"

text \<open>The checks of a request that carries integrity: the key that signs the answer, or the answer that ends it.\<close>

definition discovery_key ::
  "libs \<Rightarrow> readings \<Rightarrow> stun_message \<Rightarrow> bytes \<Rightarrow> socket_addr \<Rightarrow> socket_addr \<Rightarrow> processor
     \<Rightarrow> (discovery + bytes option) \<times> processor" where
  "discovery_key L rd msg raw src local p =
     (let failed = (\<lambda>code reason with_nonce p. (Inl (discovery_error L rd msg src local code reason with_nonce p), p)) in
      if \<not> has_integrity msg then (Inr None, p)
      else
        case get_nonce msg of
          None \<Rightarrow> failed 400 ''Bad Request'' False p
        | Some nonce \<Rightarrow>
            if \<not> has_user_identity msg \<or> get_realm msg = None then failed 400 ''Bad Request'' False p
            else if nm_validate (lb_crypto L) (px_nonce_mgr p) (rd_nonce rd) src nonce = NonceStale
            then failed 438 ''Stale Nonce'' True p
            else
              (case auth_validate L rd msg raw src True p of
                 (Ok r, p) \<Rightarrow> (Inr (Some (rs_key r)), p)
               | (Panic, p) \<Rightarrow> (Inl Panic, p)
               | (Err e, p) \<Rightarrow>
                   (case e of
                      AuthPending w \<Rightarrow> (Inl (Ok None), if wt_started w then note_offence rd src CredentialLookup p else p)
                    | AuthThrottled \<Rightarrow> failed 500 ''Server Error'' False (note_offence rd src CredentialLookup p)
                    | AuthUnavailable \<Rightarrow> failed 500 ''Server Error'' False p
                    | BadRequest \<Rightarrow> failed 400 ''Bad Request'' False p
                    | _ \<Rightarrow> (Inl (discovery_challenge L rd msg src local p), p))))"

definition discovery_reply ::
  "libs \<Rightarrow> stun_message \<Rightarrow> socket_addr \<Rightarrow> socket_addr \<Rightarrow> topology \<Rightarrow> bytes option \<Rightarrow> processor \<Rightarrow> discovery" where
  "discovery_reply L msg src local t signing_key p =
     (let (change_ip, change_port) = (case get_change_request msg of Some c \<Rightarrow> c | None \<Rightarrow> (False, False))
      in case (response_source t local change_ip change_port, other_address t local) of
           (Some from_addr, Some other) \<Rightarrow>
             let resp = with_transaction_id M_Binding SuccessResponse (sm_transaction_id msg);
                 resp = sm_add resp (XorMappedAddress src);
                 resp = sm_add resp (MappedAddress src);
                 resp = sm_add resp (ResponseOrigin from_addr);
                 resp = sm_add resp (OtherAddress other);
                 resp = add_software p resp
             in answered (case signing_key of
                            Some key \<Rightarrow> encode_with_integrity_auto L 512 resp key msg
                          | None \<Rightarrow> encode_plain 512 resp) from_addr
         | _ \<Rightarrow> Ok None)"

definition handle_nat_discovery ::
  "libs \<Rightarrow> readings \<Rightarrow> bytes \<Rightarrow> socket_addr \<Rightarrow> socket_addr \<Rightarrow> topology \<Rightarrow> processor \<Rightarrow> discovery \<times> processor" where
  "handle_nat_discovery L rd raw src local t p =
     (if \<not> is_stun_message raw then (Ok None, p)
      else
        let (ok, p) = ask_limiter check_ingress rd src p in
        if \<not> ok then (Ok None, p)
        else
          case StunMessage_decode raw of
            Err _ \<Rightarrow> (Ok None, p)
          | Panic \<Rightarrow> (Panic, p)
          | Ok msg \<Rightarrow>
              if \<not> (sm_class msg = Request \<and> sm_method msg = M_Binding) then (Ok None, p)
              else
                let (ok, p) = allow_unauth_reply rd src p in
                if \<not> ok then (Ok None, p)
                else
                  (case reject_unknown_comprehension_required msg src True of
                     Some a \<Rightarrow> (bind_res a (\<lambda>as. Ok (first_sent local as)), p)
                   | None \<Rightarrow>
                       (case discovery_key L rd msg raw src local p of
                          (Inl d, p) \<Rightarrow> (d, p)
                        | (Inr signing_key, p) \<Rightarrow> (discovery_reply L msg src local t signing_key p, p))))"

section \<open>Where an answer comes from\<close>

lemma topology_new:
  assumes "NatDiscoveryTopology_new a b x y = Ok t"
  shows "t = \<lparr> nt_primary_ip = a, nt_alternate_ip = b, nt_primary_port = x, nt_alternate_port = y \<rparr>"
    and "a \<noteq> b" "x \<noteq> y" "x \<noteq> 0" "y \<noteq> 0" "ip_is_ipv6 a = ip_is_ipv6 b" "\<not> is_unspecified a" "\<not> is_unspecified b"
  using assms by (auto simp: NatDiscoveryTopology_new_def split: if_splits)

lemma response_source_table:
  assumes "nt_primary_ip t \<noteq> nt_alternate_ip t" "nt_primary_port t \<noteq> nt_alternate_port t" "local \<in> set (nt_sockets t)"
  shows "\<exists>src other. response_source t local ci cp = Some src \<and> src \<in> set (nt_sockets t)
    \<and> (sock_ip src \<noteq> sock_ip local \<longleftrightarrow> ci) \<and> (sock_port src \<noteq> sock_port local \<longleftrightarrow> cp)
    \<and> other_address t local = Some other \<and> response_source t local True True = Some other
    \<and> sock_ip other \<noteq> sock_ip local \<and> sock_port other \<noteq> sock_port local"
  using assms
  by (cases ci; cases cp) (auto simp: nt_sockets_def response_source_def other_address_def other_ip_def other_port_def)

lemma response_source_stranger:
  assumes "response_source t local ci cp = Some src"
  shows "sock_ip local \<in> {nt_primary_ip t, nt_alternate_ip t}" "sock_port local \<in> {nt_primary_port t, nt_alternate_port t}"
    "src \<in> set (nt_sockets t)"
  using assms
  by (cases ci; cases cp;
      auto simp: response_source_def other_ip_def other_port_def nt_sockets_def split: if_splits option.splits)+


definition sample_topology :: topology where
  "sample_topology = \<lparr> nt_primary_ip = IpV4 0xC0000201, nt_alternate_ip = IpV4 0xC0000202,
     nt_primary_port = 3478, nt_alternate_port = 3479 \<rparr>"


end
