(* ===== verification/Processor_Frame.thy ===== *)
theory Processor_Frame
  imports Nat_Discovery
begin

text \<open>
  What the parts of the packet processor leave alone. Limits, bans, budgets and authentication change neither the allocation store nor
  the configuration; every handler keeps the configuration; and an authenticated request had a fresh nonce and credentials the registry accepted.
\<close>

section \<open>Configuration\<close>

definition same_config :: "processor \<Rightarrow> processor \<Rightarrow> bool" where
  "same_config p q \<longleftrightarrow> px_peer_env q = px_peer_env p \<and> px_peer_policy q = px_peer_policy p
     \<and> px_nonce_mgr q = px_nonce_mgr p \<and> px_migration q = px_migration p \<and> px_cluster q = px_cluster p
     \<and> px_tcp_relay q = px_tcp_relay p \<and> px_external_ip q = px_external_ip p
     \<and> px_external_ip6 q = px_external_ip6 p \<and> px_require_binding_auth q = px_require_binding_auth p"

definition idle :: "processor \<Rightarrow> processor \<Rightarrow> bool" where
  "idle p q \<longleftrightarrow> same_config p q \<and> px_store q = px_store p \<and> px_udp_transactions q = px_udp_transactions p"

lemma same_config_refl [simp]: "same_config p p"
  by (simp add: same_config_def)

lemma same_config_trans [trans]: "same_config p q \<Longrightarrow> same_config q r \<Longrightarrow> same_config p r"
  by (simp add: same_config_def)

lemma idle_refl [simp]: "idle p p"
  by (simp add: idle_def)

lemma idle_trans [trans]: "idle p q \<Longrightarrow> idle q r \<Longrightarrow> idle p r"
  by (auto simp: idle_def intro: same_config_trans)

lemma idleD: assumes "idle p q" shows "px_store q = px_store p" "same_config p q" "px_udp_transactions q = px_udp_transactions p"
  using assms by (simp_all add: idle_def)

lemma forbidden_same: "same_config p q \<Longrightarrow> forbidden_peer q = forbidden_peer p"
  by (simp add: same_config_def forbidden_peer_def fun_eq_iff)

lemma same_config_store [simp]: "same_config p (q\<lparr>px_store := s\<rparr>) = same_config p q" "same_config (p\<lparr>px_store := s\<rparr>) q = same_config p q"
  by (simp_all add: same_config_def)

lemma same_config_cache [simp]: "same_config p (set_cache L src c q) = same_config p q" "same_config (set_cache L src c p) q = same_config p q"
  by (simp_all add: same_config_def set_cache_def)

lemmas idle_unfold = idle_def same_config_def

section \<open>Limits and authentication\<close>

lemma within_capacity_idle: "idle p (snd (within_capacity rd n p))"
  by (auto simp: within_capacity_def idle_unfold split: option.split prod.split)

lemma note_offence_idle: "idle p (note_offence rd src off p)"
  by (auto simp: note_offence_def idle_unfold split: option.split)

lemma note_rate_limited_idle: "idle p (note_rate_limited rd src p)"
  by (simp add: note_rate_limited_def note_offence_idle)

lemma note_auth_failure_idle: "idle p (note_auth_failure rd src e p)"
  by (simp add: note_auth_failure_def note_offence_idle)

lemma admit_lookup_idle: "idle p (snd (admit_lookup rd src p))"
  by (auto simp: admit_lookup_def idle_unfold split: option.split prod.split)

lemma ask_limiter_idle: "idle p (snd (ask_limiter check rd src p))"
  by (auto simp: ask_limiter_def limiter_for_def idle_unfold Let_def split: option.split prod.split if_split)

lemma allow_unauth_reply_idle: "idle p (snd (allow_unauth_reply rd src p))"
  by (auto simp: allow_unauth_reply_def idle_unfold split: prod.split)

lemma encode_auth_challenge_idle: "idle p (snd (encode_auth_challenge L rd msg dst p))"
  using allow_unauth_reply_idle [of p rd dst]
  by (auto simp: encode_auth_challenge_def Let_def split: prod.splits)

lemma validate_nonce_idle: "idle p (snd (validate_nonce L rd msg dst p))"
  using encode_auth_challenge_idle [of p L rd msg dst]
  by (auto simp: validate_nonce_def split: option.split prod.splits nonce_status.split)

lemma auth_validate_idle: "idle p (snd (auth_validate L rd msg raw src fetch p))"
  using admit_lookup_idle [of p rd src]
  by (auto simp: auth_validate_def Let_def idle_unfold split: prod.splits if_splits)

lemma auth_deferred_idle: "idle p (snd (auth_deferred rd e msg src p))"
  by (auto simp: auth_deferred_def note_offence_idle split: auth_error.split)

text \<open>A nonce that was accepted, and credentials that were.\<close>

definition accepted :: "libs \<Rightarrow> readings \<Rightarrow> stun_message \<Rightarrow> bytes \<Rightarrow> socket_addr \<Rightarrow> auth_resolution \<Rightarrow> processor \<Rightarrow> bool" where
  "accepted L rd msg raw src r p \<longleftrightarrow>
     (\<exists>nonce. get_nonce msg = Some nonce \<and> nm_validate (lb_crypto L) (px_nonce_mgr p) (rd_nonce rd) src nonce = NonceValid)
     \<and> (\<exists>fetch. fst (validate_opts (lb_crypto L) msg raw fetch (rd_auth rd) (px_auth_globals p) (px_auth p)) = Ok r)"

lemma admit_lookup_auth:
  "px_auth (snd (admit_lookup rd src p)) = px_auth p" "px_auth_globals (snd (admit_lookup rd src p)) = px_auth_globals p"
  by (auto simp: admit_lookup_def split: option.split prod.split)

lemma auth_validate_accepts:
  assumes "fst (auth_validate L rd msg raw src fetch p) = Ok r"
  shows "\<exists>f. fst (validate_opts (lb_crypto L) msg raw f (rd_auth rd) (px_auth_globals p) (px_auth p)) = Ok r"
  using assms admit_lookup_auth [of rd src p]
  by (auto simp: auth_validate_def Let_def split: prod.splits if_splits) (metis fst_conv)+

lemma validate_nonce_fresh:
  assumes "validate_nonce L rd msg src p = (None, q)"
  shows "q = p" "\<exists>nonce. get_nonce msg = Some nonce
    \<and> nm_validate (lb_crypto L) (px_nonce_mgr p) (rd_nonce rd) src nonce = NonceValid"
  using assms by (auto simp: validate_nonce_def split: option.splits prod.splits nonce_status.splits)

lemma authenticate_idle: "idle p (snd (authenticate L rd msg raw src p))"
proof -
  have chal: "idle q (snd (encode_auth_challenge L rd msg src q))" for q by (rule encode_auth_challenge_idle)
  show ?thesis
  proof (cases "has_user_identity msg")
    case False
    then show ?thesis using chal [of p] by (auto simp: authenticate_def split: prod.split)
  next
    case True
    obtain n p1 where n: "validate_nonce L rd msg src p = (n, p1)" by fastforce
    have i1: "idle p p1" using validate_nonce_idle [of p L rd msg src] n by simp
    obtain v p2 where v: "auth_validate L rd msg raw src True p1 = (v, p2)" by fastforce
    have i2: "idle p1 p2" using auth_validate_idle [of p1 L rd msg raw src True] v by simp
    show ?thesis
    proof (cases v)
      case (Err e)
      obtain d p3 where d: "auth_deferred rd e msg src p2 = (d, p3)" by fastforce
      have i3: "idle p2 p3" using auth_deferred_idle [of p2 rd e msg src] d by simp
      let ?p4 = "note_auth_failure rd src e p3"
      have i12: "idle p p2" and i123: "idle p p3" using i1 i2 i3 by (blast intro: idle_trans)+
      have i4: "idle p ?p4" by (rule idle_trans [OF i123 note_auth_failure_idle])
      have i5: "idle p (snd (encode_auth_challenge L rd msg src ?p4))" by (rule idle_trans [OF i4 chal])
      show ?thesis using True n v d Err i1 i123 i4 i5
        by (auto simp: authenticate_def Let_def split: prod.split option.split if_split)
    qed (use True n v i1 i2 in \<open>auto simp: authenticate_def split: option.split intro: idle_trans\<close>)
  qed
qed

lemma authenticate_accepts:
  assumes "authenticate L rd msg raw src p = (Inr r, q)"
  shows "accepted L rd msg raw src r p" "has_user_identity msg"
proof -
  show id: "has_user_identity msg" using assms by (auto simp: authenticate_def split: prod.splits if_splits)
  obtain n p1 where n: "validate_nonce L rd msg src p = (n, p1)" by fastforce
  have "n = None" using assms id n by (auto simp: authenticate_def split: option.splits)
  note fresh = validate_nonce_fresh [OF n [unfolded \<open>n = None\<close>]]
  obtain v p2 where v: "auth_validate L rd msg raw src True p = (v, p2)" by fastforce
  have "v = Ok r" using assms id n \<open>n = None\<close> fresh(1) v
    by (auto simp: authenticate_def Let_def split: res.splits prod.splits option.splits if_splits)
  then show "accepted L rd msg raw src r p"
    using auth_validate_accepts [of L rd msg raw src True p r] v fresh(2) by (simp add: accepted_def)
qed

lemma binding_answer_idle: "idle p (snd (binding_answer L rd msg raw src p))"
proof (cases "has_integrity msg")
  case True
  obtain v p1 where v: "auth_validate L rd msg raw src (px_require_binding_auth p) p = (v, p1)" by fastforce
  have i1: "idle p p1" using auth_validate_idle [of p L rd msg raw src "px_require_binding_auth p"] v by simp
  show ?thesis
  proof (cases v)
    case (Err e)
    obtain d p2 where d: "auth_deferred rd e msg src p1 = (d, p2)" by fastforce
    have i2: "idle p p2" using idle_trans [OF i1] auth_deferred_idle [of p1 rd e msg src] d by simp
    have i3: "idle p (snd (encode_auth_challenge L rd msg src p2))" by (rule idle_trans [OF i2 encode_auth_challenge_idle])
    show ?thesis using True v Err d i2 i3 by (cases d) (simp_all add: binding_answer_def)
  qed (use True v i1 in \<open>auto simp: binding_answer_def\<close>)
qed (simp add: binding_answer_def)

lemma handle_binding_idle: "idle p (snd (handle_binding L rd msg raw src p))"
proof -
  obtain ok p1 where a: "allow_unauth_reply rd src p = (ok, p1)" by fastforce
  have i1: "idle p p1" using allow_unauth_reply_idle [of p rd src] a by simp
  obtain n p2 where n: "validate_nonce L rd msg src p1 = (n, p2)" by fastforce
  have i2: "idle p p2" using idle_trans [OF i1] validate_nonce_idle [of p1 L rd msg src] n by simp
  show ?thesis
    using i1 i2 idle_trans [OF i1 encode_auth_challenge_idle [of p1 L rd msg src]]
      idle_trans [OF i1 binding_answer_idle [of p1 L rd msg raw src]] idle_trans [OF i2 binding_answer_idle [of p2 L rd msg raw src]]
    by (cases n) (simp_all add: handle_binding_def a n)
qed

section \<open>Responses\<close>

text \<open>A response carries nothing to a peer.\<close>

fun to_peer :: "action \<Rightarrow> (socket_addr \<times> u16) option" where
  "to_peer (Forward data target port) = Some (target, port)"
| "to_peer (ForwardZeroCopy off n target port) = Some (target, port)"
| "to_peer (SendViaRelay data target port) = Some (target, port)"
| "to_peer _ = None"

definition quiet :: "acts \<Rightarrow> bool" where
  "quiet r \<longleftrightarrow> (\<forall>as. r = Ok as \<longrightarrow> (\<forall>x \<in> set as. to_peer x = None))"

lemma quiet_simps [simp]: "quiet (Ok [NoAction])" "quiet Panic" "quiet (Err e)" "quiet (Ok [Send d t])" "quiet (Ok [])"
  "quiet (Ok [AwaitCredentials w])"
  by (simp_all add: quiet_def)

lemma sent_among_quiet:
  "\<forall>x \<in> set before. to_peer x = None \<Longrightarrow> \<forall>x \<in> set after. to_peer x = None \<Longrightarrow> quiet (sent_among before after r dst)"
  by (auto simp: sent_among_def quiet_def split: res.splits)

lemma sent_quiet [simp]: "quiet (sent r dst)"
  by (simp add: sent_def sent_among_quiet)

lemma encode_error_quiet [simp]: "quiet (encode_error msg dst code reason)"
  by (simp add: encode_error_def)

lemma encode_auth_challenge_quiet: "quiet (fst (encode_auth_challenge L rd msg dst p))"
  by (auto simp: encode_auth_challenge_def Let_def split: prod.splits)

lemma encode_stale_nonce_quiet [simp]: "quiet (encode_stale_nonce L rd msg dst p)"
  by (simp add: encode_stale_nonce_def Let_def)

lemma validate_nonce_quiet: "validate_nonce L rd msg dst p = (Some a, q) \<Longrightarrow> quiet a"
  using encode_auth_challenge_quiet [of L rd msg dst p]
  by (auto simp: validate_nonce_def split: option.splits prod.splits nonce_status.splits)

lemma auth_deferred_quiet: "auth_deferred rd e msg src p = (Some a, q) \<Longrightarrow> quiet a"
  by (auto simp: auth_deferred_def split: auth_error.splits)

lemma authenticate_quiet:
  assumes "authenticate L rd msg raw src p = (Inl a, q)"
  shows "quiet a"
proof (cases "has_user_identity msg")
  case False
  then show ?thesis using assms encode_auth_challenge_quiet [of L rd msg src p]
    by (auto simp: authenticate_def split: prod.splits)
next
  case True
  obtain n p1 where n: "validate_nonce L rd msg src p = (n, p1)" by fastforce
  obtain v p2 where v: "auth_validate L rd msg raw src True p1 = (v, p2)" by fastforce
  show ?thesis
  proof (cases n)
    case (Some st)
    then show ?thesis using assms True n validate_nonce_quiet [of L rd msg src p st p1]
      by (auto simp: authenticate_def)
  next
    case None
    show ?thesis
    proof (cases v)
      case (Err e)
      obtain d p3 where d: "auth_deferred rd e msg src p2 = (d, p3)" by fastforce
      then show ?thesis
        using assms True n None v Err auth_deferred_quiet [of rd e msg src p2 _ p3]
          encode_auth_challenge_quiet [of L rd msg src "note_auth_failure rd src e p3"]
        by (auto simp: authenticate_def Let_def split: prod.splits option.splits if_splits)
    qed (use assms True n None v in \<open>auto simp: authenticate_def\<close>)
  qed
qed

end
