(* ===== verification/Processor_Effects.thy ===== *)
theory Processor_Effects
  imports Processor_Frame
begin

text \<open>
  What the packet processor does to the allocation store. Every handler changes the store only through the operations the store offers, so
  that a relation between stores that each of these operations keeps is kept by every packet. The locale \<open>store_effects\<close> is
  this interface: the relation, the peers an operation may admit, and the readings under which a port is
  acquired. It is interpreted on the store's own step relation, which carries the store's invariants over to the processor, and on the
  property that every permission and every channel names an admissible peer.
\<close>

section \<open>Events\<close>

text \<open>The ways in which the datapath calls the processor.\<close>

datatype event =
    Datagram bytes socket_addr
  | Control bytes socket_addr
  | Session bytes socket_addr
  | Slice bytes socket_addr
  | FromPeer bytes socket_addr socket_addr
  | Closed socket_addr
  | Rekeyed socket_addr socket_addr

fun serve :: "libs \<Rightarrow> readings \<Rightarrow> event \<Rightarrow> processor \<Rightarrow> acts \<times> processor" where
  "serve L rd (Datagram raw src) p = process L rd raw src p"
| "serve L rd (Control raw src) p = process_tcp_control L rd raw src p"
| "serve L rd (Session raw src) p = process_owned L rd raw src p"
| "serve L rd (Slice raw src) p = process_slice L rd raw src p"
| "serve L rd (FromPeer data peer relay) p = process_relay_recv rd data peer relay p"
| "serve L rd (Closed client) p = release_for_closed_connection rd client p"
| "serve L rd (Rekeyed old_addr new_addr) p =
     (case migrate_quic_allocation rd old_addr new_addr p of (r, p) \<Rightarrow> (if r = Panic then Panic else Ok [], p))"

section \<open>The interface\<close>

locale store_effects =
  fixes R :: "allocation_store \<Rightarrow> allocation_store \<Rightarrow> bool"
    and Q :: "ip_addr \<Rightarrow> bool"
    and ready :: "readings \<Rightarrow> allocation_store \<Rightarrow> bool"
  assumes e_refl [simp]: "R s s"
    and e_trans [trans]: "R s s' \<Longrightarrow> R s' s'' \<Longrightarrow> R s s''"
    and e_refresh: "R s (snd (st_refresh now ms c l s))"
    and e_re_key: "R s (snd (re_key ms id id old_addr new_addr s))"
    and e_transport: "R s (snd (set_transport c tr s))"
    and e_permission: "Q ip \<Longrightarrow> R s (snd (st_add_permission now ms c ip s))"
    and e_channel: "Q (sock_ip peer) \<Longrightarrow> R s (snd (st_add_channel now ms c ch peer s))"
    and e_gate: "st_get s c = Some a \<Longrightarrow> R s (snd (bandwidth_gate now c a s))"
    and e_packet: "R s (st_count_packet d n c s)"
    and e_no_port: "ready rd s \<Longrightarrow> acquire_port rd msg family (pool s t) = Some (None, pa) \<Longrightarrow> R s (upd_pool t (\<lambda>_. pa) s)"
    and e_no_port_tcp: "pa_allocate (pool s t) = Some (q, pa) \<Longrightarrow> (\<forall>port. q \<noteq> Ok port) \<Longrightarrow> R s (upd_pool t (\<lambda>_. pa) s)"
    and e_abort: "ready rd s \<Longrightarrow> acquire_port rd msg family (pool s t) = Some (Some (port, tok), pa)
      \<Longrightarrow> R s (finish_allocate port tok (Err e) (upd_pool t (\<lambda>_. pa) s))"
    and e_abort_tcp: "pa_allocate (pool s t) = Some (Ok port, pa)
      \<Longrightarrow> R s (finish_allocate port None (Err e) (upd_pool t (\<lambda>_. pa) s))"
    and e_create: "ready rd s \<Longrightarrow> acquire_port rd msg family (pool s t) = Some (Some (sock_port rel, tok), pa)
      \<Longrightarrow> create_for_identity now ms ep c rel u key l realm t (upd_pool t (\<lambda>_. pa) s) = (r, s1)
      \<Longrightarrow> R s (finish_allocate (sock_port rel) tok r s1)"
    and e_create_tcp: "ready rd s \<Longrightarrow> pa_allocate (pool s t) = Some (Ok (sock_port rel), pa)
      \<Longrightarrow> create_for_identity now ms ep c rel u key l realm t (upd_pool t (\<lambda>_. pa) s) = (r, s1)
      \<Longrightarrow> R s (finish_allocate (sock_port rel) None r s1)"
begin

text \<open>The step a handler takes on the store, and the same where the limits and the authentication did something before.\<close>

definition effect :: "processor \<Rightarrow> acts \<times> processor \<Rightarrow> bool" where
  "effect p o_p \<longleftrightarrow> R (px_store p) (px_store (snd o_p)) \<and> same_config p (snd o_p)"

lemma effect_idle: "idle p q \<Longrightarrow> effect p (a, q)"
  by (simp add: effect_def idle_def)

lemma effect_after: "idle p q \<Longrightarrow> effect q r \<Longrightarrow> effect p r"
  by (auto simp: effect_def idle_def intro: same_config_trans)

lemma effect_refl [simp]: "effect p (a, p)"
  by (simp add: effect_def)

lemma effect_store: "R (px_store p) s \<Longrightarrow> effect p (a, p\<lparr>px_store := s\<rparr>)"
  by (simp add: effect_def)

lemma admissible_after: "idle p q \<Longrightarrow> \<forall>ip. \<not> forbidden_peer p ip \<longrightarrow> Q ip \<Longrightarrow> \<forall>ip. \<not> forbidden_peer q ip \<longrightarrow> Q ip"
  using forbidden_same [of p q] by (simp add: idle_def)

section \<open>Relaying\<close>

lemma relay_gates_effect:
  assumes "st_get (px_store p) c = Some a"
  shows "effect p (b, snd (relay_gates rd d c a n p))"
proof -
  obtain ok s where g: "bandwidth_gate (rd_store rd 2) c a (px_store p) = (ok, s)" by fastforce
  have s: "R (px_store p) s" using e_gate [OF assms, of "rd_store rd 2"] g by simp
  obtain ok' q where w: "within_capacity rd n (p\<lparr>px_store := s\<rparr>) = (ok', q)" by fastforce
  have "idle (p\<lparr>px_store := s\<rparr>) q" using within_capacity_idle [of "p\<lparr>px_store := s\<rparr>" rd n] w by simp
  then have q: "same_config p q" "px_store q = s" by (simp_all add: idle_def)
  show ?thesis using s q e_trans [OF s e_packet [of s d "of_nat n" c]]
    by (simp add: relay_gates_def g w effect_def Let_def)
qed

lemma channel_data_effect: "effect p (b, snd (channel_data_decision rd raw src p))"
proof -
  have "effect p (b, snd (relay_gates rd False src a n p))" if "st_get (px_store p) src = Some a" for a n
    by (rule relay_gates_effect [OF that])
  then show ?thesis
    by (auto simp: channel_data_decision_def effect_def split: res.split option.split prod.split if_split) (metis snd_conv)+
qed

lemma process_channel_data_effect: "effect p (process_channel_data rd raw src p)"
  using channel_data_effect [of p _ rd raw src]
  by (auto simp: process_channel_data_def effect_def split: prod.splits option.splits)

lemma process_relay_recv_effect: "effect p (process_relay_recv rd data peer relay p)"
proof -
  have "effect p (b, snd (relay_gates rd True c a n p))" if "st_get (px_store p) c = Some a" for b c a n
    by (rule relay_gates_effect [OF that])
  then show ?thesis
    by (auto simp: process_relay_recv_def Let_def effect_def split: option.split prod.split if_split) (metis snd_conv)+
qed

lemma send_indication_effect: "effect p (handle_send_indication rd msg src p)"
proof -
  have "effect p (b, snd (relay_gates rd False src a n p))" if "st_get (px_store p) src = Some a" for b a n
    by (rule relay_gates_effect [OF that])
  then show ?thesis
    by (auto simp: handle_send_indication_def Let_def effect_def split: option.split prod.split if_split) (metis snd_conv)+
qed

section \<open>Requests\<close>

lemma handle_binding_effect: "effect p (handle_binding L rd msg raw src p)"
  using handle_binding_idle [of p L rd msg raw src] by (auto simp: effect_def idle_def)

lemma authenticated_effect:
  assumes "\<And>r q. idle p q \<Longrightarrow> effect q (f r q)"
  shows "effect p (case authenticate L rd msg raw src p of (Inl a, p) \<Rightarrow> (a, p) | (Inr r, p) \<Rightarrow> f r p)"
proof -
  obtain v q where v: "authenticate L rd msg raw src p = (v, q)" by fastforce
  have i: "idle p q" using authenticate_idle [of p L rd msg raw src] v by simp
  show ?thesis using effect_idle [OF i] effect_after [OF i assms [OF i]] by (cases v) (simp_all add: v)
qed

lemma allocate_udp_effect:
  assumes "ready rd (px_store p)" "relay_ip family p \<noteq> None"
  shows "effect p (handle_allocate_udp L rd msg src r family p)"
proof -
  let ?s = "px_store p" and ?t = "rs_tenant_id r"
  obtain ip where ip: "relay_ip family p = Some ip" using assms(2) by blast
  show ?thesis
  proof (cases "acquire_port rd msg family (pool ?s ?t)")
    case None
    then show ?thesis by (simp add: handle_allocate_udp_def)
  next
    case (Some x)
    obtain y pa where x: "x = (y, pa)" by fastforce
    show ?thesis
    proof (cases y)
      case None
      then show ?thesis using Some x effect_store [OF e_no_port [OF assms(1)]] by (simp add: handle_allocate_udp_def)
    next
      case (Some z)
      obtain port tok where z: "z = (port, tok)" by fastforce
      note acq = \<open>acquire_port rd msg family (pool ?s ?t) = Some x\<close> [unfolded x Some z]
      let ?s1 = "upd_pool ?t (\<lambda>_. pa) ?s" and ?rel = "SocketAddr_new ip port"
      obtain dl dis where pol: "lifetime_policy_for_user ?s1 (rs_realm r) ?t (rs_subject r) = (dl, dis)" by fastforce
      let ?l = "capped_lifetime dl (granted_lifetime (rs_max_lifetime_secs r) msg)"
      obtain cr s2 where cr: "create_for_identity (rd_store rd 1) (rd_created_ms rd) (rd_epoch_ms rd 0) src ?rel
        (rs_subject r) (rs_key r) ?l (rs_realm r) ?t ?s1 = (cr, s2)" by fastforce
      have abort: "effect p (b, p\<lparr>px_store := finish_allocate port tok (Err LimitExceeded) ?s1\<rparr>)" for b
        by (rule effect_store [OF e_abort [OF assms(1) acq]])
      have create: "effect p (b, p\<lparr>px_store := finish_allocate port tok cr s2\<rparr>)" for b
        using effect_store [OF e_create [OF assms(1), of msg family ?t ?rel tok pa, OF _ cr]] acq by simp
      show ?thesis using abort create
        by (cases cr) (simp_all add: handle_allocate_udp_def acq ip pol cr Let_def del: One_nat_def)
    qed
  qed
qed

lemma create_tcp_effect:
  assumes "ready rd (px_store p)"
  shows "effect p (create_tcp L rd msg src r family l p)"
proof (cases "pa_allocate (pool (px_store p) (rs_tenant_id r))")
  case None
  then show ?thesis by (simp add: create_tcp_def)
next
  case (Some x)
  let ?s = "px_store p" and ?t = "rs_tenant_id r"
  obtain q pa where x: "x = (q, pa)" by fastforce
  note al = Some [unfolded x]
  show ?thesis
  proof (cases q)
    case (Ok port)
    note al = al [unfolded Ok]
    let ?s1 = "upd_pool ?t (\<lambda>_. pa) ?s" and ?rel = "tcp_relay_addr family port p"
    obtain cr s2 where cr: "create_for_identity (rd_store rd 1) (rd_created_ms rd) (rd_epoch_ms rd 0) src ?rel
      (rs_subject r) (rs_key r) l (rs_realm r) ?t ?s1 = (cr, s2)" by fastforce
    have abort: "effect p (b, p\<lparr>px_store := finish_allocate port None (Err NoPortsAvailable) ?s1\<rparr>)" for b
      by (rule effect_store [OF e_abort_tcp [OF al]])
    have c: "R ?s (finish_allocate port None cr s2)"
      using e_create_tcp [OF assms, of ?t ?rel pa, OF _ cr] al by (simp add: tcp_relay_addr_def)
    have create: "effect p (b, p\<lparr>px_store := finish_allocate port None cr s2\<rparr>)"
      "effect p (b, p\<lparr>px_store := snd (set_transport src Tcp (finish_allocate port None cr s2))\<rparr>)" for b
      using effect_store [OF c] effect_store [OF e_trans [OF c e_transport]] by blast+
    show ?thesis using abort create by (cases cr) (simp_all add: create_tcp_def al cr Let_def del: One_nat_def)
  qed (use al effect_store [OF e_no_port_tcp [OF al]] in \<open>simp_all add: create_tcp_def\<close>)
qed

lemma allocate_tcp_effect:
  assumes "ready rd (px_store p)"
  shows "effect p (handle_allocate_tcp L rd msg src r p)"
  using create_tcp_effect [OF assms] by (auto simp: handle_allocate_tcp_def Let_def split: prod.split)

lemma allocate_for_effect:
  assumes "ready rd (px_store p)"
  shows "effect p (allocate_for L rd msg src tcp r p)"
  using allocate_tcp_effect [OF assms] allocate_udp_effect [OF assms]
  by (auto simp: allocate_for_def Let_def relay_ip_def)

lemma plain_refresh_effect: "effect p (plain_refresh L rd msg src key l p)"
  using e_refresh [of "px_store p" "rd_store rd 2" "rd_epoch_ms rd 2" src l]
  by (auto simp: plain_refresh_def Let_def effect_def split: prod.split res.split)

lemma try_migration_effect: "effect p (b, snd (try_migration_refresh L rd msg src key l p))"
proof -
  have "R (px_store p) (px_store (snd (try_migration_refresh L rd msg src key l p)))
    \<and> same_config p (snd (try_migration_refresh L rd msg src key l p))"
  proof -
    have rk: "R (px_store p) s" if "re_key ms id id old_addr src (px_store p) = (x, s)" for ms old_addr x s
      using e_re_key [of "px_store p" ms old_addr src] that by simp
    have rf: "R (px_store p) s'" if "re_key ms id id old_addr src (px_store p) = (x, s)" "st_refresh now ms' src l s = (y, s')"
      for ms old_addr x s now ms' y s'
      using e_trans [OF rk [OF that(1)] e_refresh [of s now ms' src l]] that(2) by simp
    show ?thesis
      by (auto simp: try_migration_refresh_def Let_def split: option.split prod.split res.split intro: rk rf)
  qed
  then show ?thesis by (simp add: effect_def)
qed

lemma refresh_for_effect: "effect p (refresh_for L rd msg src r p)"
proof -
  have "effect p (case try_migration_refresh L rd msg src (rs_key r) l p of
      (Some a, p) \<Rightarrow> (a, p) | (None, p) \<Rightarrow> plain_refresh L rd msg src (rs_key r) l p)" for l
  proof -
    obtain m q where m: "try_migration_refresh L rd msg src (rs_key r) l p = (m, q)" by fastforce
    have q: "effect p (b, q)" for b using try_migration_effect [of p b L rd msg src "rs_key r" l] m by simp
    have "effect p (plain_refresh L rd msg src (rs_key r) l q)"
      using q plain_refresh_effect [of q L rd msg src "rs_key r" l] e_trans same_config_trans
      unfolding effect_def snd_conv by blast
    then show ?thesis using m q by (cases m) simp_all
  qed
  then show ?thesis using plain_refresh_effect
    by (simp add: refresh_for_def Let_def split: prod.split)
qed

lemma install_effect:
  assumes "\<forall>ip \<in> set ips. Q ip"
  shows "R s (snd (install_permissions rd i src ips s))"
  using assms
proof (induction ips arbitrary: i s)
  case (Cons ip ips)
  obtain r s1 where a: "st_add_permission (rd_store rd i) (rd_epoch_ms rd i) src ip s = (r, s1)" by fastforce
  have s1: "R s s1" using e_permission [of ip s "rd_store rd i" "rd_epoch_ms rd i" src] a Cons.prems by simp
  show ?case using a s1 e_trans [OF s1 Cons.IH [of s1 "i + 1"]] Cons.prems by (cases r) simp_all
qed simp

lemma peer_refusal_none: "peer_refusal p src ips = None \<Longrightarrow> ip \<in> set ips \<Longrightarrow> \<not> forbidden_peer p ip"
  by (induction ips) (auto split: if_splits)

lemma permit_for_effect:
  assumes "\<forall>ip. \<not> forbidden_peer p ip \<longrightarrow> Q ip"
  shows "effect p (permit_for L rd msg src key p)"
proof (cases "peer_refusal p src (requested_peers msg)")
  case None
  have "R (px_store p) (snd (install_permissions rd 0 src (requested_peers msg) (px_store p)))"
    using install_effect assms peer_refusal_none [OF None] by blast
  then show ?thesis using None
    by (auto simp: permit_for_def Let_def effect_def split: prod.split res.split session_error.split)
qed (auto simp: permit_for_def Let_def split: prod.split)

lemma bind_for_effect:
  assumes "\<forall>ip. \<not> forbidden_peer p ip \<longrightarrow> Q ip"
  shows "effect p (bind_for L rd msg src key p)"
proof (cases "(get_channel_number msg, get_xor_peer_address msg)")
  case (Pair c q)
  show ?thesis
  proof (cases "\<exists>ch peer. c = Some ch \<and> q = Some peer")
    case True
    then obtain ch peer where cq: "c = Some ch" "q = Some peer" by blast
    let ?peer = "normalize_addr peer"
    have "R (px_store p) (snd (st_add_channel (rd_store rd 0) (rd_epoch_ms rd 0) src ch ?peer (px_store p)))"
      if "\<not> forbidden_peer p (sock_ip ?peer)"
      using e_channel assms that by blast
    then show ?thesis using Pair cq
      by (auto simp: bind_for_def Let_def effect_def split: prod.split res.split session_error.split)
  qed (use Pair in \<open>auto simp: bind_for_def split: option.split\<close>)
qed

lemma limited_effect:
  assumes "\<And>q. idle p q \<Longrightarrow> effect q (f q)"
  shows "effect p (limited check rd msg src f p)"
proof -
  obtain ok q where a: "ask_limiter check rd src p = (ok, q)" by fastforce
  have i: "idle p q" using ask_limiter_idle [of p check rd src] a by simp
  show ?thesis using effect_after [OF i assms [OF i]] effect_idle [OF idle_trans [OF i note_rate_limited_idle]]
    by (simp add: limited_def a)
qed

lemma route_effect:
  assumes "ready rd (px_store p)" "\<forall>ip. \<not> forbidden_peer p ip \<longrightarrow> Q ip"
  shows "effect p (route_stun L rd msg raw src tcp p)"
proof -
  have al: "effect q (handle_allocate L rd msg raw src tcp q)" if "idle p q" for q
    unfolding handle_allocate_def using assms(1) idleD(1) [OF idle_trans [OF that]]
    by (intro authenticated_effect allocate_for_effect) simp
  have rf: "effect q (handle_refresh L rd msg raw src q)" for q
    unfolding handle_refresh_def by (intro authenticated_effect refresh_for_effect)
  have cp: "effect q (handle_create_permission L rd msg raw src q)" if "idle p q" for q
    unfolding handle_create_permission_def
    by (intro authenticated_effect permit_for_effect admissible_after [OF idle_trans [OF that] assms(2)])
  have cb: "effect q (handle_channel_bind L rd msg raw src q)" if "idle p q" for q
    unfolding handle_channel_bind_def
    by (intro authenticated_effect bind_for_effect admissible_after [OF idle_trans [OF that] assms(2)])
  show ?thesis
    using limited_effect [OF al] limited_effect [OF rf] limited_effect [OF cp] limited_effect [OF cb]
      handle_binding_effect send_indication_effect
    by (auto simp: route_stun_def split: message_class.split stun_method.split)
qed

lemma dispatch_effect:
  assumes "ready rd (px_store p)" "\<forall>ip. \<not> forbidden_peer p ip \<longrightarrow> Q ip"
  shows "effect p (dispatch_stun L rd msg raw src tcp p)"
  using route_effect [OF assms] by (auto simp: dispatch_stun_def split: option.split)

lemma process_cached_effect:
  assumes "ready rd (px_store p)" "\<forall>ip. \<not> forbidden_peer p ip \<longrightarrow> Q ip"
  shows "effect p (process_cached L rd msg raw src tcp p)"
proof (cases "utx_lock (lb_hash_addr L) (px_udp_transactions p) src :: (proc_error, utx_cache) res")
  case (Ok c)
  let ?c = "utx_expire (fst (rd_cache rd)) c"
  let ?p = "set_cache L src ?c p"
  have st: "px_store (set_cache L src c' q) = px_store q" for c' q by (simp add: set_cache_def)
  have f: "forbidden_peer ?p = forbidden_peer p" by (rule forbidden_same) simp
  have eff: "effect ?p (dispatch_stun L rd msg raw src tcp ?p)"
    by (rule dispatch_effect) (use assms in \<open>simp_all add: st f\<close>)
  obtain a q where d: "dispatch_stun L rd msg raw src tcp ?p = (a, q)" by fastforce
  have q: "R (px_store p) (px_store q)" "same_config p q" using eff d by (simp_all add: effect_def st)
  show ?thesis
    using q by (auto simp: process_cached_def Ok d effect_def st Let_def split: res.split utx_lookup.split option.split)
qed (simp_all add: process_cached_def)

lemma process_impl_effect:
  assumes "ready rd (px_store p)" "\<forall>ip. \<not> forbidden_peer p ip \<longrightarrow> Q ip"
  shows "effect p (process_impl L rd raw src tcp p)"
proof -
  have st: "effect q (process_stun L rd raw src tcp q)" if i: "idle p q" for q
  proof -
    have r: "ready rd (px_store q)" using assms(1) idleD(1) [OF i] by simp
    note a = admissible_after [OF i assms(2)]
    show ?thesis using process_cached_effect [OF r a] dispatch_effect [OF r a]
      by (auto simp: process_stun_def split: res.split)
  qed
  have gate: "effect p (let (ok, q) = ask_limiter check rd src p
      in if \<not> ok then (Ok [NoAction], note_rate_limited rd src q) else f q)"
    if "\<And>q. idle p q \<Longrightarrow> effect q (f q)" for check f
  proof -
    obtain ok q where a: "ask_limiter check rd src p = (ok, q)" by fastforce
    have i: "idle p q" using ask_limiter_idle [of p check rd src] a by simp
    show ?thesis using effect_after [OF i that [OF i]] effect_idle [OF idle_trans [OF i note_rate_limited_idle]]
      by (simp add: a)
  qed
  show ?thesis using gate [OF st] gate [OF process_channel_data_effect] by (simp add: process_impl_def)
qed

lemma process_slice_effect:
  assumes "ready rd (px_store p)" "\<forall>ip. \<not> forbidden_peer p ip \<longrightarrow> Q ip"
  shows "effect p (process_slice L rd raw src p)"
proof -
  obtain ok q where a: "ask_limiter check_ingress_ip rd src p = (ok, q)" by fastforce
  have i: "idle p q" using ask_limiter_idle [of p check_ingress_ip rd src] a by simp
  have e: "effect p (b, snd (channel_data_decision rd raw src q))" for b
    by (rule effect_after [OF i channel_data_effect])
  have n: "effect p (b, note_rate_limited rd src q)" for b by (rule effect_idle [OF idle_trans [OF i note_rate_limited_idle]])
  show ?thesis using e n process_impl_effect [OF assms]
    by (auto simp: process_slice_def process_def a split: prod.split option.split)
qed

theorem serve_effect:
  assumes "ready rd (px_store p)" "\<forall>ip. \<not> forbidden_peer p ip \<longrightarrow> Q ip"
  shows "effect p (serve L rd ev p)"
proof (cases ev)
  case (Closed client)
  show ?thesis using e_refresh [of "px_store p" "rd_store rd 0" "rd_epoch_ms rd 0" client 0]
    by (auto simp: Closed release_for_closed_connection_def Let_def effect_def split: option.split prod.split res.split)
next
  case (Rekeyed old_addr new_addr)
  show ?thesis using e_re_key [of "px_store p" "rd_epoch_ms rd 0" old_addr new_addr]
    by (auto simp: Rekeyed migrate_quic_allocation_def effect_def split: prod.splits if_splits)
qed (use process_impl_effect [OF assms] process_slice_effect [OF assms] process_relay_recv_effect in
     \<open>simp_all add: process_def process_tcp_control_def process_owned_def\<close>)

end

end
