(* ===== verification/Processor_Safety.thy ===== *)
theory Processor_Safety
  imports Processor_Effects
begin

text \<open>
  The properties of the packet processor as a whole, proved once for every event of the datapath through the interface of
  \<open>Processor_Effects\<close>.
\<close>

section \<open>The store's own steps\<close>

text \<open>The readings under which Allocate takes a step of the store: the id counter has not wrapped and no drawn token is in use.\<close>

definition fresh_readings :: "readings \<Rightarrow> allocation_store \<Rightarrow> bool" where
  "fresh_readings rd s \<longleftrightarrow> unat (st_next_id s) + 1 < 2 ^ 64
     \<and> (\<forall>t. \<forall>i < 64. rd_token rd i |\<notin>| fmdom (pa_reservations (pool s t)))"

lemma bandwidth_gate_step:
  assumes "st_get s c = Some a"
  shows "snd (bandwidth_gate now c a s) = snd (st_check_bandwidth now c s)"
  using assms unat_gt_0
  by (auto simp: bandwidth_gate_def st_check_bandwidth_def st_get_def word_gt_0 split: prod.split res.split)

lemma acquire_port_acquired:
  assumes "fresh_readings rd s" "acquire_port rd msg family (pool s t) = Some (r, pa)"
  shows "acquired (pool s t) (map_option fst r) pa"
proof (cases "get_reservation_token msg")
  case (Some tok)
  then have "acquire_claim (rd_bind rd 0) tok (rd_store rd 0) FamV4 (pool s t) (map_option fst r) pa"
    using assms(2) by (auto simp: acquire_port_def acquire_claim_def claim_and_bind_def option.map_comp o_def option.map_ident split: prod.splits)
  then show ?thesis unfolding acquired_def by blast
next
  case no_token: None
  show ?thesis
  proof (cases "get_even_port msg")
    case (Some reserve)
    then have "acquire_even (rd_bind rd) (rd_token rd) (rd_store rd 0) reserve family (pool s t) (map_option fst r) pa"
      using assms no_token by (auto simp: acquire_port_def acquire_even_def fresh_readings_def)
    then show ?thesis unfolding acquired_def by blast
  next
    case None
    then have "acquire_udp (rd_bind rd) family (pool s t) (map_option fst r) pa"
      using assms no_token by (auto simp: acquire_port_def acquire_udp_def option.map_comp o_def option.map_ident split: prod.splits)
    then show ?thesis unfolding acquired_def by blast
  qed
qed

lemma allocate_tcp_acquired:
  assumes "pa_allocate pa = Some (q, pa')"
  shows "acquired pa (case q of Ok port \<Rightarrow> Some port | _ \<Rightarrow> None) pa'"
  using assms unfolding acquired_def acquire_tcp_def by blast

interpretation steps: store_effects "store_step\<^sup>*\<^sup>*" "\<lambda>_. True" fresh_readings
proof (unfold_locales, goal_cases)
  case (10 rd s msg family t pa)
  then show ?case using acquire_port_acquired [OF 10] by (auto intro: ss_no_port)
next
  case (11 s t q pa)
  then show ?case using allocate_tcp_acquired [OF 11(1)] by (cases q) (auto intro: ss_no_port)
next
  case (12 rd s msg family t port tok pa e)
  then show ?case using acquire_port_acquired [OF 12] by (auto intro: ss_abort)
next
  case (13 s t port pa e)
  then show ?case using allocate_tcp_acquired [OF 13] by (auto intro: ss_abort)
next
  case (14 rd s msg family t rel tok pa now ms ep c u key l realm r s1)
  then show ?case using acquire_port_acquired [OF 14(1,2)]
    by (intro r_into_rtranclp ss_allocate) (auto simp: fresh_readings_def)
next
  case (15 rd s t rel pa now ms ep c u key l realm r s1)
  then show ?case using allocate_tcp_acquired [OF 15(2)]
    by (intro r_into_rtranclp ss_allocate) (auto simp: fresh_readings_def)
qed (auto simp: bandwidth_gate_step intro: store_step.intros)

section \<open>Admissible peers\<close>

text \<open>Every permission and every channel of an allocation names an admissible peer.\<close>

definition alloc_peers :: "(ip_addr \<Rightarrow> bool) \<Rightarrow> allocation \<Rightarrow> bool" where
  "alloc_peers Q a \<longleftrightarrow> (\<forall>ip pm. fmlookup (al_permissions a) ip = Some pm \<longrightarrow> Q ip)
     \<and> (\<forall>ch b. fmlookup (al_channel_bindings a) ch = Some b \<longrightarrow> Q (sock_ip (cb_peer_addr b)))"

definition peers_ok :: "(ip_addr \<Rightarrow> bool) \<Rightarrow> allocation_store \<Rightarrow> bool" where
  "peers_ok Q s \<longleftrightarrow> (\<forall>c a. fmlookup (st_allocations s) c = Some a \<longrightarrow> alloc_peers Q a)"

lemma peers_okD: "peers_ok Q s \<Longrightarrow> fmlookup (st_allocations s) c = Some a \<Longrightarrow> alloc_peers Q a"
  by (simp add: peers_ok_def)

lemma peers_ok_cong: "st_allocations s' = st_allocations s \<Longrightarrow> peers_ok Q s \<Longrightarrow> peers_ok Q s'"
  by (simp add: peers_ok_def)

lemma peers_ok_upd:
  "st_allocations s' = fmupd c a (st_allocations s) \<Longrightarrow> alloc_peers Q a \<Longrightarrow> peers_ok Q s \<Longrightarrow> peers_ok Q s'"
  by (auto simp: peers_ok_def)

lemma peers_ok_drop: "st_allocations s' = fmdrop c (st_allocations s) \<Longrightarrow> peers_ok Q s \<Longrightarrow> peers_ok Q s'"
  by (auto simp: peers_ok_def)

lemma alloc_peers_cong:
  "al_permissions a' = al_permissions a \<Longrightarrow> al_channel_bindings a' = al_channel_bindings a \<Longrightarrow> alloc_peers Q a \<Longrightarrow> alloc_peers Q a'"
  by (simp add: alloc_peers_def)

lemma peers_ok_touch:
  assumes "peers_ok Q s" "fmlookup (st_allocations s) c = Some a" "st_allocations s' = fmupd c a' (st_allocations s)"
    "al_permissions a' = al_permissions a" "al_channel_bindings a' = al_channel_bindings a"
  shows "peers_ok Q s'"
  using peers_ok_upd [OF assms(3) alloc_peers_cong [OF assms(4,5) peers_okD [OF assms(1,2)]] assms(1)] .

lemma alloc_peers_permission:
  "alloc_add_permission now ip a = Ok a' \<Longrightarrow> Q ip \<Longrightarrow> alloc_peers Q a \<Longrightarrow> alloc_peers Q a'"
  by (auto simp: alloc_add_permission_def alloc_peers_def split: option.splits if_splits)

lemma alloc_peers_channel:
  assumes "alloc_add_channel now ch peer a = Ok a'" "Q (sock_ip peer)" "alloc_peers Q a"
  shows "alloc_peers Q a'"
  using assms
  by (auto simp: alloc_add_channel_def alloc_peers_def Let_def grant_permission_def ChannelBinding_new_def
      ChannelBinding_refresh_def split: option.splits if_splits)

lemma peers_permission: "Q ip \<Longrightarrow> peers_ok Q s \<Longrightarrow> peers_ok Q (snd (st_add_permission now ms c ip s))"
  by (auto simp: st_add_permission_def upd_alloc_def split: option.split res.split
      intro!: peers_ok_upd [of _ c _ s] dest: peers_okD intro: alloc_peers_permission)

lemma peers_channel: "Q (sock_ip peer) \<Longrightarrow> peers_ok Q s \<Longrightarrow> peers_ok Q (snd (st_add_channel now ms c ch peer s))"
  by (auto simp: st_add_channel_def upd_alloc_def Let_def split: option.split res.split
      intro!: peers_ok_upd [of _ c _ s] dest: peers_okD intro: alloc_peers_channel)

lemma peers_refresh:
  assumes "peers_ok Q s"
  shows "peers_ok Q (snd (st_refresh now ms c l s))"
proof (cases "fmlookup (st_allocations s) c")
  case (Some a)
  have "peers_ok Q (snd (st_remove now ms c (al_relay_addr a) s))"
    by (rule peers_ok_drop [OF remove_allocations assms])
  moreover have "peers_ok Q (emit_write w (upd_alloc c (a\<lparr>al_expires_at := x\<rparr>) s))" for w x
    by (rule peers_ok_touch [OF assms Some, where a' = "a\<lparr>al_expires_at := x\<rparr>"]) (simp_all add: upd_alloc_def)
  ultimately show ?thesis using Some by (simp add: st_refresh_def)
qed (use assms in \<open>simp add: st_refresh_def\<close>)

lemma peers_re_key:
  assumes "peers_ok Q s"
  shows "peers_ok Q (snd (re_key ms id id old_addr new_addr s))"
proof (cases "fmlookup (st_allocations s) old_addr")
  case None
  then show ?thesis using assms by (auto simp: re_key_def)
next
  case (Some a)
  have a: "alloc_peers Q (a\<lparr>al_client_addr := x, al_migration_epoch := y\<rparr>)" for x y
    using peers_okD [OF assms Some] by (rule alloc_peers_cong [rotated 2]) simp_all
  have d: "peers_ok Q (s\<lparr>st_allocations := fmdrop old_addr (st_allocations s)\<rparr>)"
    by (rule peers_ok_drop [OF _ assms]) simp
  have b: "alloc_peers Q (a\<lparr>al_client_addr := x\<rparr>)" for x
    using peers_okD [OF assms Some] by (rule alloc_peers_cong [rotated 2]) simp_all
  show ?thesis
  proof (cases "old_addr = new_addr")
    case False
    then show ?thesis using Some peers_ok_upd [OF _ b d] peers_ok_upd [OF _ a d]
      by (simp add: re_key_def Let_def move_indices_def)
  qed (use assms Some in \<open>simp add: re_key_def\<close>)
qed

lemma peers_create:
  assumes "create_for_identity now ms ep c rel u key l realm t s = (r, s1)" "peers_ok Q s"
  shows "peers_ok Q s1"
proof (cases "r = Ok ()")
  case True
  then obtain a where "st_allocations s1 = fmupd c a (st_allocations s)" "al_permissions a = fmempty" "al_channel_bindings a = fmempty"
    using create_spec [OF assms(1)] by (auto simp: Allocation_new_def)
  then show ?thesis using assms(2) by (auto intro: peers_ok_upd simp: alloc_peers_def)
next
  case False
  then show ?thesis using create_spec [OF assms(1)] assms(2) by (auto intro: peers_ok_cong)
qed

lemma peers_gate: "st_get s c = Some a \<Longrightarrow> peers_ok Q s \<Longrightarrow> peers_ok Q (snd (bandwidth_gate now c a s))"
  by (auto simp: bandwidth_gate_def alloc_check_bandwidth_def Let_def upd_alloc_def st_get_def split: prod.split res.split
      intro!: peers_ok_upd [of _ c _ s] dest: peers_okD intro: alloc_peers_cong)

interpretation peers: store_effects "\<lambda>s s'. peers_ok Q s \<longrightarrow> peers_ok Q s'" Q "\<lambda>_ _. True" for Q
proof (unfold_locales, goal_cases)
  case 5
  then show ?case
    by (auto simp: set_transport_def upd_alloc_def split: option.split elim: peers_ok_touch)
next
  case 9
  then show ?case
    by (auto simp: st_count_packet_def upd_alloc_def add_bytes_to_client_def add_bytes_def Let_def split: option.split
        elim: peers_ok_touch)
next
  case (14 rd s msg family t rel tok pa now ms ep c u key l realm r s1)
  show ?case
  proof
    assume ok: "peers_ok Q s"
    have "peers_ok Q (upd_pool t (\<lambda>_. pa) s)" by (rule peers_ok_cong [OF _ ok]) simp
    from peers_create [OF 14(3) this] show "peers_ok Q (finish_allocate (sock_port rel) tok r s1)"
      by (rule peers_ok_cong [rotated]) simp
  qed
next
  case (15 rd s t rel pa now ms ep c u key l realm r s1)
  show ?case
  proof
    assume ok: "peers_ok Q s"
    have "peers_ok Q (upd_pool t (\<lambda>_. pa) s)" by (rule peers_ok_cong [OF _ ok]) simp
    from peers_create [OF 15(3) this] show "peers_ok Q (finish_allocate (sock_port rel) None r s1)"
      by (rule peers_ok_cong [rotated]) simp
  qed
qed (auto intro: peers_permission peers_channel peers_refresh peers_re_key peers_gate peers_ok_cong)

end
