(* ===== verification/Sample_Processor.thy ===== *)
theory Sample_Processor
  imports Processor_Safety
begin

text \<open>
  A small processor for the instances of the properties: one client with one allocation and a channel to a public peer, the default limits, and a
  toy instance of the cryptographic functions.
\<close>

definition sample_libs :: libs where
  "sample_libs = \<lparr> lb_crypto = toy_crypto, lb_crc32 = (\<lambda>_. 5), lb_xxh64 = (\<lambda>_. 0), lb_hash_addr = (\<lambda>_. 0) \<rparr>"

definition sample_readings :: readings where
  "sample_readings =
     \<lparr> rd_arrival = 0, rd_orders = (\<lambda>_. []), rd_counters = [], rd_nonce = 0, rd_issue = 0,
       rd_auth = \<lparr> ac_now_secs = 1500, ac_now = 0, ac_order = [] \<rparr>, rd_cache = (0, 0), rd_store = (\<lambda>_. 0),
       rd_epoch_ms = (\<lambda>_. 0), rd_created_ms = 0, rd_capacity = 0, rd_ticket_secs = (\<lambda>_. 0),
       rd_bind = (\<lambda>_ _ _. True), rd_bind_tcp = (\<lambda>_ _. True), rd_token = (\<lambda>i. [of_nat i]) \<rparr>"

definition sample_config :: "allocation_store \<Rightarrow> processor" where
  "sample_config s = PacketProcessor_with_mtu_and_cluster (\<lambda>_. None) 0 [7] False s sample_registry auth_globals_default
     (IpV4 0xCB007101) 1200 None False None True False None"

definition sample_public :: socket_addr where
  "sample_public = SockV4 0x08080808 9"

definition channel_store :: allocation_store where
  "channel_store = snd (st_add_channel 0 0 sample_client 0x4000 sample_public sample_store)"

definition sample_frame :: bytes where
  "sample_frame = [0x40, 0, 0, 2, 1, 2, 0, 0]"

lemma sample_admitted: "fst (check_ingress_ip ord 0 ip (TieredRateLimiter_new 0 TieredLimits_default))"
proof -
  have "fst (try_acquire 0 10000 50000 (pack 10000 0))" by code_simp
  then show ?thesis
    by (auto simp: check_ingress_ip_def TieredRateLimiter_new_def TieredLimits_default_def ShardedRateLimiter_new_def
        rb_check_def Let_def rb_now_ms_def split: prod.split)
qed

definition channel_alloc :: allocation where
  "channel_alloc = (Allocation_new ''0000000000000001'' sample_client sample_relay ''alice'' [] 600 '''' None 0 1)
     \<lparr>al_permissions := fmupd (IpV4 0x08080808) (Permission_new 0 (IpV4 0x08080808)) fmempty,
      al_channel_bindings := fmupd 0x4000 (ChannelBinding_new 0 0x4000 sample_public) fmempty,
      al_channels_reverse := fmupd sample_public 0x4000 fmempty\<rparr>"

lemma channel_store_lookup:
  "fmlookup (st_allocations channel_store) c = (if c = sample_client then Some channel_alloc else None)"
proof -
  have s: "fmlookup (st_allocations sample_store) c = (if c = sample_client then
      Some (Allocation_new ''0000000000000001'' sample_client sample_relay ''alice'' [] 600 '''' None 0 1) else None)" for c
    using sample_store_get by (simp add: st_get_def)
  show ?thesis
    by (simp add: channel_store_def st_add_channel_def s alloc_add_channel_def channel_conflict_def Allocation_new_def
        channel_count_def fcard.rep_eq rust_const grant_permission_def upd_alloc_def channel_alloc_def sample_public_def Let_def)
qed

lemma channel_store_reached: "store_step\<^sup>*\<^sup>* sample_empty channel_store"
  unfolding channel_store_def by (rule rtranclp.rtrancl_into_rtrancl [OF sample_store_reached ss_channel])

lemma channel_store_wf: "wf_store channel_store"
  by (rule store.reachable_inv [OF sample_empty_init channel_store_reached])

lemma create_limits:
  assumes "create_for_identity now ms ep c rel u key l realm t s = (Ok (), s')"
  shows "st_user_limits s' = st_user_limits s \<and> st_runtime s' = st_runtime s \<and> st_next_id s' = st_next_id s + 1"
  using assms
proof (cases rule: create_cases)
  case (created g s1)
  have "same_but_counts s1 s" using reserve_spec [OF created(3)] by simp
  from same_but_counts_fields(7-9) [OF this] show ?thesis by (simp add: created(4) install_def Let_def)
qed simp_all

lemma channel_store_fresh: "fresh_readings sample_readings channel_store"
proof -
  have "same_pools sample_store (upd_pool None (\<lambda>_. sample_pool) sample_empty)" "st_next_id sample_store = 2"
    using create_spec [OF sample_create] create_limits [OF sample_create]
    by (simp_all add: upd_pool_def sample_empty_def AllocationStore_new_def)
  moreover have "same_pools channel_store sample_store" "st_next_id channel_store = st_next_id sample_store"
    by (simp_all add: channel_store_def st_add_channel_def upd_alloc_def same_pools_def Let_def split: option.split res.split)
  ultimately have "st_ports channel_store = sample_pool" "st_tenant_pools channel_store = []" "st_next_id channel_store = 2"
    by (simp_all add: same_pools_def upd_pool_def sample_empty_def AllocationStore_new_def)
  moreover have "pa_reservations sample_pool = fmempty"
    by (simp add: sample_pool_def sample_empty_def AllocationStore_new_def PortAllocator_new_def)
  ultimately show ?thesis by (simp add: fresh_readings_def pool_def split: option.split)
qed

lemma sample_unlimited: "bandwidth_policy_for_user channel_store '''' None ''alice'' = (0, False)"
proof -
  have "st_user_limits sample_store = UserLimitsSnapshot_empty" "rl_max_bytes_per_sec (st_runtime sample_store) = 0"
    using create_limits [OF sample_create]
    by (simp_all add: upd_pool_def sample_empty_def AllocationStore_new_def BandwidthQuota_default_def)
  moreover have "st_user_limits channel_store = st_user_limits sample_store" "st_runtime channel_store = st_runtime sample_store"
    by (simp_all add: channel_store_def st_add_channel_def upd_alloc_def Let_def split: option.split res.split)
  ultimately show ?thesis
    by (simp add: bandwidth_policy_for_user_def effective_for_def effective_limits_def UserLimitsSnapshot_empty_def override_default_def
        tenant_quota_def Let_def split: prod.split)
qed

lemma sample_config_simps [simp]:
  "px_store (sample_config s) = s" "px_peer_env (sample_config s) = False" "px_peer_policy (sample_config s) = None"
  "px_zerocopy (sample_config s)" "px_auto_ban (sample_config s) = None" "px_trusted_limiter (sample_config s) = None"
  "px_bandwidth_cap (sample_config s) = None" "px_rate_limiter (sample_config s) = TieredRateLimiter_new 0 TieredLimits_default"
  by (simp_all add: sample_config_def PacketProcessor_with_mtu_and_cluster_def env_overrides_def env_pair_def
      TieredLimits_default_def)

lemma sample_public_admitted: "\<not> is_forbidden_peer False None (IpV4 0x08080808)"
  by code_simp

lemma ask_limiter_cap: "px_bandwidth_cap (snd (ask_limiter check rd src p)) = px_bandwidth_cap p"
  by (auto simp: ask_limiter_def limiter_for_def Let_def split: option.split prod.split if_split)

lemma sample_slice:
  "\<exists>q. serve sample_libs sample_readings (Slice sample_frame sample_client) (sample_config channel_store)
     = (Ok [ForwardZeroCopy 4 2 sample_public 49152], q)"
proof -
  have frame: "is_channel_data sample_frame" "decode_channel_data sample_frame = Ok (0x4000, [1, 2])"
    unfolding sample_frame_def by code_simp+
  let ?p = "sample_config channel_store"
  obtain q where a: "ask_limiter check_ingress_ip sample_readings sample_client ?p = (True, q)" "idle ?p q"
  proof -
    have "fst (ask_limiter check_ingress_ip sample_readings sample_client ?p)"
      using sample_admitted [of "\<lambda>_. []" "sock_ip sample_client"]
      by (auto simp: ask_limiter_def limiter_for_def sample_readings_def split: prod.split)
    then show thesis using ask_limiter_idle [of ?p check_ingress_ip sample_readings sample_client] that
      by (metis prod.collapse)
  qed
  have live: "\<not> Allocation_is_expired 0 channel_alloc" "get_channel_peer 0 channel_alloc 0x4000 = Some sample_public"
    "sock_port (al_relay_addr channel_alloc) = 49152"
    by (simp_all add: channel_alloc_def Allocation_is_expired_def Allocation_new_def get_channel_peer_def
        ChannelBinding_is_expired_def ChannelBinding_new_def sample_relay_def)
  have g: "fst (relay_gates sample_readings False sample_client channel_alloc (Suc (Suc 0)) q)"
    using idleD(1) [OF a(2)] sample_unlimited ask_limiter_cap [of check_ingress_ip sample_readings sample_client ?p] a(1)
    by (simp add: relay_gates_def within_capacity_def bandwidth_gate_def channel_alloc_def Allocation_new_def)
  then obtain q' where g': "relay_gates sample_readings False sample_client channel_alloc (Suc (Suc 0)) q = (True, q')"
    by (metis prod.collapse)
  have "rd_store sample_readings i = 0" for i by (simp add: sample_readings_def)
  then show ?thesis using a frame live g' idleD(1) [OF a(2)]
    by (simp add: process_slice_def banned_def channel_data_decision_def st_get_def channel_store_lookup)
qed

end
