(* ===== verification/Relay_Safety.thy ===== *)
theory Relay_Safety
  imports Sample_Processor
begin

text \<open>
  What leaves for a peer and what comes back. Only ChannelData and Send indications make the processor emit a datagram for a peer, and then for
  the client's own unexpired allocation, to a peer it has a channel or a permission for; no sequence of events makes it emit one to
  a peer the filter forbids.
\<close>

section \<open>Requests send nothing to peers\<close>

lemma authenticated_quiet:
  assumes "\<And>r q. quiet (fst (f r q))"
  shows "quiet (fst (case authenticate L rd msg raw src p of (Inl a, p) \<Rightarrow> (a, p) | (Inr r, p) \<Rightarrow> f r p))"
  using authenticate_quiet [of L rd msg raw src p] assms by (auto split: prod.split sum.split)

lemma create_refused_quiet [simp]: "quiet (create_refused e msg src)"
  by (simp add: create_refused_def)

lemma allocate_reply_quiet [simp]: "quiet (allocate_reply L rd msg src key family rel l tok p)"
  by (simp add: allocate_reply_def Let_def sent_among_quiet split: prod.split)

lemma allocate_udp_quiet: "quiet (fst (handle_allocate_udp L rd msg src r family p))"
  by (auto simp: handle_allocate_udp_def Let_def split: prod.split option.split res.split)

lemma create_tcp_quiet: "quiet (fst (create_tcp L rd msg src r family l p))"
  by (auto simp: create_tcp_def Let_def sent_among_quiet split: prod.split option.split res.split)

lemma allocate_for_quiet: "quiet (fst (allocate_for L rd msg src tcp r p))"
  by (auto simp: allocate_for_def handle_allocate_tcp_def Let_def allocate_udp_quiet create_tcp_quiet split: prod.split)

lemma plain_refresh_quiet: "quiet (fst (plain_refresh L rd msg src key l p))"
  by (auto simp: plain_refresh_def Let_def split: prod.split res.split option.split intro!: sent_among_quiet)

lemma try_migration_quiet: "try_migration_refresh L rd msg src key l p = (Some a, q) \<Longrightarrow> quiet a"
  by (auto simp: try_migration_refresh_def migrated_reply_def Let_def split: option.splits prod.splits res.splits if_splits
      intro!: sent_among_quiet)

lemma refresh_for_quiet: "quiet (fst (refresh_for L rd msg src r p))"
proof -
  have "quiet (fst (case try_migration_refresh L rd msg src (rs_key r) l p of
      (Some a, p) \<Rightarrow> (a, p) | (None, p) \<Rightarrow> plain_refresh L rd msg src (rs_key r) l p))" for l
    using try_migration_quiet [of L rd msg src "rs_key r" l p] plain_refresh_quiet by (auto split: prod.split option.split)
  then show ?thesis using plain_refresh_quiet by (auto simp: refresh_for_def Let_def split: prod.split)
qed

lemma permit_for_quiet: "quiet (fst (permit_for L rd msg src key p))"
  by (auto simp: permit_for_def Let_def split: prod.split option.split res.split session_error.split)

lemma bind_for_quiet: "quiet (fst (bind_for L rd msg src key p))"
  by (auto simp: bind_for_def Let_def split: prod.split option.split res.split session_error.split)

lemma binding_quiet: "quiet (fst (handle_binding L rd msg raw src p))"
proof -
  have a: "quiet (fst (binding_answer L rd msg raw src q))" for q
    using auth_deferred_quiet encode_auth_challenge_quiet
    by (auto simp: binding_answer_def binding_reply_def Let_def split: prod.split option.split res.split)
  show ?thesis using validate_nonce_quiet a encode_auth_challenge_quiet
    by (auto simp: handle_binding_def split: prod.split option.split)
qed

lemmas request_quiet = allocate_for_quiet refresh_for_quiet permit_for_quiet bind_for_quiet binding_quiet

lemma handler_quiet:
  "quiet (fst (handle_allocate L rd msg raw src tcp p))" "quiet (fst (handle_refresh L rd msg raw src p))"
  "quiet (fst (handle_create_permission L rd msg raw src p))" "quiet (fst (handle_channel_bind L rd msg raw src p))"
  unfolding handle_allocate_def handle_refresh_def handle_create_permission_def handle_channel_bind_def
  by (rule authenticated_quiet, rule request_quiet)+

lemma limited_quiet: "(\<And>q. quiet (fst (f q))) \<Longrightarrow> quiet (fst (limited check rd msg src f p))"
  by (auto simp: limited_def split: prod.split)

section \<open>Where a datagram for a peer comes from\<close>

text \<open>The allocation behind a datagram, with the channel or the permission that lets it out.\<close>

definition backed :: "readings \<Rightarrow> socket_addr \<Rightarrow> processor \<Rightarrow> socket_addr \<Rightarrow> u16 \<Rightarrow> bool" where
  "backed rd src p target port \<longleftrightarrow>
     (\<exists>a. st_get (px_store p) src = Some a \<and> \<not> Allocation_is_expired (rd_store rd 0) a \<and> sock_port (al_relay_addr a) = port
        \<and> ((\<exists>ch. get_channel_peer (rd_store rd 1) a ch = Some target)
           \<or> has_permission (rd_store rd 1) a target \<and> \<not> forbidden_peer p (sock_ip target)))"

definition all_backed :: "readings \<Rightarrow> socket_addr \<Rightarrow> processor \<Rightarrow> acts \<Rightarrow> bool" where
  "all_backed rd src p r \<longleftrightarrow>
     (\<forall>as x target port. r = Ok as \<longrightarrow> x \<in> set as \<longrightarrow> to_peer x = Some (target, port) \<longrightarrow> backed rd src p target port)"

lemma quiet_backed: "quiet r \<Longrightarrow> all_backed rd src p r"
  by (simp add: quiet_def all_backed_def)

lemma backed_idle: "idle p q \<Longrightarrow> backed rd src q target port = backed rd src p target port"
  by (simp add: backed_def idleD(1) forbidden_same [OF idleD(2)])

lemma all_backed_idle: "idle p q \<Longrightarrow> all_backed rd src q r = all_backed rd src p r"
  by (simp add: all_backed_def backed_idle)

lemma channel_data_backed:
  assumes "channel_data_decision rd raw src p = (Some (off, n, target, port), q)"
  shows "backed rd src p target port" "\<exists>ch data. decode_channel_data raw = Ok (ch, data) \<and> off = 4 \<and> n = length data"
  using assms by (auto simp: channel_data_decision_def backed_def split: res.splits option.splits prod.splits if_splits)

lemma process_channel_data_backed: "all_backed rd src p (fst (process_channel_data rd raw src p))"
  using channel_data_backed(1) [of rd raw src p]
  by (auto simp: process_channel_data_def all_backed_def slice_r_def split: prod.splits option.splits if_splits)

lemma send_indication_backed: "all_backed rd src p (fst (handle_send_indication rd msg src p))"
  by (auto simp: handle_send_indication_def all_backed_def backed_def Let_def split: prod.splits option.splits if_splits)

lemma route_backed: "all_backed rd src p (fst (route_stun L rd msg raw src tcp p))"
  using send_indication_backed quiet_backed [OF binding_quiet] quiet_backed [OF limited_quiet [OF handler_quiet(1)]]
    quiet_backed [OF limited_quiet [OF handler_quiet(2)]] quiet_backed [OF limited_quiet [OF handler_quiet(3)]]
    quiet_backed [OF limited_quiet [OF handler_quiet(4)]]
  by (auto simp: route_stun_def quiet_backed split: message_class.split stun_method.split)

lemma dispatch_backed: "all_backed rd src p (fst (dispatch_stun L rd msg raw src tcp p))"
  using route_backed
  by (auto simp: dispatch_stun_def reject_unknown_comprehension_required_def maybe_redirect_new_client_def redirect_to_def
      Let_def quiet_backed split: option.splits if_splits)

lemma process_stun_backed: "all_backed rd src p (fst (process_stun L rd raw src tcp p))"
proof -
  have "all_backed rd src p (fst (process_cached L rd msg raw src tcp p))" for msg
  proof -
    have c: "all_backed rd src p (fst (dispatch_stun L rd msg raw src tcp (set_cache L src c p)))" for c
      using dispatch_backed [of rd src "set_cache L src c p" L msg raw tcp]
      by (simp add: all_backed_def backed_def set_cache_def forbidden_peer_def)
    show ?thesis
      using c by (auto simp: process_cached_def Let_def quiet_backed split: res.split utx_lookup.split option.split prod.split)
        (metis fst_conv)+
  qed
  then show ?thesis using dispatch_backed by (auto simp: process_stun_def quiet_backed split: res.split)
qed

lemma gated_backed:
  assumes "\<And>q. all_backed rd src q (fst (f q))"
  shows "all_backed rd src p (fst (let (ok, q) = ask_limiter check rd src p
      in if \<not> ok then (Ok [NoAction], note_rate_limited rd src q) else f q))"
proof -
  obtain ok q where a: "ask_limiter check rd src p = (ok, q)" by fastforce
  have i: "idle p q" using ask_limiter_idle [of p check rd src] a by simp
  show ?thesis using assms [of q] by (simp add: a quiet_backed all_backed_idle [OF i])
qed

lemma process_impl_backed: "all_backed rd src p (fst (process_impl L rd raw src tcp p))"
  using gated_backed [OF process_channel_data_backed] gated_backed [OF process_stun_backed]
  by (simp add: process_impl_def quiet_backed)

lemma process_slice_backed: "all_backed rd src p (fst (process_slice L rd raw src p))"
proof -
  have "all_backed rd src q (fst (case channel_data_decision rd raw src q of
      (Some (offset, len, target, port), p) \<Rightarrow> (Ok [ForwardZeroCopy offset len target port], p)
    | (None, p) \<Rightarrow> (Ok [NoAction], p)))" for q
    using channel_data_backed(1) [of rd raw src q] by (auto simp: all_backed_def split: prod.split option.split)
  from gated_backed [OF this] show ?thesis
    using process_impl_backed by (simp add: process_slice_def process_def quiet_backed)
qed

text \<open>The client an event comes from.\<close>

fun event_client :: "event \<Rightarrow> socket_addr option" where
  "event_client (Datagram raw src) = Some src"
| "event_client (Control raw src) = Some src"
| "event_client (Session raw src) = Some src"
| "event_client (Slice raw src) = Some src"
| "event_client _ = None"

lemma all_backedD:
  "all_backed rd src p (fst o_p) \<Longrightarrow> o_p = (Ok as, q) \<Longrightarrow> x \<in> set as \<Longrightarrow> to_peer x = Some (target, port)
     \<Longrightarrow> backed rd src p target port"
  by (simp add: all_backed_def)

lemma serve_backed:
  assumes "serve L rd ev p = (Ok as, q)" "x \<in> set as" "to_peer x = Some (target, port)"
  shows "\<exists>src. event_client ev = Some src \<and> backed rd src p target port"
proof (cases ev)
  case (FromPeer data peer relay)
  have "quiet (fst (process_relay_recv rd data peer relay p))"
    by (auto simp: process_relay_recv_def Let_def split: option.split prod.split)
  then show ?thesis using assms FromPeer by (auto simp: quiet_def)
next
  case (Closed c)
  then show ?thesis using assms
    by (auto simp: release_for_closed_connection_def Let_def split: option.splits prod.splits res.splits)
next
  case (Rekeyed old_addr new_addr)
  then show ?thesis using assms by (auto split: prod.splits if_splits)
next
  case (Slice raw src)
  show ?thesis using all_backedD [OF process_slice_backed _ assms(2,3)] assms(1) by (simp add: Slice)
qed (use assms(1) all_backedD [OF process_impl_backed _ assms(2,3)] in
     \<open>auto simp: process_def process_tcp_control_def process_owned_def\<close>)

text \<open>
  C3. Whatever the datapath hands to the processor, a datagram leaves for a peer only because of a packet from a client that owns an allocation which
  has not expired, through the relay port of that allocation, and to a peer to which the client has a live channel, or a live permission while the
  filter admits the peer.
\<close>

theorem relay_only_authorised:
  assumes "serve L rd ev p = (Ok as, q)" "x \<in> set as" "to_peer x = Some (target, port)"
  shows "\<exists>src a. event_client ev = Some src \<and> st_get (px_store p) src = Some a
    \<and> \<not> Allocation_is_expired (rd_store rd 0) a \<and> sock_port (al_relay_addr a) = port
    \<and> ((\<exists>ch. get_channel_peer (rd_store rd 1) a ch = Some target)
       \<or> has_permission (rd_store rd 1) a target \<and> \<not> forbidden_peer p (sock_ip target))"
  using serve_backed [OF assms] unfolding backed_def by blast

theorem relay_only_authorised_witness:
  "\<exists>q src a. serve sample_libs sample_readings (Slice sample_frame sample_client) (sample_config channel_store)
       = (Ok [ForwardZeroCopy 4 2 sample_public 49152], q)
     \<and> event_client (Slice sample_frame sample_client) = Some src \<and> st_get channel_store src = Some a
     \<and> \<not> Allocation_is_expired (rd_store sample_readings 0) a \<and> sock_port (al_relay_addr a) = 49152"
proof -
  obtain q where q: "serve sample_libs sample_readings (Slice sample_frame sample_client) (sample_config channel_store)
     = (Ok [ForwardZeroCopy 4 2 sample_public 49152], q)" using sample_slice by blast
  from relay_only_authorised [OF q, of "ForwardZeroCopy 4 2 sample_public 49152" sample_public 49152] q
  show ?thesis by auto
qed

section \<open>Forbidden peers\<close>

lemma backed_admissible:
  assumes "backed rd src p target port" "peers_ok (\<lambda>ip. \<not> forbidden_peer p ip) (px_store p)"
  shows "\<not> forbidden_peer p (sock_ip target)"
proof -
  from assms(1) obtain a where a: "fmlookup (st_allocations (px_store p)) src = Some a"
    and r: "(\<exists>ch. get_channel_peer (rd_store rd 1) a ch = Some target) \<or> \<not> forbidden_peer p (sock_ip target)"
    unfolding backed_def st_get_def by blast
  have "alloc_peers (\<lambda>ip. \<not> forbidden_peer p ip) a" by (rule peers_okD [OF assms(2) a])
  then show ?thesis using r by (auto simp: alloc_peers_def get_channel_peer_def split: option.splits if_splits)
qed

fun serve_all :: "libs \<Rightarrow> (readings \<times> event) list \<Rightarrow> processor \<Rightarrow> acts list \<times> processor" where
  "serve_all L [] p = ([], p)"
| "serve_all L ((rd, ev) # evs) p =
     (let (r, p) = serve L rd ev p; (rs, p) = serve_all L evs p in (r # rs, p))"

lemma serve_all_admissible:
  assumes "peers_ok (\<lambda>ip. \<not> forbidden_peer p ip) (px_store p)" "serve_all L evs p = (rs, q)"
    "Ok as \<in> set rs" "x \<in> set as" "to_peer x = Some (target, port)"
  shows "\<not> forbidden_peer p (sock_ip target)"
  using assms
proof (induction evs arbitrary: p rs q)
  case (Cons rdev evs)
  obtain rd ev where e: "rdev = (rd, ev)" by fastforce
  obtain r p1 where s: "serve L rd ev p = (r, p1)" by fastforce
  obtain rs' q' where all: "serve_all L evs p1 = (rs', q')" by fastforce
  have eff: "peers.effect (\<lambda>ip. \<not> forbidden_peer p ip) p (serve L rd ev p)" by (rule peers.serve_effect) simp_all
  then have f: "forbidden_peer p1 = forbidden_peer p"
    unfolding peers.effect_def s snd_conv by (intro forbidden_same) (rule conjunct2)
  have ok: "peers_ok (\<lambda>ip. \<not> forbidden_peer p ip) (px_store p1)"
    using eff Cons.prems(1) unfolding peers.effect_def s snd_conv by blast
  consider "Ok as = r" | "Ok as \<in> set rs'" using Cons.prems(2,3) e s all by auto
  then show ?case
  proof cases
    case 1
    from serve_backed [OF s [folded 1] Cons.prems(4,5)] obtain src where "backed rd src p target port" by blast
    then show ?thesis by (rule backed_admissible [OF _ Cons.prems(1)])
  next
    case 2
    show ?thesis using Cons.IH [OF _ all 2 Cons.prems(4,5)] f ok by simp
  qed
qed simp

text \<open>
  C1. No sequence of events, from any clients and with any readings of the environment, makes a processor emit a datagram to a peer its filter
  forbids, be it through a permission, a channel, a migrated allocation or a zero-copy forward, if it started without permissions and channels
  to forbidden peers, for instance without allocations.
\<close>

theorem forbidden_never_reached:
  assumes "peers_ok (\<lambda>ip. \<not> is_forbidden_peer (px_peer_env p) (px_peer_policy p) ip) (px_store p)" "serve_all L evs p = (rs, q)"
    "Ok as \<in> set rs" "x \<in> set as" "to_peer x = Some (target, port)"
  shows "\<not> is_forbidden_peer (px_peer_env p) (px_peer_policy p) (sock_ip target)"
  using serve_all_admissible [OF _ assms(2-5)] assms(1) by (simp add: forbidden_peer_def)

lemma sample_peers_ok: "peers_ok (\<lambda>ip. \<not> is_forbidden_peer False None ip) channel_store"
  using sample_public_admitted
  by (auto simp: peers_ok_def channel_store_lookup alloc_peers_def channel_alloc_def Allocation_new_def ChannelBinding_new_def
      sample_public_def split: if_splits)

theorem forbidden_never_reached_witness:
  "\<exists>rs q. serve_all sample_libs [(sample_readings, Slice sample_frame sample_client)] (sample_config channel_store) = (rs, q)
     \<and> Ok [ForwardZeroCopy 4 2 sample_public 49152] \<in> set rs \<and> \<not> is_forbidden_peer False None (sock_ip sample_public)"
proof -
  obtain q where q: "serve sample_libs sample_readings (Slice sample_frame sample_client) (sample_config channel_store)
     = (Ok [ForwardZeroCopy 4 2 sample_public 49152], q)" using sample_slice by blast
  then have all: "serve_all sample_libs [(sample_readings, Slice sample_frame sample_client)] (sample_config channel_store)
      = ([Ok [ForwardZeroCopy 4 2 sample_public 49152]], q)" by simp
  from forbidden_never_reached [OF _ all, of "[ForwardZeroCopy 4 2 sample_public 49152]" "ForwardZeroCopy 4 2 sample_public 49152"
      sample_public 49152] sample_peers_ok all
  show ?thesis by auto
qed

section \<open>From the peer to the client\<close>

text \<open>
  C5. A datagram that arrives on a relay socket is passed on only as a single datagram to the client whose allocation has that relayed address,
  while the allocation lives and the client has a live permission for the (normalised) address the datagram came from; in every other
  case nothing is sent.
\<close>

theorem peer_data_authorised:
  assumes "wf_store (px_store p)" "process_relay_recv rd data peer relay p = (Ok as, q)" "as \<noteq> [NoAction]"
  shows "\<exists>a frame. st_get (px_store p) (al_client_addr a) = Some a \<and> al_relay_addr a = relay \<and> as = [Send frame (al_client_addr a)]
    \<and> \<not> Allocation_is_expired (rd_store rd 0) a \<and> has_permission (rd_store rd 1) a (normalize_addr peer)"
proof -
  from assms(2,3) obtain c a where c: "get_by_relay (px_store p) relay = Some c" "st_get (px_store p) c = Some a"
      "\<not> Allocation_is_expired (rd_store rd 0) a" "has_permission (rd_store rd 1) a (normalize_addr peer)"
    and s: "\<exists>f. as = [Send f (al_client_addr a)]"
    by (auto simp: process_relay_recv_def Let_def sent_def sent_among_def
        split: option.splits prod.splits if_splits res.splits)
  have "al_client_addr a = c" using wf_store_client [OF assms(1)] c(2) by (simp add: st_get_def)
  moreover have "al_relay_addr a = relay" using c(1,2) unfolding wf_store_index(1) [OF assms(1)] by auto
  ultimately show ?thesis using c s by auto
qed

lemma sample_from_peer:
  "\<exists>q. process_relay_recv sample_readings [9] sample_public sample_relay (sample_config channel_store)
     = (Ok [Send [0x40, 0, 0, 1, 9, 0, 0, 0] sample_client], q)"
proof -
  have rd: "rd_store sample_readings i = 0" for i by (simp add: sample_readings_def)
  have relay: "get_by_relay channel_store sample_relay = Some sample_client"
    using wf_store_index(1) [OF channel_store_wf] by (auto simp: st_get_def channel_store_lookup channel_alloc_def Allocation_new_def)
  have norm: "normalize_addr sample_public = sample_public" by (simp add: normalize_addr_def sample_public_def)
  have live: "\<not> Allocation_is_expired 0 channel_alloc" "has_permission 0 channel_alloc sample_public"
    "get_peer_channel 0 channel_alloc sample_public = Some 0x4000" "al_client_addr channel_alloc = sample_client"
    by (simp_all add: channel_alloc_def Allocation_is_expired_def Allocation_new_def has_permission_def get_peer_channel_def
        Permission_is_expired_def Permission_new_def ChannelBinding_is_expired_def ChannelBinding_new_def sample_public_def)
  have "fst (relay_gates sample_readings True sample_client channel_alloc (Suc 0) (sample_config channel_store))"
    using sample_unlimited
    by (simp add: relay_gates_def within_capacity_def bandwidth_gate_def channel_alloc_def Allocation_new_def)
  then obtain q where g: "relay_gates sample_readings True sample_client channel_alloc (Suc 0) (sample_config channel_store) = (True, q)"
    by (metis prod.collapse)
  have frame: "relay_frame (Some 0x4000) sample_public [9] = Ok (8, [0x40, 0, 0, 1, 9, 0, 0, 0])"
    unfolding sample_public_def by code_simp
  show ?thesis
    using live g frame by (simp add: process_relay_recv_def norm relay rd st_get_def channel_store_lookup sent_def sent_among_def)
qed

theorem peer_data_authorised_witness:
  "\<exists>a frame. st_get channel_store (al_client_addr a) = Some a \<and> al_relay_addr a = sample_relay
     \<and> fst (process_relay_recv sample_readings [9] sample_public sample_relay (sample_config channel_store))
         = Ok [Send frame (al_client_addr a)]
     \<and> has_permission (rd_store sample_readings 1) a (normalize_addr sample_public)"
proof -
  obtain q where q: "process_relay_recv sample_readings [9] sample_public sample_relay (sample_config channel_store)
     = (Ok [Send [0x40, 0, 0, 1, 9, 0, 0, 0] sample_client], q)" using sample_from_peer by blast
  from peer_data_authorised [OF _ q] channel_store_wf q show ?thesis by auto
qed

end
