(* ===== verification/Request_Safety.thy ===== *)
theory Request_Safety
  imports Relay_Safety
begin

text \<open>
  What a request can change. The state of the store behind the processor is one the store's own operations reach, and but for the
  traffic counters it changes only for a request with a fresh nonce and accepted credentials. A mobility ticket moves an
  allocation once.
\<close>

section \<open>The store behind the processor\<close>

text \<open>
  C4. Every event of the datapath takes the allocation store through steps of the store's own state machine, provided the id counter has not
  wrapped and the drawn reservation tokens are unused; so a store reached from an initial one stays reachable, and with it well formed: indices, counters
  and port pools agree with the table.
\<close>

theorem serve_refines_store:
  assumes "store_init s0" "store_step\<^sup>*\<^sup>* s0 (px_store p)" "fresh_readings rd (px_store p)" "serve L rd ev p = (r, q)"
  shows "store_step\<^sup>*\<^sup>* s0 (px_store q) \<and> wf_store (px_store q)"
proof -
  have "steps.effect p (serve L rd ev p)" by (rule steps.serve_effect [OF assms(3)]) simp
  then have "store_step\<^sup>*\<^sup>* s0 (px_store q)" using assms(2,4) by (auto simp: steps.effect_def)
  then show ?thesis using store.reachable_inv [OF assms(1)] by blast
qed

theorem serve_refines_store_witness:
  "\<exists>q. serve sample_libs sample_readings (Slice sample_frame sample_client) (sample_config channel_store)
       = (Ok [ForwardZeroCopy 4 2 sample_public 49152], q)
     \<and> store_step\<^sup>*\<^sup>* sample_empty (px_store q) \<and> wf_store (px_store q)"
proof -
  obtain q where q: "serve sample_libs sample_readings (Slice sample_frame sample_client) (sample_config channel_store)
     = (Ok [ForwardZeroCopy 4 2 sample_public 49152], q)" using sample_slice by blast
  have "store_step\<^sup>*\<^sup>* sample_empty (px_store (sample_config channel_store))" by (simp add: channel_store_reached)
  from serve_refines_store [OF sample_empty_init this _ q] channel_store_fresh q show ?thesis by simp
qed

section \<open>Requests need credentials\<close>

text \<open>The store up to the counters of the traffic.\<close>

definition uncounted :: "allocation \<Rightarrow> allocation" where
  "uncounted a = a\<lparr>al_bytes_relayed := 0, al_packets_relayed := 0, al_bytes_to_client := 0, al_packets_to_client := 0,
     al_bandwidth_window_bytes := 0, al_bandwidth_window_start := 0\<rparr>"

definition blank :: "allocation_store \<Rightarrow> allocation_store" where
  "blank s = s\<lparr>st_allocations := fmmap uncounted (st_allocations s)\<rparr>"

lemma blank_upd:
  assumes "fmlookup (st_allocations s) c = Some a" "uncounted a' = uncounted a"
  shows "blank (upd_alloc c a' s) = blank s"
proof -
  have "fmmap uncounted (fmupd c a' (st_allocations s)) = fmmap uncounted (st_allocations s)"
    using assms by (intro fmap_ext) auto
  then show ?thesis by (simp add: blank_def upd_alloc_def)
qed

lemma blank_packet: "blank (st_count_packet d n c s) = blank s"
  by (cases "fmlookup (st_allocations s) c")
     (auto simp: st_count_packet_def intro!: blank_upd simp: uncounted_def add_bytes_def add_bytes_to_client_def Let_def)

lemma blank_gate:
  assumes "st_get s c = Some a"
  shows "blank (snd (bandwidth_gate now c a s)) = blank s"
proof -
  have "uncounted (snd (alloc_check_bandwidth now l a)) = uncounted a" for l
    by (simp add: alloc_check_bandwidth_def uncounted_def Let_def)
  then have "blank (upd_alloc c (snd (alloc_check_bandwidth now l a)) s) = blank s" for l
    using assms by (intro blank_upd) (simp_all add: st_get_def)
  then show ?thesis by (auto simp: bandwidth_gate_def split: prod.split res.split) (metis snd_conv)+
qed

lemma blank_relay_gates:
  assumes "st_get (px_store p) c = Some a"
  shows "blank (px_store (snd (relay_gates rd d c a n p))) = blank (px_store p)"
proof -
  obtain ok s where g: "bandwidth_gate (rd_store rd 2) c a (px_store p) = (ok, s)" by fastforce
  have s: "blank s = blank (px_store p)" using blank_gate [OF assms, of "rd_store rd 2"] g by simp
  obtain ok' q where w: "within_capacity rd n (p\<lparr>px_store := s\<rparr>) = (ok', q)" by fastforce
  have "px_store q = s" using within_capacity_idle [of "p\<lparr>px_store := s\<rparr>" rd n] w by (simp add: idle_def)
  then show ?thesis using s by (simp add: relay_gates_def g w blank_packet Let_def)
qed

lemma blank_channel_data: "blank (px_store (snd (channel_data_decision rd raw src p))) = blank (px_store p)"
proof -
  have "blank (px_store (snd (relay_gates rd False src a n p))) = blank (px_store p)" if "st_get (px_store p) src = Some a" for a n
    by (rule blank_relay_gates [OF that])
  then show ?thesis
    by (auto simp: channel_data_decision_def split: res.split option.split prod.split if_split) (metis snd_conv)+
qed

lemma blank_process_channel_data: "blank (px_store (snd (process_channel_data rd raw src p))) = blank (px_store p)"
  using blank_channel_data [of rd raw src p] by (auto simp: process_channel_data_def split: prod.split option.split)

lemma blank_send_indication: "blank (px_store (snd (handle_send_indication rd msg src p))) = blank (px_store p)"
proof -
  have "blank (px_store (snd (relay_gates rd False src a n p))) = blank (px_store p)" if "st_get (px_store p) src = Some a" for a n
    by (rule blank_relay_gates [OF that])
  then show ?thesis
    by (auto simp: handle_send_indication_def Let_def split: option.split prod.split if_split) (metis snd_conv)+
qed

definition permitted :: "libs \<Rightarrow> readings \<Rightarrow> stun_message \<Rightarrow> bytes \<Rightarrow> socket_addr \<Rightarrow> processor \<Rightarrow> processor \<Rightarrow> bool" where
  "permitted L rd msg raw src p q \<longleftrightarrow> blank (px_store q) = blank (px_store p)
     \<or> sm_class msg = Request \<and> (\<exists>r. accepted L rd msg raw src r p)"

definition same_auth :: "processor \<Rightarrow> processor \<Rightarrow> bool" where
  "same_auth p q \<longleftrightarrow> px_store q = px_store p \<and> px_nonce_mgr q = px_nonce_mgr p \<and> px_auth q = px_auth p
     \<and> px_auth_globals q = px_auth_globals p"

lemma permitted_same: "same_auth p q \<Longrightarrow> permitted L rd msg raw src q r \<Longrightarrow> permitted L rd msg raw src p r"
  by (simp add: same_auth_def permitted_def accepted_def)

lemma ask_limiter_auth: "same_auth p (snd (ask_limiter check rd src p))"
  by (auto simp: same_auth_def ask_limiter_def limiter_for_def Let_def split: option.split prod.split if_split)

lemma set_cache_auth: "same_auth p (set_cache L src c p)"
  by (simp add: same_auth_def set_cache_def)

lemma permitted_authenticated:
  assumes "sm_class msg = Request"
  shows "permitted L rd msg raw src p
    (snd (case authenticate L rd msg raw src p of (Inl a, p) \<Rightarrow> (a, p) | (Inr r, p) \<Rightarrow> f r p))"
proof -
  obtain v q where v: "authenticate L rd msg raw src p = (v, q)" by fastforce
  show ?thesis
  proof (cases v)
    case (Inl a)
    then show ?thesis using authenticate_idle [of p L rd msg raw src] v by (simp add: permitted_def idle_def)
  next
    case (Inr r)
    then show ?thesis using authenticate_accepts(1) [of L rd msg raw src p r q] v assms by (auto simp: permitted_def)
  qed
qed

lemma permitted_limited:
  assumes "\<And>q. permitted L rd msg raw src q (snd (f q))"
  shows "permitted L rd msg raw src p (snd (limited check rd msg src f p))"
proof -
  obtain ok q where a: "ask_limiter check rd src p = (ok, q)" by fastforce
  have s: "same_auth p q" using ask_limiter_auth [of p check rd src] a by simp
  have "px_store (note_rate_limited rd src q) = px_store q" using note_rate_limited_idle by (simp add: idle_def)
  then show ?thesis using permitted_same [OF s assms] s by (simp add: limited_def a permitted_def same_auth_def)
qed

lemma permitted_route: "permitted L rd msg raw src p (snd (route_stun L rd msg raw src tcp p))"
proof -
  have h: "permitted L rd msg raw src q (snd (handle_allocate L rd msg raw src tcp q))"
    "permitted L rd msg raw src q (snd (handle_refresh L rd msg raw src q))"
    "permitted L rd msg raw src q (snd (handle_create_permission L rd msg raw src q))"
    "permitted L rd msg raw src q (snd (handle_channel_bind L rd msg raw src q))" if "sm_class msg = Request" for q
    unfolding handle_allocate_def handle_refresh_def handle_create_permission_def handle_channel_bind_def
    by (rule permitted_authenticated [OF that])+
  have b: "permitted L rd msg raw src p (snd (handle_binding L rd msg raw src p))"
    using handle_binding_idle [of p L rd msg raw src] by (simp add: permitted_def idle_def)
  have s: "permitted L rd msg raw src p (snd (handle_send_indication rd msg src p))"
    by (simp add: permitted_def blank_send_indication)
  have n: "permitted L rd msg raw src p p" by (simp add: permitted_def)
  show ?thesis
    using permitted_limited [OF h(1)] permitted_limited [OF h(2)] permitted_limited [OF h(3)] permitted_limited [OF h(4)] b s n
    by (auto simp: route_stun_def split: message_class.split stun_method.split)
qed

lemma permitted_dispatch: "permitted L rd msg raw src p (snd (dispatch_stun L rd msg raw src tcp p))"
proof -
  have "permitted L rd msg raw src p p" by (simp add: permitted_def)
  then show ?thesis using permitted_route by (simp add: dispatch_stun_def split: option.split)
qed

lemma permitted_cached: "permitted L rd msg raw src p (snd (process_cached L rd msg raw src tcp p))"
proof (cases "utx_lock (lb_hash_addr L) (px_udp_transactions p) src :: (proc_error, utx_cache) res")
  case (Ok c)
  let ?p = "set_cache L src (utx_expire (fst (rd_cache rd)) c) p"
  have st: "px_store (set_cache L src c' q) = px_store q" for c' q by (simp add: set_cache_def)
  obtain a q where d: "dispatch_stun L rd msg raw src tcp ?p = (a, q)" by fastforce
  have q: "permitted L rd msg raw src p q"
    using permitted_same [OF set_cache_auth permitted_dispatch [of L rd msg raw src ?p tcp]] d by simp
  show ?thesis
    using q by (auto simp: process_cached_def Ok d permitted_def st Let_def split: res.split utx_lookup.split option.split)
qed (simp_all add: process_cached_def permitted_def)

lemma process_impl_permitted:
  "blank (px_store (snd (process_impl L rd raw src tcp p))) = blank (px_store p)
   \<or> (\<exists>msg. StunMessage_decode raw = Ok msg \<and> permitted L rd msg raw src p (snd (process_impl L rd raw src tcp p)))"
proof -
  have st: "blank (px_store (snd (process_stun L rd raw src tcp q))) = blank (px_store q)
    \<or> (\<exists>msg. StunMessage_decode raw = Ok msg \<and> permitted L rd msg raw src q (snd (process_stun L rd raw src tcp q)))" for q
    using permitted_cached permitted_dispatch by (auto simp: process_stun_def split: res.split)
  have gate: "blank (px_store (snd (let (ok, q) = ask_limiter check rd src p
      in if \<not> ok then (Ok [NoAction], note_rate_limited rd src q) else f q))) = blank (px_store p)
    \<or> (\<exists>msg. StunMessage_decode raw = Ok msg \<and> permitted L rd msg raw src p (snd (let (ok, q) = ask_limiter check rd src p
      in if \<not> ok then (Ok [NoAction], note_rate_limited rd src q) else f q)))"
    if f: "\<And>q. blank (px_store (snd (f q))) = blank (px_store q)
      \<or> (\<exists>msg. StunMessage_decode raw = Ok msg \<and> permitted L rd msg raw src q (snd (f q)))"
    for check and f :: "processor \<Rightarrow> acts \<times> processor"
  proof -
    obtain ok q where a: "ask_limiter check rd src p = (ok, q)" by fastforce
    have s: "same_auth p q" using ask_limiter_auth [of p check rd src] a by simp
    have n: "px_store (note_rate_limited rd src q) = px_store q" using note_rate_limited_idle by (simp add: idle_def)
    have "px_store q = px_store p" using s by (simp add: same_auth_def)
    then show ?thesis using f [of q] permitted_same [OF s] by (auto simp: a n)
  qed
  show ?thesis using gate [OF st] gate [OF disjI1 [OF blank_process_channel_data]] by (simp add: process_impl_def)
qed

text \<open>
  C2. Apart from the counters of the traffic, a packet changes the allocation store only if it decodes to a request that carries a nonce this server
  issued to this source and that is still fresh, and whose credentials the registry accepts; everything else, whoever sends it,
  leaves every allocation, permission, channel, port and limit as it is.
\<close>

theorem changes_need_credentials:
  "blank (px_store (snd (process_impl L rd raw src tcp p))) = blank (px_store p)
   \<or> (\<exists>msg nonce fetch r. StunMessage_decode raw = Ok msg \<and> sm_class msg = Request \<and> get_nonce msg = Some nonce
        \<and> nm_validate (lb_crypto L) (px_nonce_mgr p) (rd_nonce rd) src nonce = NonceValid
        \<and> fst (validate_opts (lb_crypto L) msg raw fetch (rd_auth rd) (px_auth_globals p) (px_auth p)) = Ok r)"
  using process_impl_permitted [of L rd raw src tcp p] unfolding permitted_def accepted_def by blast

section \<open>Mobility tickets\<close>

lemma verify_ticket_same:
  "verify_ticket C mm t s1 = Some x \<Longrightarrow> verify_ticket C mm t s2 = Some y \<Longrightarrow> y = x"
  by (auto simp: verify_ticket_def MigrationToken_validate_def bind_eq_Some_conv split: if_splits prod.splits)

text \<open>A ticket whose epoch is not the one of the allocation it names changes nothing.\<close>

lemma stale_ticket_refused:
  assumes "\<And>mgr secs x. px_migration p = Some mgr \<Longrightarrow> verify_ticket (lb_crypto L) mgr ticket secs = Some x \<Longrightarrow>
      x = (alloc_id, epoch)" "get_mobility_ticket msg = Some ticket"
    and "\<And>c. get_by_id (px_store p) alloc_id = Some c \<Longrightarrow> map_option al_migration_epoch (st_get (px_store p) c) \<noteq> Some epoch"
  shows "px_store (snd (try_migration_refresh L rd msg src key l p)) = px_store p"
  using assms by (auto simp: try_migration_refresh_def Let_def split: option.split prod.split)

text \<open>What a successful migration leaves behind.\<close>

lemma migrated_epoch:
  assumes wf: "wf_store s" and a: "st_get s old = Some a" "al_allocation_id a = i" and new: "st_get s new = None"
    and rk: "re_key ms id id old new s = (r, s1)" and rf: "st_refresh now ms' new l s1 = (r', s2)"
    and c: "get_by_id s2 i = Some c"
  shows "map_option al_migration_epoch (st_get s2 c) \<noteq> Some (al_migration_epoch a)"
proof -
  have s1: "s1 = snd (re_key ms id id old new s)" and s2: "s2 = snd (st_refresh now ms' new l s1)" using rk rf by simp_all
  have wf1: "wf_store s1" and wf2: "wf_store s2" unfolding s1 s2 by (intro refresh_wf re_key_wf wf)+
  have ne: "old \<noteq> new" using a(1) new by auto
  have get1: "st_get s1 new = Some (a\<lparr>al_client_addr := new, al_migration_epoch := al_migration_epoch a + 1\<rparr>)"
    unfolding s1 using a(1) new by (simp add: st_get_def re_key_ok move_indices_def Let_def)
  then have id1: "get_by_id s1 i = Some new" using a(2) wf_store_index(2) [OF wf1] by auto
  obtain b where b: "st_get s2 c = Some b" "al_allocation_id b = i" using c wf_store_index(2) [OF wf2] by blast
  show ?thesis
  proof (cases "l = 0")
    case True
    then have "st_allocations s2 = fmdrop new (st_allocations s1)"
      using get1 by (simp add: s2 st_refresh_def remove_allocations st_get_def)
    then have "st_get s1 c = Some b" "c \<noteq> new" using b(1) by (auto simp: st_get_def split: if_splits)
    then show ?thesis using id1 b(2) wf_store_index(2) [OF wf1, of i c] by auto
  next
    case False
    then have g: "st_get s2 new = Some (a\<lparr>al_client_addr := new, al_migration_epoch := al_migration_epoch a + 1,
        al_expires_at := now + from_secs (unat l)\<rparr>)"
      using get1 by (simp add: s2 st_refresh_def st_get_def upd_alloc_def)
    then have "get_by_id s2 i = Some new" using a(2) wf_store_index(2) [OF wf2] by auto
    then show ?thesis using c g by simp
  qed
qed


definition sample_mobile :: processor where
  "sample_mobile = (sample_config channel_store)\<lparr>px_migration := Some (MigrationManager_new [7])\<rparr>"

definition sample_ticket :: bytes where
  "sample_ticket = mt_token (issue_token toy_crypto (MigrationManager_new [7]) ''0000000000000001'' 0 0 0)"

definition sample_move :: stun_message where
  "sample_move = \<lparr> sm_class = Request, sm_method = M_Refresh, sm_transaction_id = replicate 12 0,
     sm_attributes = [MobilityTicket sample_ticket] \<rparr>"

lemma sample_moved:
  "\<exists>r p'. try_migration_refresh sample_libs sample_readings sample_move sample_public [] 600 sample_mobile = (r, p')
     \<and> st_get (px_store p') sample_public \<noteq> None"
proof -
  have ticket: "verify_ticket toy_crypto (MigrationManager_new [7]) sample_ticket 0 = Some (''0000000000000001'', 0)"
  proof -
    have "is_string ''0000000000000001''" by (rule is_string_ascii) simp
    from issued_ticket_verifies [OF toy_laws(4) this, of "MigrationManager_new [7]" 0 0 0 0]
    show ?thesis by (simp add: sample_ticket_def)
  qed
  have nonempty: "sample_ticket \<noteq> []"
    by (simp add: sample_ticket_def issue_token_def MigrationToken_generate_def Let_def as_bytes_def)
  have ne: "sample_public \<noteq> sample_client" by (simp add: sample_public_def sample_client_def)
  have get: "st_get channel_store c = (if c = sample_client then Some channel_alloc else None)" for c
    by (simp add: st_get_def channel_store_lookup)
  have id: "get_by_id channel_store ''0000000000000001'' = Some sample_client"
    using wf_store_index(2) [OF channel_store_wf] by (auto simp: get channel_alloc_def Allocation_new_def)
  have ep: "al_migration_epoch channel_alloc = 0" by (simp add: channel_alloc_def Allocation_new_def)
  note rk = re_key_ok [of channel_store sample_client channel_alloc sample_public 0]
  show ?thesis
    using ticket nonempty ne
    by (simp add: try_migration_refresh_def Let_def sample_move_def get_mobility_ticket_def sm_get_def sample_mobile_def
        sample_libs_def sample_readings_def id get ep rk channel_store_lookup st_refresh_def upd_alloc_def move_indices_def st_get_def)
qed


end
