(* ===== verification/Spec2Isabelle.thy ===== *)
theory Spec2Isabelle
  imports Request_Safety
begin

text \<open>
  A verification development of turna, a STUN and TURN server (RFC 8489, 8656, 6062, 8016, 5780). Paths below are relative to
  \<^verbatim>\<open>src/\<close>.

  \<^bold>\<open>The program.\<close> A socket loop hands every packet to the packet processor (\<^verbatim>\<open>crates/relay/src/processor.rs\<close>), which decodes it
  (\<^verbatim>\<open>crates/protocol\<close>), applies limits and bans (\<^verbatim>\<open>crates/qos\<close>, \<^verbatim>\<open>crates/relay/src/abuse.rs\<close>), checks the nonce and the credentials
  (\<^verbatim>\<open>crates/crypto\<close>, \<^verbatim>\<open>crates/auth\<close>), filters peer addresses (\<^verbatim>\<open>crates/relay/src/peer_filter.rs\<close>), changes the allocation store with its port
  pools (\<^verbatim>\<open>crates/session\<close>), and returns a list of actions, which the loop carries out. The processor decides; the loop is I/O.
  The model is the processor and everything it calls.

  \<^bold>\<open>Conventions.\<close> A Rust call is a function to \<open>res\<close>: \<open>Ok\<close>, \<open>Err\<close> with the error value, or \<open>Panic\<close>.
  Machine integers are words of their width and wrap or are checked as the code has it; byte buffers are lists of 8-bit words;
  structs are records with a prefix per type; hash maps are finite maps, and where the order of an iteration shows it is an argument.
  State is passed and returned. Clock readings, random draws, outcomes of binding a socket and answers of a bounded queue are
  arguments, so every theorem holds for all of them. Third-party functions (HMAC, MD5, SHA-2, AES-GCM, base64, CRC-32, xxHash) are
  the fields of the records \<open>crypto\<close> and \<open>libs\<close>; the little that is assumed of them is stated as named laws (\<^verbatim>\<open>verify_left_law\<close>,
  \<^verbatim>\<open>verify_slice_law\<close>, \<^verbatim>\<open>b64url_law\<close>, \<^verbatim>\<open>gcm_law\<close>, \<^verbatim>\<open>hmac_lengths\<close> in \<open>Crypto\<close>), which \<open>toy_crypto\<close> satisfies.

  \<^bold>\<open>Wire formats\<close> (\<^verbatim>\<open>crates/protocol/proto-stun\<close>, \<^verbatim>\<open>proto-turn\<close>).
    \<^item> \<open>Prelude\<close>, \<open>Utf8\<close>, \<open>Net\<close>, \<open>Ip_Text\<close>: slices, big-endian numbers, the UTF-8 conversions and the text forms of addresses the code takes from the
      standard library; the locales \<open>invariant_system\<close> and \<open>refinement\<close>.
    \<^item> \<open>Stun_Header\<close>, \<open>Stun_Attribute\<close>, \<open>Stun_Parse\<close>, \<open>Stun_Message\<close>: header, attributes, the attribute walk, messages and ChannelData. The
      decoder panics on no input; decoding the encoder's output gives the message back.
    \<^item> \<open>Stun_Integrity\<close>: signing and verification with SHA-1 and SHA-256. What is accepted is signed by the key and has nothing but
      FINGERPRINT after the signed part; what is signed is accepted.
    \<^item> \<open>Turn_Proto\<close>: the message builders.

  \<^bold>\<open>Sessions\<close> (\<^verbatim>\<open>crates/session/src/lib.rs\<close>, \<^verbatim>\<open>usage.rs\<close>, \<^verbatim>\<open>write_op.rs\<close>).
    \<^item> \<open>Session_Base\<close>, \<open>User_Limits\<close>: errors and instants; limits by user, tenant and node.
    \<^item> \<open>Port_Allocator\<close>, \<open>Port_Source\<close>: the relay port pool with reservations, its invariant over all runs, and the four
      ways to acquire a port as one interface (locale \<open>port_source\<close>, interpreted for each).
    \<^item> \<open>Allocation\<close>: permissions, channels, traffic counters and the bandwidth window of one allocation.
    \<^item> \<open>Allocation_Store\<close> has the operations of the store; \<open>Store_Index\<close>, \<open>Store_Consistency\<close>, \<open>Store_Operations\<close> and \<open>Store_Lifecycle\<close> show
      that each keeps the store consistent; \<open>Store_Machine\<close> makes the store a step relation; \<open>Store_Admission\<close>, \<open>Store_Sweep\<close> and
      \<open>Store_Migration\<close> say what creation, the periodic sweep, removal and migration do, migration also with other threads at its unlocked points;
      \<open>Store_Refinement\<close> shows that the store implements an abstract book of leases.

  \<^bold>\<open>Checks.\<close>
    \<^item> \<open>Peer_Filter\<close> (\<^verbatim>\<open>crates/relay/src/peer_filter.rs\<close>): the filter equals a decision over a table of RFC blocks, and no IPv6 form of an IPv4
      address gets round it.
    \<^item> \<open>Crypto\<close>, \<open>Nonce\<close> (\<^verbatim>\<open>crates/crypto/src/lib.rs\<close>, \<^verbatim>\<open>NonceManager\<close> of the processor): keys and stateless nonces, their lifetime and their
      binding to the client.
    \<^item> \<open>Migration_Token\<close> (\<^verbatim>\<open>crates/transport/src/migration.rs\<close>): mobility tickets.
    \<^item> \<open>Webhook_Cache\<close>, \<open>Auth\<close>, \<open>Auth_Registry\<close>, \<open>Auth_Credentials\<close> (\<^verbatim>\<open>crates/auth/src\<close>): long-term, TURN REST, OAuth and webhook credentials, the registry
      of tenants, and that a request is attributed to a subject only under a legitimate key.
    \<^item> \<open>Rate_Limiter\<close>, \<open>Auto_Ban\<close> (\<^verbatim>\<open>crates/qos/src\<close>, \<^verbatim>\<open>crates/relay/src/abuse.rs\<close>): what a token bucket grants, and that a ban needs
      evidence.
    \<^item> \<open>Udp_Transactions\<close> (\<^verbatim>\<open>crates/relay/src/udp_transactions.rs\<close>): the cache that answers retransmissions.
    \<^item> \<open>Hash_Ring\<close> (\<^verbatim>\<open>crates/cluster/src/hash_ring.rs\<close>): the owner of a client in the cluster.

  \<^bold>\<open>The packet processor\<close> (\<^verbatim>\<open>crates/relay/src/processor.rs\<close>, \<^verbatim>\<open>nat_discovery.rs\<close>).
    \<^item> \<open>Processor\<close>: actions, state, limits, authentication, ChannelData, data of peers and Send indications. \<open>Handlers\<close>: Binding, Allocate,
      Refresh with and without a ticket, CreatePermission, ChannelBind, Connect, ConnectionBind, redirection, the replay cache and the entry
      points. \<open>Nat_Discovery\<close>: the four sockets of RFC 5780 and the answer to a request on one of them.
    \<^item> \<open>Processor_Frame\<close>: what limits and authentication leave alone. \<open>Processor_Effects\<close>: the seven ways the datapath calls the processor (\<open>serve\<close>) and the
      locale \<open>store_effects\<close>, whose laws speak of the operations of the store and whose theorem speaks of every event.
      \<open>Processor_Safety\<close> interprets it twice, on the steps of the store and on the peers that permissions and channels name. Connect and
      ConnectionBind, which leave the store alone, and the discovery sockets are not among these events.
    \<^item> \<open>Sample_Processor\<close>: the concrete processor of the instances.
    \<^item> \<open>Relay_Safety\<close> and \<open>Request_Safety\<close> hold the properties that span the components: no sequence of events makes the server send to a
      forbidden peer; a datagram leaves only for a peer of the client's own live allocation; a peer's data reaches only the client that
      permitted it; the store changes only for authenticated requests and only through its own steps; and a ticket moves an
      allocation once.

  \<^bold>\<open>Bounds and termination.\<close> Loops over buffers and lists are recursive functions with termination proofs. The search of the port pool is
  a \<open>partial_function\<close>, because on a full pool the loop of the code ends only through its wrap-around test; it is proved to return. EVEN-PORT
  binding has the code's own 64 attempts. No other fuel occurs. \<open>serve_refines_store\<close> assumes that fewer than \<open>2 ^ 64 - 1\<close> allocation ids were
  minted and that the drawn 8-byte reservation tokens are not in use. A compare-and-exchange loop and a call under one lock are
  one step.

  \<^bold>\<open>Not modelled.\<close> Socket loops and bridges (\<^verbatim>\<open>crates/relay/src/server.rs\<close> and its siblings, \<^verbatim>\<open>crates/transport\<close> but for the tickets): system calls,
  kernel interfaces and third-party stacks. The connections of the TCP relay: tables of live sockets and timers. \<^verbatim>\<open>crates/dtls\<close>: a fork of a
  library below the datapath. \<^verbatim>\<open>crates/config\<close>: the values reach the model as arguments. Gossip, state backends, control plane,
  management, services: asynchronous clients and servers over the network; the store operations they call are modelled. Metrics, logs, health and
  RTP statistics decide nothing and use floating point. Of the modelled files: the older rate limiter over floating-point seconds and \<^verbatim>\<open>jump_hash\<close>, which the server
  does not use, overwriting of secrets on drop, and checks made only to equalise timing.
\<close>

end
